(* ===== verification/Prelude.thy ===== *)
theory Prelude imports Main "HOL-Library.Word" begin

text \<open>
  What the components share: the integer widths of the source, Rust's \<open>Result\<close> with the
  \<open>?\<close> operator, a call that threads the outside world, \<open>Vec\<close> used as a stack, the unbounded
  \<open>loop { ... }\<close> statement, and the decimal printing behind \<open>Display\<close>.
\<close>

section \<open>Integer widths\<close>

text \<open>
  \<open>usize\<close> is 64 bits wide. Lengths, loop counters and sizes that the code only compares or
  counts up to another length are \<open>nat\<close>; a \<open>usize\<close>, \<open>u64\<close>, \<open>u32\<close> or \<open>u16\<close> that the code
  computes with or casts is a word, so that wrap-around (the release profile has overflow
  checks off) is part of the model.
\<close>

type_synonym u8 = "8 word"
type_synonym u16 = "16 word"
type_synonym u32 = "32 word"
type_synonym u64 = "64 word"
type_synonym usize = "64 word"
type_synonym bytes = "8 word list"

lemma unat_usize_less: "unat (w :: usize) < 2 ^ 64"
  using unsigned_less [where ?w = w and ?'a = nat] by simp

lemma unat_word_of_nat_id [simp]: "n < 2 ^ 64 \<Longrightarrow> unat (word_of_nat n :: usize) = n"
  by (simp add: unat_of_nat)

section \<open>Result and the question mark operator\<close>

datatype ('a, 'e) result = Ok 'a | Err 'e

primrec map_err :: "('e \<Rightarrow> 'f) \<Rightarrow> ('a, 'e) result \<Rightarrow> ('a, 'f) result" where
  "map_err f (Ok a) = Ok a"
| "map_err f (Err e) = Err (f e)"

primrec map_ok :: "('a \<Rightarrow> 'b) \<Rightarrow> ('a, 'e) result \<Rightarrow> ('b, 'e) result" where
  "map_ok f (Ok a) = Ok (f a)"
| "map_ok f (Err e) = Err e"

primrec is_ok :: "('a, 'e) result \<Rightarrow> bool" where
  "is_ok (Ok _) = True"
| "is_ok (Err _) = False"

lemma map_err_eq_Ok [simp]: "map_err f r = Ok a \<longleftrightarrow> r = Ok a"
  by (cases r) auto

lemma map_err_eq_Err [simp]: "map_err f r = Err e' \<longleftrightarrow> (\<exists>e. r = Err e \<and> e' = f e)"
  by (cases r) auto

lemma map_ok_eq_Ok [simp]: "map_ok f r = Ok b \<longleftrightarrow> (\<exists>a. r = Ok a \<and> b = f a)"
  by (cases r) auto

lemma map_ok_eq_Err [simp]: "map_ok f r = Err e \<longleftrightarrow> r = Err e"
  by (cases r) auto

text \<open>
  A fallible operation on the outside world \<open>'k\<close>: it returns a result and the world after
  it. \<open>and_then\<close> is the sequencing that \<open>?\<close> gives: the first \<open>Err\<close> is returned at once and
  nothing after it runs.
\<close>

type_synonym ('k, 'a, 'e) eff = "'k \<Rightarrow> ('a, 'e) result \<times> 'k"

definition pure :: "'a \<Rightarrow> ('k, 'a, 'e) eff" where
  "pure a = (\<lambda>k. (Ok a, k))"

definition fail :: "'e \<Rightarrow> ('k, 'a, 'e) eff" where
  "fail e = (\<lambda>k. (Err e, k))"

definition and_then :: "('k, 'a, 'e) eff \<Rightarrow> ('a \<Rightarrow> ('k, 'b, 'e) eff) \<Rightarrow> ('k, 'b, 'e) eff" where
  "and_then m f = (\<lambda>k. case m k of (Ok a, k') \<Rightarrow> f a k' | (Err e, k') \<Rightarrow> (Err e, k'))"

definition eff_err :: "('e \<Rightarrow> 'f) \<Rightarrow> ('k, 'a, 'e) eff \<Rightarrow> ('k, 'a, 'f) eff" where
  "eff_err g m = (\<lambda>k. case m k of (r, k') \<Rightarrow> (map_err g r, k'))"

named_theorems eff_simps \<open>unfolding of world-passing calls\<close>

lemma pure_apply [eff_simps]: "pure a k = (Ok a, k)"
  by (simp add: pure_def)

lemma fail_apply [eff_simps]: "fail e k = (Err e, k)"
  by (simp add: fail_def)

lemma and_then_apply [eff_simps]:
  "and_then m f k = (case m k of (Ok a, k') \<Rightarrow> f a k' | (Err e, k') \<Rightarrow> (Err e, k'))"
  by (simp add: and_then_def)

lemma eff_err_apply [eff_simps]: "eff_err g m k = (case m k of (r, k') \<Rightarrow> (map_err g r, k'))"
  by (simp add: eff_err_def)

lemma and_then_Ok_iff:
  "and_then m f k = (Ok b, k'') \<longleftrightarrow> (\<exists>a k'. m k = (Ok a, k') \<and> f a k' = (Ok b, k''))"
  by (auto simp: and_then_def split: prod.splits result.splits)

lemma and_then_Err_iff:
  "and_then m f k = (Err e, k'') \<longleftrightarrow>
     m k = (Err e, k'') \<or> (\<exists>a k'. m k = (Ok a, k') \<and> f a k' = (Err e, k''))"
  by (auto simp: and_then_def split: prod.splits result.splits)

lemma eff_err_Ok_iff: "eff_err g m k = (Ok a, k') \<longleftrightarrow> m k = (Ok a, k')"
  by (auto simp: eff_err_def split: prod.splits)

lemma eff_err_Err_iff: "eff_err g m k = (Err e', k') \<longleftrightarrow> (\<exists>e. m k = (Err e, k') \<and> e' = g e)"
  by (auto simp: eff_err_def split: prod.splits)

section \<open>Vec as a stack\<close>

definition vec_push :: "'a list \<Rightarrow> 'a \<Rightarrow> 'a list" where
  "vec_push xs x = xs @ [x]"

definition vec_pop :: "'a list \<Rightarrow> ('a \<times> 'a list) option" where
  "vec_pop xs = (if xs = [] then None else Some (last xs, butlast xs))"

lemma vec_pop_None [simp]: "vec_pop xs = None \<longleftrightarrow> xs = []"
  by (simp add: vec_pop_def)

lemma vec_pop_Some: "vec_pop xs = Some (x, ys) \<longleftrightarrow> xs = ys @ [x]"
  by (auto simp: vec_pop_def)

lemma vec_pop_push [simp]: "vec_pop (vec_push xs x) = Some (x, xs)"
  by (simp add: vec_pop_def vec_push_def)

lemma vec_push_pop: "vec_pop xs = Some (x, ys) \<Longrightarrow> vec_push ys x = xs"
  by (simp add: vec_pop_Some vec_push_def)

lemma length_vec_push [simp]: "length (vec_push xs x) = Suc (length xs)"
  by (simp add: vec_push_def)

section \<open>The unbounded loop\<close>

text \<open>
  \<open>loop { body }\<close> over a state: the body either asks for another round or leaves the loop
  with a value. \<open>None\<close> is a loop that never ends.
\<close>

datatype ('s, 'r) flow = Continue 's | Break 'r

partial_function (option) run_loop :: "('s \<Rightarrow> ('s, 'r) flow) \<Rightarrow> 's \<Rightarrow> 'r option" where
  "run_loop body s = (case body s of Continue s' \<Rightarrow> run_loop body s' | Break r \<Rightarrow> Some r)"

named_theorems loop_steps \<open>one round of a loop\<close>

lemma run_loop_Break [loop_steps]: "body s = Break r \<Longrightarrow> run_loop body s = Some r"
  by (simp add: run_loop.simps)

lemma run_loop_Continue [loop_steps]: "body s = Continue s' \<Longrightarrow> run_loop body s = run_loop body s'"
  by (subst run_loop.simps) simp

text \<open>The states at which the successive rounds start.\<close>

primrec rounds :: "('s \<Rightarrow> ('s, 'r) flow) \<Rightarrow> nat \<Rightarrow> 's \<Rightarrow> 's option" where
  "rounds body 0 s = Some s"
| "rounds body (Suc n) s = (case body s of Continue s' \<Rightarrow> rounds body n s' | Break r \<Rightarrow> None)"

lemma run_loop_rounds: "rounds body n s = Some s' \<Longrightarrow> run_loop body s = run_loop body s'"
  by (induction n arbitrary: s) (auto split: flow.splits simp: loop_steps)

lemma run_loop_returns_iff:
  "run_loop body s = Some r \<longleftrightarrow> (\<exists>n s'. rounds body n s = Some s' \<and> body s' = Break r)"
proof
  assume "run_loop body s = Some r"
  then show "\<exists>n s'. rounds body n s = Some s' \<and> body s' = Break r"
  proof (rule run_loop.raw_induct [where P = "\<lambda>body s r. \<exists>n s'. rounds body n s = Some s' \<and> body s' = Break r", rotated])
    fix f body s r
    assume IH: "\<And>body s r. f body s = Some r \<Longrightarrow> \<exists>n s'. rounds body n s = Some s' \<and> body s' = Break r"
      and eq: "(case body s of Continue s' \<Rightarrow> f body s' | Break r \<Rightarrow> Some r) = Some r"
    show "\<exists>n s'. rounds body n s = Some s' \<and> body s' = Break r"
    proof (cases "body s")
      case (Continue t)
      with eq IH [of body t r] obtain n s' where "rounds body n t = Some s'" "body s' = Break r"
        by auto
      with Continue have "rounds body (Suc n) s = Some s'" by simp
      with \<open>body s' = Break r\<close> show ?thesis by blast
    next
      case (Break r')
      with eq show ?thesis by (intro exI [of _ 0] exI [of _ s]) simp
    qed
  qed
next
  assume "\<exists>n s'. rounds body n s = Some s' \<and> body s' = Break r"
  then show "run_loop body s = Some r"
    by (auto simp: run_loop_rounds run_loop_Break)
qed

text \<open>An invariant of the rounds holds where the loop is left.\<close>

lemma rounds_invariant:
  assumes "rounds body n s = Some s'" and "I s"
    and "\<And>s s'. I s \<Longrightarrow> body s = Continue s' \<Longrightarrow> I s'"
  shows "I s'"
  using assms by (induction n arbitrary: s) (auto split: flow.splits)

lemma run_loop_invariant:
  assumes "run_loop body s = Some r" and "I s"
    and "\<And>s s'. I s \<Longrightarrow> body s = Continue s' \<Longrightarrow> I s'"
    and "\<And>s r. I s \<Longrightarrow> body s = Break r \<Longrightarrow> P r"
  shows "P r"
  using assms(1) unfolding run_loop_returns_iff
  by (metis assms(2-4) rounds_invariant)

text \<open>A measure that every further round decreases makes the loop return.\<close>

lemma run_loop_terminates:
  fixes m :: "'s \<Rightarrow> nat"
  assumes "I s"
    and step: "\<And>s s'. I s \<Longrightarrow> body s = Continue s' \<Longrightarrow> I s' \<and> m s' < m s"
  shows "\<exists>r. run_loop body s = Some r"
  using assms(1)
proof (induction "m s" arbitrary: s rule: less_induct)
  case less
  show ?case
  proof (cases "body s")
    case (Continue s')
    with step [OF less.prems] less.hyps show ?thesis by (auto simp: run_loop_Continue)
  next
    case (Break r)
    then show ?thesis by (auto simp: run_loop_Break)
  qed
qed

text \<open>A loop whose every round asks for another one never ends.\<close>

lemma run_loop_diverges:
  assumes "I s" and "\<And>s. I s \<Longrightarrow> \<exists>s'. body s = Continue s' \<and> I s'"
  shows "run_loop body s = None"
proof (rule ccontr)
  assume "run_loop body s \<noteq> None"
  then obtain r where "run_loop body s = Some r" by auto
  then have False
    by (rule run_loop_invariant [where I = I]) (use assms in \<open>auto dest: assms(2)\<close>)
  then show False .
qed

text \<open>
  A loop whose body may itself block for ever (\<open>Break None\<close>), and one that retries a call: the
  call is repeated, with \<open>again\<close> between two attempts, as long as its outcome is to be retried.
\<close>

definition run_blocking :: "('s \<Rightarrow> ('s, 'r option) flow) \<Rightarrow> 's \<Rightarrow> 'r option" where
  "run_blocking body s = (case run_loop body s of None \<Rightarrow> None | Some r \<Rightarrow> r)"

lemma run_blocking_step [loop_steps]:
  "body s = Break r \<Longrightarrow> run_blocking body s = r"
  "body s = Continue s' \<Longrightarrow> run_blocking body s = run_blocking body s'"
  by (simp_all add: run_blocking_def loop_steps)

lemma run_blocking_returns_iff:
  "run_blocking body s = Some r \<longleftrightarrow> (\<exists>n s'. rounds body n s = Some s' \<and> body s' = Break (Some r))"
  unfolding run_blocking_def using run_loop_returns_iff [of body s "Some r"]
  by (auto split: option.splits)

lemma run_blocking_diverges:
  assumes "I s" and "\<And>s. I s \<Longrightarrow> body s = Break None \<or> (\<exists>s'. body s = Continue s' \<and> I s')"
  shows "run_blocking body s = None"
proof (rule ccontr)
  assume "run_blocking body s \<noteq> None"
  then obtain r n s' where "rounds body n s = Some s'" "body s' = Break (Some r)"
    by (auto simp: run_blocking_returns_iff)
  moreover have "I s'"
    by (rule rounds_invariant [where I = I, OF \<open>rounds body n s = Some s'\<close> assms(1)])
       (use assms(2) in force)
  ultimately show False using assms(2) [of s'] by auto
qed

lemma run_blocking_invariant:
  assumes "run_blocking body s = Some r" and "I s"
    and "\<And>s s'. I s \<Longrightarrow> body s = Continue s' \<Longrightarrow> I s'"
    and "\<And>s r. I s \<Longrightarrow> body s = Break (Some r) \<Longrightarrow> P r"
  shows "P r"
proof -
  from assms(1) obtain n s' where n: "rounds body n s = Some s'" "body s' = Break (Some r)"
    by (auto simp: run_blocking_returns_iff)
  from rounds_invariant [where I = I, OF n(1) assms(2)] assms(3) have "I s'" by blast
  with n(2) assms(4) show ?thesis by blast
qed

lemma run_blocking_terminates:
  fixes m :: "'s \<Rightarrow> nat"
  assumes "I s"
    and "\<And>s s'. I s \<Longrightarrow> body s = Continue s' \<Longrightarrow> I s' \<and> m s' < m s"
    and "\<And>s. I s \<Longrightarrow> body s \<noteq> Break None"
  shows "\<exists>r. run_blocking body s = Some r"
proof -
  from run_loop_terminates [of I s body m] assms(1,2) obtain r where r: "run_loop body s = Some r" by blast
  have "r \<noteq> None"
    by (rule run_loop_invariant [where I = I, OF r assms(1)]) (use assms(2) in blast, metis assms(3))
  with r show ?thesis by (auto simp: run_blocking_def)
qed

section \<open>Time that passes\<close>

text \<open>
  A step that takes time: the clock \<open>now\<close> advances, or \<open>m\<close>, which counts how many such steps may
  still end before its next tick, drops.
\<close>

definition later :: "('k \<Rightarrow> nat) \<Rightarrow> ('k \<Rightarrow> nat) \<Rightarrow> 'k \<Rightarrow> 'k \<Rightarrow> bool" where
  "later now m k k' \<longleftrightarrow> now k < now k' \<or> now k' = now k \<and> m k' < m k"

lemma later_trans: "later now m k1 k2 \<Longrightarrow> later now m k2 k3 \<Longrightarrow> later now m k1 k3"
  by (auto simp: later_def)

text \<open>What decreases on the way to a deadline: the time left, and within a tick the steps left.\<close>

lemma later_decreases:
  assumes "later now m k k'" and "\<And>k. m k \<le> B" and "start \<le> now k" and "now k - start < d"
  shows "(start + d - now k') * Suc B + m k' < (start + d - now k) * Suc B + m k" and "start \<le> now k'"
proof -
  show "start \<le> now k'" using assms(1,3) by (auto simp: later_def)
  show "(start + d - now k') * Suc B + m k' < (start + d - now k) * Suc B + m k"
  proof (cases "now k < now k'")
    case False
    with assms(1) show ?thesis by (simp add: later_def)
  next
    case True
    with assms(3,4) have "Suc (start + d - now k') \<le> start + d - now k" by simp
    then have "Suc (start + d - now k') * Suc B \<le> (start + d - now k) * Suc B" by (rule mult_le_mono1)
    with assms(2) [of k'] show ?thesis by simp
  qed
qed

section \<open>Decimal printing\<close>

text \<open>What \<open>Display\<close> prints for an unsigned integer.\<close>

fun show_nat :: "nat \<Rightarrow> string" where
  "show_nat n = (if n < 10 then [char_of (48 + n)] else show_nat (n div 10) @ [char_of (48 + n mod 10)])"

declare show_nat.simps [simp del]

definition digit_val :: "char \<Rightarrow> nat" where
  "digit_val c = of_char c - 48"

definition read_nat :: "string \<Rightarrow> nat" where
  "read_nat = foldl (\<lambda>acc c. 10 * acc + digit_val c) 0"

lemma digit_val_char [simp]: "d < 10 \<Longrightarrow> digit_val (char_of (48 + d)) = d"
  by (simp add: digit_val_def of_char_of)

lemma read_show_nat [simp]: "read_nat (show_nat n) = n"
proof (induction n rule: show_nat.induct)
  case (1 n)
  then show ?case
    by (cases "n < 10") (simp_all add: read_nat_def show_nat.simps [of n])
qed

lemma show_nat_inj [simp]: "show_nat m = show_nat n \<longleftrightarrow> m = n"
  by (metis read_show_nat)

end
