(* ===== verification/Net_Types.thy ===== *)
theory Net_Types imports Prelude begin

text \<open>
  The types of \<open>std::net\<close> and \<open>std::io\<close> that the sources pass around: socket addresses with
  their \<open>Display\<close> text (it ends up in \<open>TransportError::BindFailed\<close>), and I/O errors.
\<close>

section \<open>Addresses\<close>

type_synonym ipv4_addr = "32 word"
type_synonym ipv6_addr = "128 word"

datatype ip_addr = V4 ipv4_addr | V6 ipv6_addr

text \<open>\<open>SocketAddrV6\<close> carries the flow label and the scope id next to address and port.\<close>

datatype socket_addr =
    SocketAddrV4 ipv4_addr u16
  | SocketAddrV6 ipv6_addr u16 u32 u32

definition ipv4_unspecified :: ipv4_addr where
  "ipv4_unspecified = 0"

fun socket_addr_new :: "ip_addr \<Rightarrow> u16 \<Rightarrow> socket_addr" where
  "socket_addr_new (V4 a) p = SocketAddrV4 a p"
| "socket_addr_new (V6 a) p = SocketAddrV6 a p 0 0"

fun is_ipv4 :: "socket_addr \<Rightarrow> bool" where
  "is_ipv4 (SocketAddrV4 _ _) = True"
| "is_ipv4 (SocketAddrV6 _ _ _ _) = False"

definition unspecified_peer :: socket_addr where
  "unspecified_peer = socket_addr_new (V4 ipv4_unspecified) 0"

section \<open>Display of addresses\<close>

text \<open>
  Octet \<open>i\<close> counts from the most significant one; so does 16-bit segment \<open>i\<close> of an IPv6
  address. An IPv6 address prints its first longest run of at least two zero segments as two
  colons and an IPv4-mapped one in dotted form, as \<open>std\<close> does.
\<close>

definition octet :: "ipv4_addr \<Rightarrow> nat \<Rightarrow> nat" where
  "octet a i = (unat a div 256 ^ (3 - i)) mod 256"

definition segment :: "ipv6_addr \<Rightarrow> nat \<Rightarrow> nat" where
  "segment a i = (unat a div 65536 ^ (7 - i)) mod 65536"

definition join_with :: "string \<Rightarrow> string list \<Rightarrow> string" where
  "join_with sep xs = concat (case xs of [] \<Rightarrow> [] | y # ys \<Rightarrow> y # map (\<lambda>z. sep @ z) ys)"

definition show_ipv4 :: "ipv4_addr \<Rightarrow> string" where
  "show_ipv4 a = join_with ''.'' (map (\<lambda>i. show_nat (octet a i)) [0..<4])"

definition hex_digit :: "nat \<Rightarrow> char" where
  "hex_digit d = (if d < 10 then char_of (48 + d) else char_of (87 + d))"

fun show_hex :: "nat \<Rightarrow> string" where
  "show_hex n = (if n < 16 then [hex_digit n] else show_hex (n div 16) @ [hex_digit (n mod 16)])"

declare show_hex.simps [simp del]

text \<open>The length of the zero run that starts at each segment, and the first longest one.\<close>

definition zero_run :: "nat list \<Rightarrow> nat \<Rightarrow> nat" where
  "zero_run segs i = length (takeWhile (\<lambda>s. s = 0) (drop i segs))"

definition longest_zero_run :: "nat list \<Rightarrow> nat \<times> nat" where
  "longest_zero_run segs =
     foldl (\<lambda>(start, len) i. if len < zero_run segs i then (i, zero_run segs i) else (start, len))
       (0, 0) [0..<length segs]"

definition show_segments :: "nat list \<Rightarrow> string" where
  "show_segments segs = join_with '':'' (map show_hex segs)"

definition show_ipv6 :: "ipv6_addr \<Rightarrow> string" where
  "show_ipv6 a =
     (let segs = map (segment a) [0..<8]; (start, len) = longest_zero_run segs in
      if take 6 segs = [0, 0, 0, 0, 0, 65535]
      then ''::ffff:'' @ show_ipv4 (word_of_nat (unat a mod 2 ^ 32))
      else if 1 < len
      then show_segments (take start segs) @ ''::'' @ show_segments (drop (start + len) segs)
      else show_segments segs)"

fun show_addr :: "socket_addr \<Rightarrow> string" where
  "show_addr (SocketAddrV4 a p) = show_ipv4 a @ '':'' @ show_nat (unat p)"
| "show_addr (SocketAddrV6 a p flow scope) =
     ''['' @ show_ipv6 a @ (if scope = 0 then '''' else ''%'' @ show_nat (unat scope)) @ '']:''
       @ show_nat (unat p)"

lemma show_addr_loopback: "show_addr (SocketAddrV4 2130706433 4242) = ''127.0.0.1:4242''"
  by (simp add: show_ipv4_def octet_def join_with_def show_nat.simps char_of_def bit_0 upt_rec)

lemma show_addr_v6_compressed: "show_addr (SocketAddrV6 1 80 0 0) = ''[::1]:80''"
  by (simp add: show_ipv6_def segment_def join_with_def show_segments_def longest_zero_run_def
      zero_run_def show_nat.simps show_hex.simps hex_digit_def char_of_def bit_0 upt_rec)

section \<open>I/O errors\<close>

text \<open>
  The kinds of \<open>std::io::ErrorKind\<close> the sources test for or produce; every other kind is
  \<open>OtherKind\<close> with its name. An error carries what its \<open>Display\<close> prints and, when the
  operating system raised it, the raw code.
\<close>

datatype error_kind = WouldBlock | UnexpectedEof | WriteZero | TimedOut | OtherKind string

record io_error =
  err_kind :: error_kind
  raw_os_error :: "int option"
  err_text :: string

definition io_error_new :: "error_kind \<Rightarrow> string \<Rightarrow> io_error" where
  "io_error_new kd msg = \<lparr>err_kind = kd, raw_os_error = None, err_text = msg\<rparr>"

lemma err_kind_new [simp]: "err_kind (io_error_new kd msg) = kd"
  by (simp add: io_error_new_def)

end
