(* ===== verification/Transport_Error.thy ===== *)
theory Transport_Error imports Net_Types begin

text \<open>
  The shared error type (\<open>crates/core/src/error.rs\<close>) and the log line each variant prints
  (the \<open>#[error(...)]\<close> formats). The lemmas show that a log line determines the variant that
  printed it and the numbers it reports.
\<close>

datatype transport_error =
    BindFailed (bf_addr: string) (bf_reason: string)
  | Io io_error
  | PoolExhausted (pe_in_use: usize) (pe_capacity: usize)
  | RingFull (rf_capacity: usize)
  | BackendUnavailable (bu_name: string) (bu_reason: string)
  | Unsupported (us_name: string) (us_reason: string)

fun display_error :: "transport_error \<Rightarrow> string" where
  "display_error (BindFailed addr reason) = ''bind failed for '' @ addr @ '': '' @ reason"
| "display_error (Io e) = ''I/O error: '' @ err_text e"
| "display_error (PoolExhausted in_use capacity) =
     ''buffer pool exhausted (in_use '' @ show_nat (unat in_use) @ '' / capacity ''
       @ show_nat (unat capacity) @ '')''"
| "display_error (RingFull capacity) = ''ring full (capacity '' @ show_nat (unat capacity) @ '')''"
| "display_error (BackendUnavailable name reason) = ''backend '' @ name @ '' unavailable: '' @ reason"
| "display_error (Unsupported name reason) =
     ''operation not supported by '' @ name @ '': '' @ reason"

text \<open>The variant, without its fields.\<close>

datatype error_variant =
  VBindFailed | VIo | VPoolExhausted | VRingFull | VBackendUnavailable | VUnsupported

fun variant_of :: "transport_error \<Rightarrow> error_variant" where
  "variant_of (BindFailed _ _) = VBindFailed"
| "variant_of (Io _) = VIo"
| "variant_of (PoolExhausted _ _) = VPoolExhausted"
| "variant_of (RingFull _) = VRingFull"
| "variant_of (BackendUnavailable _ _) = VBackendUnavailable"
| "variant_of (Unsupported _ _) = VUnsupported"

text \<open>A log rule that classifies a line by its first two characters.\<close>

definition classify_line :: "string \<Rightarrow> error_variant" where
  "classify_line s =
     (if take 2 s = ''bi'' then VBindFailed
      else if take 2 s = ''I/'' then VIo
      else if take 2 s = ''bu'' then VPoolExhausted
      else if take 2 s = ''ri'' then VRingFull
      else if take 2 s = ''ba'' then VBackendUnavailable
      else VUnsupported)"

lemma classify_display [simp]: "classify_line (display_error e) = variant_of e"
  by (cases e) (simp_all add: classify_line_def)

text \<open>Reading the numbers back out of a pool-exhausted line.\<close>

definition is_digit_char :: "char \<Rightarrow> bool" where
  "is_digit_char c \<longleftrightarrow> 48 \<le> (of_char c :: nat) \<and> (of_char c :: nat) \<le> 57"

lemma show_nat_digits: "c \<in> set (show_nat n) \<Longrightarrow> is_digit_char c"
proof (induction n arbitrary: c rule: show_nat.induct)
  case (1 n)
  then show ?case
    by (cases "n < 10") (auto simp: show_nat.simps [of n] is_digit_char_def of_char_of)
qed

lemma takeWhile_show_nat:
  assumes "\<not> is_digit_char c"
  shows "takeWhile is_digit_char (show_nat n @ c # rest) = show_nat n"
    and "dropWhile is_digit_char (show_nat n @ c # rest) = c # rest"
  using assms by (simp_all add: show_nat_digits takeWhile_append2 dropWhile_append2)

definition parse_pool_exhausted :: "string \<Rightarrow> nat \<times> nat" where
  "parse_pool_exhausted s =
     (let rest = drop 30 s in
      (read_nat (takeWhile is_digit_char rest),
       read_nat (takeWhile is_digit_char (drop 12 (dropWhile is_digit_char rest)))))"

lemma parse_display_pool_exhausted:
  "parse_pool_exhausted (display_error (PoolExhausted i c)) = (unat i, unat c)"
proof -
  have blank: "\<not> is_digit_char (CHR '' '')" and paren: "\<not> is_digit_char (CHR '')'')"
    by (simp_all add: is_digit_char_def)
  have "drop 30 (display_error (PoolExhausted i c)) =
      show_nat (unat i) @ CHR '' '' # ''/ capacity '' @ show_nat (unat c) @ '')''"
    by simp
  then show ?thesis
    by (simp add: parse_pool_exhausted_def takeWhile_show_nat [OF blank] takeWhile_show_nat [OF paren])
qed

text \<open>
  C37: A log line of a transport error determines the variant that printed it, and the line of a
  pool-exhausted error gives back both numbers it reports.
\<close>

theorem error_line_identifies:
  "classify_line (display_error e) = variant_of e
    \<and> parse_pool_exhausted (display_error (PoolExhausted i c)) = (unat i, unat c)"
  by (intro conjI classify_display parse_display_pool_exhausted)

end
