(* ===== verification/Config.thy ===== *)
theory Config imports Net_Types begin

text \<open>
  The configuration records of \<open>crates/core/src/config.rs\<close> with their defaults, and the
  multicast interface of \<open>crates/core/src/transport.rs\<close>.
\<close>

record bind_config =
  bc_addr :: socket_addr
  reuse_addr :: bool
  reuse_port :: bool

definition bind_config_new :: "socket_addr \<Rightarrow> bind_config" where
  "bind_config_new a = \<lparr>bc_addr = a, reuse_addr = False, reuse_port = False\<rparr>"

definition bind_config_default :: bind_config where
  "bind_config_default =
     \<lparr>bc_addr = socket_addr_new (V4 ipv4_unspecified) 0, reuse_addr = False, reuse_port = False\<rparr>"

datatype timestamp_mode = TsNone | KernelSw | HardwareRx

record recv_buf_config =
  so_rcvbuf :: "u32 option"
  so_rxq_ovfl :: bool
  so_timestamping :: timestamp_mode
  so_busy_poll_us :: "u32 option"
  read_chunk :: "usize option"

definition recv_buf_config_default :: recv_buf_config where
  "recv_buf_config_default =
     \<lparr>so_rcvbuf = None, so_rxq_ovfl = False, so_timestamping = TsNone, so_busy_poll_us = None,
      read_chunk = None\<rparr>"

record send_buf_config =
  so_sndbuf :: "u32 option"

definition send_buf_config_default :: send_buf_config where
  "send_buf_config_default = \<lparr>so_sndbuf = None\<rparr>"

datatype hugepage_size = HpNone | TwoMB | GigaByte

record ring_config =
  slab_count :: usize
  rc_slab_size :: usize
  sqpoll :: bool
  hugepages :: bool
  hugepage_size :: hugepage_size

definition ring_config_default :: ring_config where
  "ring_config_default =
     \<lparr>slab_count = 1024, rc_slab_size = 2048, sqpoll = False, hugepages = False,
      hugepage_size = HpNone\<rparr>"

record batch_config =
  recv_size :: u32
  send_size :: u32

definition batch_config_default :: batch_config where
  "batch_config_default = \<lparr>recv_size = 0, send_size = 0\<rparr>"

record affinity_config =
  io_cpu :: "usize option"
  sqpoll_cpu :: "usize option"

definition affinity_config_default :: affinity_config where
  "affinity_config_default = \<lparr>io_cpu = None, sqpoll_cpu = None\<rparr>"

record multicast_interface =
  mi_v4 :: "ipv4_addr option"
  v6_scope_id :: "u32 option"

text \<open>The receive timestamp a capable backend could attach; no code of the workspace makes one.\<close>

datatype timestamp_source = FromKernelSw | FromHardwareRx

definition timestamp_source_default :: timestamp_source where
  "timestamp_source_default = FromKernelSw"

record timestamp =
  ts_nanos :: u64
  ts_source :: timestamp_source

lemma bind_config_default_new:
  "bind_config_default = bind_config_new (SocketAddrV4 0 0)"
  by (simp add: bind_config_default_def bind_config_new_def ipv4_unspecified_def)

end
