(* ===== verification/Buffer_Pool.thy ===== *)
theory Buffer_Pool imports Prelude "HOL-Library.Multiset" begin

text \<open>
  The \<open>BufferPool\<close> contract of \<open>crates/core/src/pool.rs\<close> as a locale: \<open>acquire\<close>, the slab's
  \<open>Drop\<close> (here \<open>release\<close>), \<open>capacity\<close> and \<open>in_use\<close>. \<open>inv p L\<close> says that \<open>p\<close> is a pool whose
  live slabs occupy the slots \<open>L\<close>. Clients are written over the operations and their lemmas
  are proved once here; the slab pool of the backends and the counting pool of the conformance
  tests interpret the locale.
\<close>

section \<open>Clients of a pool\<close>

text \<open>At most \<open>k\<close> acquisitions of \<open>n\<close> bytes, stopping at the first refusal.\<close>

fun acquire_times :: "('p \<Rightarrow> usize \<Rightarrow> 'sl option \<times> 'p) \<Rightarrow> usize \<Rightarrow> nat \<Rightarrow> 'p \<Rightarrow> 'sl list \<times> 'p" where
  "acquire_times acq n 0 p = ([], p)"
| "acquire_times acq n (Suc k) p =
     (case acq p n of
        (None, p') \<Rightarrow> ([], p')
      | (Some sl, p') \<Rightarrow> (case acquire_times acq n k p' of (sls, p'') \<Rightarrow> (sl # sls, p'')))"

text \<open>Dropping a vector of slabs drops its elements in order.\<close>

definition release_all :: "('sl \<Rightarrow> 'p \<Rightarrow> 'p) \<Rightarrow> 'sl list \<Rightarrow> 'p \<Rightarrow> 'p" where
  "release_all rel sls p = foldl (\<lambda>p sl. rel sl p) p sls"

text \<open>
  A client that acquires slabs, keeps them in a vector and drops them in any order. What it
  observes after each operation: whether a slab was handed out, and \<open>in_use\<close>.
\<close>

datatype pool_op = Acquire usize | DropAt nat

fun pool_trace ::
  "('p \<Rightarrow> usize \<Rightarrow> 'sl option \<times> 'p) \<Rightarrow> ('sl \<Rightarrow> 'p \<Rightarrow> 'p) \<Rightarrow> ('p \<Rightarrow> usize) \<Rightarrow> 'p \<Rightarrow> 'sl list \<Rightarrow> pool_op list
     \<Rightarrow> (bool \<times> nat) list"
where
  "pool_trace acq rel use p held [] = []"
| "pool_trace acq rel use p held (Acquire n # ops) =
     (case acq p n of
        (None, p') \<Rightarrow> (False, unat (use p')) # pool_trace acq rel use p' held ops
      | (Some sl, p') \<Rightarrow> (True, unat (use p')) # pool_trace acq rel use p' (held @ [sl]) ops)"
| "pool_trace acq rel use p held (DropAt i # ops) =
     (if i < length held
      then (let p' = rel (held ! i) p in
            (False, unat (use p')) # pool_trace acq rel use p' (take i held @ drop (Suc i) held) ops)
      else (False, unat (use p)) # pool_trace acq rel use p held ops)"

text \<open>The abstract pool: a counter bounded by the capacity.\<close>

fun count_trace :: "(usize \<Rightarrow> bool) \<Rightarrow> nat \<Rightarrow> nat \<Rightarrow> pool_op list \<Rightarrow> (bool \<times> nat) list" where
  "count_trace ok cap c [] = []"
| "count_trace ok cap c (Acquire n # ops) =
     (if ok n \<and> c < cap then (True, Suc c) # count_trace ok cap (Suc c) ops
      else (False, c) # count_trace ok cap c ops)"
| "count_trace ok cap c (DropAt i # ops) =
     (if i < c then (False, c - 1) # count_trace ok cap (c - 1) ops
      else (False, c) # count_trace ok cap c ops)"

section \<open>The contract\<close>

locale buffer_pool =
  fixes acquire :: "'p \<Rightarrow> usize \<Rightarrow> 'sl option \<times> 'p"
    and release :: "'sl \<Rightarrow> 'p \<Rightarrow> 'p"
    and capacity :: "'p \<Rightarrow> usize"
    and in_use :: "'p \<Rightarrow> usize"
    and fits :: "'p \<Rightarrow> usize \<Rightarrow> bool"
    and slot :: "'sl \<Rightarrow> 'i"
    and inv :: "'p \<Rightarrow> 'i multiset \<Rightarrow> bool"
  assumes in_use_live: "inv p L \<Longrightarrow> unat (in_use p) = size L"
    and live_bound: "inv p L \<Longrightarrow> size L \<le> unat (capacity p)"
    and acquire_free: "inv p L \<Longrightarrow> fits p n \<Longrightarrow> size L < unat (capacity p) \<Longrightarrow>
      \<exists>sl p'. acquire p n = (Some sl, p') \<and> inv p' (add_mset (slot sl) L)
        \<and> capacity p' = capacity p \<and> fits p' = fits p"
    and acquire_none: "inv p L \<Longrightarrow> \<not> fits p n \<or> size L = unat (capacity p) \<Longrightarrow> acquire p n = (None, p)"
    and release_live: "inv p L \<Longrightarrow> slot sl \<in># L \<Longrightarrow>
      inv (release sl p) (L - {#slot sl#}) \<and> capacity (release sl p) = capacity p
        \<and> fits (release sl p) = fits p"
begin

lemma saturated_iff:
  assumes "inv p L" and "fits p n"
  shows "fst (acquire p n) = None \<longleftrightarrow> in_use p = capacity p"
proof -
  have "in_use p = capacity p \<longleftrightarrow> size L = unat (capacity p)"
    using in_use_live [OF assms(1)] by (simp add: word_unat_eq_iff)
  then show ?thesis
    using acquire_free [OF assms] acquire_none [OF assms(1), of n] live_bound [OF assms(1)]
    by (cases "size L < unat (capacity p)") auto
qed

lemma acquire_times_spec:
  assumes "inv p L" and "fits p n" and "acquire_times acquire n k p = (sls, p')"
  shows "length sls = min k (unat (capacity p) - size L)
    \<and> inv p' (L + mset (map slot sls)) \<and> capacity p' = capacity p \<and> fits p' = fits p"
  using assms
proof (induction k arbitrary: p L sls)
  case 0
  then show ?case by simp
next
  case (Suc k)
  show ?case
  proof (cases "size L < unat (capacity p)")
    case True
    from acquire_free [OF Suc.prems(1,2) this] obtain sl q where q:
      "acquire p n = (Some sl, q)" "inv q (add_mset (slot sl) L)" "capacity q = capacity p"
      "fits q = fits p" by blast
    obtain sls' where sls: "acquire_times acquire n k q = (sls', p')" "sls = sl # sls'"
      using Suc.prems(3) q(1) by (auto split: prod.splits)
    from Suc.IH [OF q(2) _ sls(1)] q(4) Suc.prems(2)
    show ?thesis using True by (simp add: sls(2) q(3,4))
  next
    case False
    with live_bound [OF Suc.prems(1)] have full: "size L = unat (capacity p)" by simp
    with acquire_none [OF Suc.prems(1), of n] Suc.prems show ?thesis by auto
  qed
qed

lemma release_all_spec:
  assumes "inv p (L + mset (map slot sls))"
  shows "inv (release_all release sls p) L \<and> capacity (release_all release sls p) = capacity p
    \<and> fits (release_all release sls p) = fits p"
  using assms
proof (induction sls arbitrary: p)
  case Nil
  then show ?case by (simp add: release_all_def)
next
  case (Cons sl sls)
  from release_live [OF Cons.prems, of sl]
  have "inv (release sl p) (L + mset (map slot sls))" "capacity (release sl p) = capacity p"
    "fits (release sl p) = fits p" by auto
  with Cons.IH [of "release sl p"] show ?case by (simp add: release_all_def)
qed

text \<open>Whatever was handed out and dropped again, the full capacity can be acquired.\<close>

lemma reclaim_full_capacity:
  assumes "inv p (mset (map slot sls))" and "fits p n" and "unat (capacity p) \<le> k"
    and "acquire_times acquire n k (release_all release sls p) = (sls', p')"
  shows "length sls' = unat (capacity p) \<and> in_use p' = capacity p"
proof -
  let ?q = "release_all release sls p"
  from release_all_spec [of p "{#}" sls] assms(1)
  have q: "inv ?q {#}" "capacity ?q = capacity p" "fits ?q = fits p" by simp_all
  from acquire_times_spec [OF q(1) _ assms(4)] q(2,3) assms(2,3)
  have l: "length sls' = unat (capacity p)" "inv p' (mset (map slot sls'))" "capacity p' = capacity p"
    by simp_all
  from in_use_live [OF l(2)] l(1) have "unat (in_use p') = unat (capacity p)" by simp
  with l(1) show ?thesis by (simp add: word_unat_eq_iff)
qed

lemma trace_refines_count:
  assumes "inv p (mset (map slot held))"
  shows "pool_trace acquire release in_use p held ops =
    count_trace (fits p) (unat (capacity p)) (length held) ops"
  using assms
proof (induction ops arbitrary: p held)
  case Nil
  then show ?case by simp
next
  case (Cons a ops)
  show ?case
  proof (cases a)
    case (Acquire n)
    show ?thesis
    proof (cases "fits p n \<and> length held < unat (capacity p)")
      case True
      then obtain sl p' where p':
        "acquire p n = (Some sl, p')" "inv p' (add_mset (slot sl) (mset (map slot held)))"
        "capacity p' = capacity p" "fits p' = fits p"
        using acquire_free [OF Cons.prems, of n] by auto
      have inv': "inv p' (mset (map slot (held @ [sl])))" using p'(2) by simp
      from in_use_live [OF inv'] Cons.IH [OF inv'] show ?thesis
        using True p' Acquire by simp
    next
      case False
      with live_bound [OF Cons.prems] acquire_none [OF Cons.prems, of n]
      have "acquire p n = (None, p)" by auto
      with in_use_live [OF Cons.prems] Cons.IH [OF Cons.prems] False Acquire show ?thesis by auto
    qed
  next
    case (DropAt i)
    show ?thesis
    proof (cases "i < length held")
      case True
      let ?rest = "take i held @ drop (Suc i) held"
      have split: "mset (map slot held) = add_mset (slot (held ! i)) (mset (map slot ?rest))"
        using id_take_nth_drop [OF True] by (metis (no_types, lifting) list.simps(9) map_append
            mset.simps(2) mset_append union_mset_add_mset_right)
      from True have "slot (held ! i) \<in># mset (map slot held)" by simp
      from release_live [OF Cons.prems this] split
      have rel: "inv (release (held ! i) p) (mset (map slot ?rest))"
        "capacity (release (held ! i) p) = capacity p" "fits (release (held ! i) p) = fits p"
        by simp_all
      have "length ?rest = length held - 1" using True by simp
      with in_use_live [OF rel(1)] Cons.IH [OF rel(1)] rel(2,3) True DropAt
      show ?thesis by (simp add: Let_def)
    next
      case False
      with in_use_live [OF Cons.prems] Cons.IH [OF Cons.prems] DropAt show ?thesis by simp
    qed
  qed
qed

end

end
