(* ===== verification/Vec_Pool.thy ===== *)
theory Vec_Pool imports Buffer_Pool begin

text \<open>
  The slab pool of both backends (\<open>crates/mio/src/pool.rs\<close>; \<open>crates/tokio/src/pool.rs\<close> is the
  same file). A pool is a fixed array of slots and a free list of slot indices used as a
  stack; a slab is an index and the length a receive recorded. The \<open>Arc\<close> a slab carries is
  the one shared pool, passed explicitly; \<open>Drop\<close> is \<open>drop_slab\<close>.

  The invariant says that the free list together with the indices of the live slabs is exactly
  the index range, each index once. It is what the source's \<open>unsafe impl Sync\<close> rests on.
\<close>

section \<open>State and operations\<close>

record vec_pool =
  slabs :: "bytes list"
  free_list :: "u32 list"
  slab_size :: usize

record vec_slab =
  slab_index :: u32
  slab_len :: usize

text \<open>\<open>VecPool::build\<close>; a failed assertion panics (\<open>None\<close>).\<close>

definition build_pool :: "usize \<Rightarrow> usize \<Rightarrow> vec_pool option" where
  "build_pool capacity width =
     (if \<not> 0 < capacity then None
      else if \<not> 0 < width then None
      else if \<not> capacity \<le> 0xFFFFFFFF then None
      else Some \<lparr>slabs = map (\<lambda>_. replicate (unat width) 0) [0..<unat capacity],
                 free_list = rev (map word_of_nat [0..<unat (ucast capacity :: u32)]),
                 slab_size = width\<rparr>)"

definition acquire_slab :: "vec_pool \<Rightarrow> usize \<Rightarrow> vec_slab option \<times> vec_pool" where
  "acquire_slab p n =
     (if n > slab_size p then (None, p)
      else case vec_pop (free_list p) of
             None \<Rightarrow> (None, p)
           | Some (i, fr) \<Rightarrow> (Some \<lparr>slab_index = i, slab_len = 0\<rparr>, p\<lparr>free_list := fr\<rparr>))"

definition drop_slab :: "vec_slab \<Rightarrow> vec_pool \<Rightarrow> vec_pool" where
  "drop_slab sl p = p\<lparr>free_list := vec_push (free_list p) (slab_index sl)\<rparr>"

definition pool_capacity :: "vec_pool \<Rightarrow> usize" where
  "pool_capacity p = word_of_nat (length (slabs p))"

definition pool_in_use :: "vec_pool \<Rightarrow> usize" where
  "pool_in_use p = word_of_nat (length (slabs p)) - word_of_nat (length (free_list p))"

text \<open>
  \<open>buf_mut\<close> exposes the whole slot; indexing past the array panics. \<open>write_buf\<close> is a write
  through the exposed slice: it replaces a prefix and keeps the slice's length.
\<close>

definition buf_mut :: "vec_pool \<Rightarrow> vec_slab \<Rightarrow> bytes option" where
  "buf_mut p sl =
     (if unat (slab_index sl) < length (slabs p) then Some (slabs p ! unat (slab_index sl)) else None)"

definition overwrite :: "bytes \<Rightarrow> bytes \<Rightarrow> bytes" where
  "overwrite buf d = take (length buf) d @ drop (length d) buf"

definition write_buf :: "vec_pool \<Rightarrow> vec_slab \<Rightarrow> bytes \<Rightarrow> vec_pool option" where
  "write_buf p sl d =
     (case buf_mut p sl of
        None \<Rightarrow> None
      | Some buf \<Rightarrow> Some (p\<lparr>slabs := (slabs p)[unat (slab_index sl) := overwrite buf d]\<rparr>))"

definition set_len :: "vec_slab \<Rightarrow> usize \<Rightarrow> vec_slab" where
  "set_len sl n = sl\<lparr>slab_len := n\<rparr>"

definition slab_is_empty :: "vec_slab \<Rightarrow> bool" where
  "slab_is_empty sl \<longleftrightarrow> slab_len sl = 0"

definition slab_as_ref :: "vec_pool \<Rightarrow> vec_slab \<Rightarrow> bytes option" where
  "slab_as_ref p sl =
     (if unat (slab_index sl) < length (slabs p)
      then let vec = slabs p ! unat (slab_index sl);
               e = min (slab_len sl) (word_of_nat (length vec))
           in Some (take (unat e) vec)
      else None)"

section \<open>Invariant\<close>

definition pool_ok :: "vec_pool \<Rightarrow> u32 multiset \<Rightarrow> bool" where
  "pool_ok p L \<longleftrightarrow>
     0 < length (slabs p) \<and> length (slabs p) < 2 ^ 32 \<and> 0 < slab_size p
     \<and> (\<forall>v \<in> set (slabs p). length v = unat (slab_size p))
     \<and> mset (free_list p) + L = mset (map word_of_nat [0..<length (slabs p)])"

lemma index_range_distinct: "n \<le> 2 ^ 32 \<Longrightarrow> distinct (map (word_of_nat :: nat \<Rightarrow> u32) [0..<n])"
  by (auto simp: distinct_map inj_on_def word_of_nat_eq_iff take_bit_nat_eq_self)

lemma pool_ok_size: "pool_ok p L \<Longrightarrow> length (free_list p) + size L = length (slabs p)"
  unfolding pool_ok_def by (metis length_map length_upt minus_nat.diff_0 size_mset size_union)

lemma pool_ok_index: "pool_ok p L \<Longrightarrow> i \<in> set (free_list p) \<or> i \<in># L \<Longrightarrow> unat i < length (slabs p)"
proof -
  assume ok: "pool_ok p L" and i: "i \<in> set (free_list p) \<or> i \<in># L"
  from i have "i \<in># mset (free_list p) + L" by auto
  with ok have "i \<in> word_of_nat ` {0..<length (slabs p)}" by (auto simp: pool_ok_def)
  with ok show ?thesis by (auto simp: pool_ok_def unat_of_nat)
qed

lemma pool_ok_once: "pool_ok p L \<Longrightarrow> count (mset (free_list p)) i + count L i \<le> 1"
proof -
  assume ok: "pool_ok p L"
  then have "distinct (map (word_of_nat :: nat \<Rightarrow> u32) [0..<length (slabs p)])"
    by (intro index_range_distinct) (simp add: pool_ok_def)
  then have "count (mset (map (word_of_nat :: nat \<Rightarrow> u32) [0..<length (slabs p)])) i \<le> 1"
    by (simp add: distinct_count_atmost_1)
  with ok show ?thesis by (metis count_union pool_ok_def)
qed

lemma pool_ok_distinct: "pool_ok p (mset xs) \<Longrightarrow> distinct xs"
proof -
  assume ok: "pool_ok p (mset xs)"
  have "count (mset xs) i = (if i \<in> set xs then 1 else 0)" for i
  proof -
    have "count (mset xs) i \<le> 1" using pool_ok_once [OF ok, of i] by linarith
    moreover have "i \<in> set xs \<Longrightarrow> 0 < count (mset xs) i" by simp
    moreover have "i \<notin> set xs \<Longrightarrow> count (mset xs) i = 0" by (simp add: not_in_iff [symmetric])
    ultimately show ?thesis by (cases "i \<in> set xs") (simp_all add: le_Suc_eq)
  qed
  then show ?thesis by (simp add: distinct_count_atmost_1)
qed

lemma pool_ok_disjoint: "pool_ok p L \<Longrightarrow> i \<in># L \<Longrightarrow> i \<notin> set (free_list p)"
proof
  assume ok: "pool_ok p L" and i: "i \<in># L" "i \<in> set (free_list p)"
  then have "0 < count L i" "0 < count (mset (free_list p)) i" by simp_all
  with pool_ok_once [OF ok, of i] show False by simp
qed

lemma pool_ok_capacity: "pool_ok p L \<Longrightarrow> unat (pool_capacity p) = length (slabs p)"
  by (simp add: pool_ok_def pool_capacity_def unat_of_nat)

lemma pool_ok_in_use: "pool_ok p L \<Longrightarrow> unat (pool_in_use p) = size L"
proof -
  assume ok: "pool_ok p L"
  let ?f = "length (free_list p)" and ?n = "length (slabs p)"
  from pool_ok_size [OF ok] have "?f + size L = ?n" .
  then have "pool_in_use p = word_of_nat (size L)"
    by (metis add_diff_cancel_left' of_nat_add pool_in_use_def)
  moreover from ok \<open>?f + size L = ?n\<close> have "size L < 2 ^ 64" by (simp add: pool_ok_def)
  ultimately show ?thesis by (simp add: unat_of_nat)
qed

lemma pool_full_iff: "pool_ok p L \<Longrightarrow> free_list p = [] \<longleftrightarrow> pool_in_use p = pool_capacity p"
proof -
  assume ok: "pool_ok p L"
  have "free_list p = [] \<longleftrightarrow> length (free_list p) = 0" by simp
  also have "\<dots> \<longleftrightarrow> unat (pool_in_use p) = unat (pool_capacity p)"
    using pool_ok_size [OF ok] by (simp only: pool_ok_in_use [OF ok] pool_ok_capacity [OF ok]) linarith
  finally show ?thesis by (simp add: word_unat_eq_iff)
qed

section \<open>The operations keep the invariant\<close>

lemma build_pool_ok:
  assumes "build_pool capacity width = Some p"
  shows "pool_ok p {#} \<and> pool_capacity p = capacity \<and> slab_size p = width \<and> pool_in_use p = 0
    \<and> length (free_list p) = unat capacity"
proof -
  from assms have p: "0 < capacity" "0 < width" "capacity \<le> 0xFFFFFFFF"
    "p = \<lparr>slabs = map (\<lambda>_. replicate (unat width) 0) [0..<unat capacity],
          free_list = rev (map word_of_nat [0..<unat (ucast capacity :: u32)]), slab_size = width\<rparr>"
    by (auto simp: build_pool_def split: if_splits)
  have le: "unat capacity \<le> 0xFFFFFFFF" using p(3) by (simp add: word_le_nat_alt)
  then have cast: "unat (ucast capacity :: u32) = unat capacity"
    by (simp add: unsigned_ucast_eq take_bit_nat_eq_self)
  have pos: "0 < unat capacity" using p(1) by (simp add: word_less_nat_alt)
  have ok: "pool_ok p {#}"
    using le pos p(2) by (auto simp: pool_ok_def p(4) cast)
  with pool_ok_in_use [OF ok] show ?thesis
    by (auto simp: p(4) pool_capacity_def cast unat_eq_0)
qed

lemma acquire_slab_Some:
  assumes "acquire_slab p n = (Some sl, p')"
  shows "n \<le> slab_size p" and "free_list p = free_list p' @ [slab_index sl]"
    and "p' = p\<lparr>free_list := free_list p'\<rparr>" and "slab_len sl = 0"
  using assms by (auto simp: acquire_slab_def vec_pop_Some split: if_splits option.splits)

lemma acquire_slab_frame:
  "acquire_slab p n = (Some sl, p') \<Longrightarrow> slabs p' = slabs p \<and> slab_size p' = slab_size p"
  by (auto simp: acquire_slab_def split: if_splits option.splits)

lemma acquire_slab_None:
  "acquire_slab p n = (None, p') \<longleftrightarrow> p' = p \<and> (slab_size p < n \<or> free_list p = [])"
  by (auto simp: acquire_slab_def vec_pop_def)

lemma acquire_slab_snoc:
  "free_list p = fr @ [i] \<Longrightarrow> n \<le> slab_size p \<Longrightarrow>
     acquire_slab p n = (Some \<lparr>slab_index = i, slab_len = 0\<rparr>, p\<lparr>free_list := fr\<rparr>)"
  by (simp add: acquire_slab_def vec_pop_def not_less)

lemma acquire_slab_ok:
  assumes "pool_ok p L" and "acquire_slab p n = (Some sl, p')"
  shows "pool_ok p' (add_mset (slab_index sl) L)"
proof -
  from acquire_slab_Some [OF assms(2)] have "free_list p = free_list p' @ [slab_index sl]"
    "slabs p' = slabs p" "slab_size p' = slab_size p" by (auto dest: arg_cong [of _ _ slabs] arg_cong [of _ _ slab_size])
  with assms(1) show ?thesis by (auto simp: pool_ok_def)
qed

lemma drop_slab_ok:
  "pool_ok p L \<Longrightarrow> slab_index sl \<in># L \<Longrightarrow> pool_ok (drop_slab sl p) (L - {#slab_index sl#})"
proof -
  assume ok: "pool_ok p L" and live: "slab_index sl \<in># L"
  have "mset (free_list p @ [slab_index sl]) + (L - {#slab_index sl#}) = mset (free_list p) + L"
    using live by simp
  with ok show ?thesis unfolding pool_ok_def drop_slab_def vec_push_def
    by (cases p) (simp only: vec_pool.simps, blast)
qed

text \<open>Dropping a slab that was just acquired gives back the pool it came from.\<close>

lemma drop_acquired:
  "acquire_slab p n = (Some sl, p') \<Longrightarrow> slab_index sl' = slab_index sl \<Longrightarrow> drop_slab sl' p' = p"
  by (auto simp: acquire_slab_def drop_slab_def vec_push_def vec_pop_Some
      split: if_splits option.splits)

lemma length_overwrite [simp]: "length (overwrite buf d) = length buf"
  by (simp add: overwrite_def)

lemma take_overwrite: "length d \<le> length buf \<Longrightarrow> take (length d) (overwrite buf d) = d"
  by (simp add: overwrite_def)

lemma buf_mut_live: "pool_ok p L \<Longrightarrow> slab_index sl \<in># L \<Longrightarrow> buf_mut p sl = Some (slabs p ! unat (slab_index sl))"
  by (simp add: buf_mut_def pool_ok_index)

lemma buf_mut_length: "pool_ok p L \<Longrightarrow> buf_mut p sl = Some buf \<Longrightarrow> length buf = unat (slab_size p)"
  by (auto simp: pool_ok_def buf_mut_def split: if_splits)

lemma write_buf_ok:
  assumes "pool_ok p L" and "write_buf p sl d = Some p'"
  shows "pool_ok p' L"
proof -
  from assms(2) obtain buf where b: "buf_mut p sl = Some buf"
    "p' = p\<lparr>slabs := (slabs p)[unat (slab_index sl) := overwrite buf d]\<rparr>"
    by (auto simp: write_buf_def split: option.splits)
  with assms(1) buf_mut_length [OF assms(1) b(1)] show ?thesis
    by (auto simp: pool_ok_def dest!: set_update_subset_insert [THEN subsetD])
qed

lemma write_buf_frame:
  assumes "write_buf p sl d = Some p'"
  shows "free_list p' = free_list p" and "slab_size p' = slab_size p"
    and "length (slabs p') = length (slabs p)"
    and "i \<noteq> unat (slab_index sl) \<Longrightarrow> slabs p' ! i = slabs p ! i"
  using assms by (auto simp: write_buf_def split: option.splits)

text \<open>Reading depends on the slot's bytes only.\<close>

lemma slab_as_ref_cong:
  "length (slabs p') = length (slabs p) \<Longrightarrow> slabs p' ! unat (slab_index sl) = slabs p ! unat (slab_index sl)
     \<Longrightarrow> slab_as_ref p' sl = slab_as_ref p sl"
  by (simp add: slab_as_ref_def)

lemma slab_as_ref_free_list [simp]: "slab_as_ref (p\<lparr>free_list := fr\<rparr>) sl = slab_as_ref p sl"
  by (simp add: slab_as_ref_def)

lemma write_buf_others:
  assumes "pool_ok p (add_mset (slab_index slab) L)" and "write_buf p slab d = Some p'" and "slab_index sl \<in># L"
  shows "slab_as_ref p' sl = slab_as_ref p sl"
proof -
  from assms(3) pool_ok_once [OF assms(1), of "slab_index sl"] have "slab_index sl \<noteq> slab_index slab"
    by (auto simp flip: count_greater_zero_iff)
  then show ?thesis
    using write_buf_frame(3,4) [OF assms(2)] by (intro slab_as_ref_cong) (simp_all add: word_unat_eq_iff)
qed

lemma write_then_read:
  assumes "pool_ok p L" and "write_buf p sl d = Some p'" and "length d \<le> unat (slab_size p)"
  shows "slab_as_ref p' (set_len sl (word_of_nat (length d))) = Some d"
proof -
  from assms(2) obtain buf where b: "buf_mut p sl = Some buf"
    "p' = p\<lparr>slabs := (slabs p)[unat (slab_index sl) := overwrite buf d]\<rparr>"
    by (auto simp: write_buf_def split: option.splits)
  from buf_mut_length [OF assms(1) b(1)] have len: "length buf = unat (slab_size p)" .
  have lt: "unat (slab_index sl) < length (slabs p)" using b(1) by (auto simp: buf_mut_def split: if_splits)
  have "unat (min (word_of_nat (length d)) (word_of_nat (length buf) :: usize)) = length d"
  proof -
    have "unat (slab_size p) < 2 ^ 64" by (rule unat_usize_less)
    with assms(3) have "length d mod 2 ^ 64 = length d" by simp
    with assms(3) len show ?thesis by (simp add: min_def word_le_nat_alt unat_of_nat)
  qed
  with lt take_overwrite [of d buf] assms(3) len show ?thesis
    by (simp add: b(2) slab_as_ref_def set_len_def Let_def)
qed

section \<open>The contract holds\<close>

interpretation vp: buffer_pool acquire_slab drop_slab pool_capacity pool_in_use
  "\<lambda>p n. n \<le> slab_size p" slab_index pool_ok
proof unfold_locales
  fix p L assume "pool_ok p L"
  then show "unat (pool_in_use p) = size L" by (rule pool_ok_in_use)
next
  fix p L assume "pool_ok p L"
  then show "size L \<le> unat (pool_capacity p)"
    using pool_ok_size [of p L] by (simp add: pool_ok_capacity)
next
  fix p L n assume ok: "pool_ok p L" and n: "n \<le> slab_size p" "size L < unat (pool_capacity p)"
  then have "free_list p \<noteq> []" using pool_ok_size [OF ok] pool_ok_capacity [OF ok] by auto
  then obtain fr i where fr: "free_list p = fr @ [i]" by (meson rev_exhaust)
  from acquire_slab_ok [OF ok acquire_slab_snoc [OF fr n(1)]] acquire_slab_snoc [OF fr n(1)]
  show "\<exists>sl p'. acquire_slab p n = (Some sl, p') \<and> pool_ok p' (add_mset (slab_index sl) L)
    \<and> pool_capacity p' = pool_capacity p \<and> (\<lambda>n. n \<le> slab_size p') = (\<lambda>n. n \<le> slab_size p)"
    by (auto simp: pool_capacity_def)
next
  fix p L n assume ok: "pool_ok p L" and n: "\<not> n \<le> slab_size p \<or> size L = unat (pool_capacity p)"
  then show "acquire_slab p n = (None, p)"
    using pool_ok_size [OF ok] pool_ok_capacity [OF ok] by (auto simp: acquire_slab_None not_le)
next
  fix p L and sl :: vec_slab assume "pool_ok p L" "slab_index sl \<in># L"
  then show "pool_ok (drop_slab sl p) (L - {#slab_index sl#}) \<and>
    pool_capacity (drop_slab sl p) = pool_capacity p \<and>
    (\<lambda>n. n \<le> slab_size (drop_slab sl p)) = (\<lambda>n. n \<le> slab_size p)"
    by (auto simp: drop_slab_ok) (simp_all add: drop_slab_def pool_capacity_def)
qed

section \<open>Properties\<close>

definition sample_pool :: vec_pool where
  "sample_pool = \<lparr>slabs = [[0, 0, 0, 0], [0, 0, 0, 0]], free_list = [1, 0], slab_size = 4\<rparr>"

lemma replicate_four: "replicate 4 x = [x, x, x, x]"
  by (simp add: numeral_eq_Suc)

lemma build_sample: "build_pool 2 4 = Some sample_pool"
  by (simp add: build_pool_def sample_pool_def upt_rec replicate_four)

text \<open>
  C32: \<open>VecPool::build\<close> panics exactly on a zero capacity, a zero slab size or a capacity that a
  \<open>u32\<close> slot index cannot count; otherwise every slot is a zeroed slab of the full width, the
  free list counts the slots down so that slot 0 is handed out first, and nothing is in use.
\<close>

theorem build_pool_spec:
  "case build_pool capacity width of
     None \<Rightarrow> capacity = 0 \<or> width = 0 \<or> 2 ^ 32 \<le> unat capacity
   | Some p \<Rightarrow> 0 < unat capacity \<and> 0 < unat width \<and> unat capacity < 2 ^ 32
       \<and> slabs p = replicate (unat capacity) (replicate (unat width) 0)
       \<and> rev (map unat (free_list p)) = [0..<unat capacity]
       \<and> pool_capacity p = capacity \<and> pool_in_use p = 0"
proof (cases "build_pool capacity width")
  case None
  then have "capacity = 0 \<or> width = 0 \<or> \<not> capacity \<le> 0xFFFFFFFF"
    by (auto simp: build_pool_def word_gt_0 split: if_splits)
  with None show ?thesis by (auto simp: word_le_nat_alt)
next
  case (Some p)
  from build_pool_ok [OF Some] have facts: "pool_capacity p = capacity" "pool_in_use p = 0" by simp_all
  from Some have p: "0 < capacity" "0 < width" "capacity \<le> 0xFFFFFFFF"
    "p = \<lparr>slabs = map (\<lambda>_. replicate (unat width) 0) [0..<unat capacity],
          free_list = rev (map word_of_nat [0..<unat (ucast capacity :: u32)]), slab_size = width\<rparr>"
    by (auto simp: build_pool_def split: if_splits)
  have le: "unat capacity \<le> 0xFFFFFFFF" using p(3) by (simp add: word_le_nat_alt)
  then have cast: "unat (ucast capacity :: u32) = unat capacity"
    by (simp add: unsigned_ucast_eq take_bit_nat_eq_self)
  have "map (unat \<circ> (word_of_nat :: nat \<Rightarrow> u32)) [0..<unat capacity] = [0..<unat capacity]"
    using le by (intro map_idI) (simp add: unat_of_nat)
  with Some facts le p(1,2) show ?thesis
    by (simp add: p(4) cast map_replicate_const word_less_nat_alt flip: rev_map)
qed

text \<open>
  C10: For a client that acquires slabs of any lengths, keeps them and drops them in any order,
  the pool is a counter bounded by its capacity: it hands out a slab exactly when the length
  fits and fewer than \<open>capacity\<close> slabs are held, and \<open>in_use\<close> is always the number held.
\<close>

theorem pool_refines_counter:
  "build_pool capacity width = Some p \<Longrightarrow>
     pool_trace acquire_slab drop_slab pool_in_use p [] ops =
       count_trace (\<lambda>n. n \<le> width) (unat capacity) 0 ops"
  using vp.trace_refines_count [of p "[]" ops] build_pool_ok [of capacity width p] by simp

theorem pool_refines_counter_witness:
  "pool_trace acquire_slab drop_slab pool_in_use sample_pool []
     [Acquire 4, Acquire 5, Acquire 1, Acquire 1, DropAt 0, Acquire 2] =
   [(True, 1), (False, 1), (True, 2), (False, 2), (False, 1), (True, 2)]"
  by (subst pool_refines_counter [OF build_sample]) simp

text \<open>
  Acquiring until refusal, dropping everything and acquiring again yields the full capacity
  again, whatever lengths were asked for: no slot is lost and none is handed out twice.
\<close>

theorem pool_reclaims_fully:
  assumes "build_pool capacity width = Some p" and "m \<le> width" and "n \<le> width"
    and "acquire_times acquire_slab m j p = (held, q)"
    and "unat capacity \<le> k"
    and "acquire_times acquire_slab n k (release_all drop_slab held q) = (held', q')"
  shows "length held = min j (unat capacity) \<and> length held' = unat capacity
    \<and> distinct (map slab_index held') \<and> pool_in_use q' = capacity"
proof -
  from build_pool_ok [OF assms(1)] have p: "pool_ok p {#}" "pool_capacity p = capacity" "slab_size p = width"
    by simp_all
  from vp.acquire_times_spec [OF p(1) _ assms(4)] p(2,3) assms(2)
  have q: "length held = min j (unat capacity)" "pool_ok q (mset (map slab_index held))"
    "pool_capacity q = capacity" "(\<lambda>n. n \<le> slab_size q) = (\<lambda>n. n \<le> width)" by simp_all
  from q(4) have nq: "n \<le> slab_size q" by (rule fun_cong [THEN iffD2]) (rule assms(3))
  from vp.reclaim_full_capacity [OF q(2) nq _ assms(6)] q(3) assms(5)
  have r: "length held' = unat capacity" "pool_in_use q' = capacity" by simp_all
  from vp.release_all_spec [of q "{#}" held] q(2,3,4)
  have d: "pool_ok (release_all drop_slab held q) {#}" "n \<le> slab_size (release_all drop_slab held q)"
    using nq by (auto simp: fun_eq_iff)
  from vp.acquire_times_spec [OF d assms(6)] have "pool_ok q' (mset (map slab_index held'))" by simp
  then have "distinct (map slab_index held')" by (rule pool_ok_distinct)
  with q(1) r show ?thesis by simp
qed

theorem pool_reclaims_fully_witness:
  "\<exists>held q held' q'. acquire_times acquire_slab 4 1 sample_pool = (held, q)
     \<and> acquire_times acquire_slab 2 5 (release_all drop_slab held q) = (held', q')
     \<and> length held' = 2 \<and> pool_in_use q' = 2"
proof -
  obtain held q where h: "acquire_times acquire_slab 4 1 sample_pool = (held, q)" by force
  obtain held' q' where h': "acquire_times acquire_slab 2 5 (release_all drop_slab held q) = (held', q')"
    by force
  from pool_reclaims_fully [OF build_sample _ _ h _ h'] h h' show ?thesis
    by (intro exI [of _ held] exI [of _ q] exI [of _ held'] exI [of _ q']) simp
qed

text \<open>
  What a receive writes into an acquired slab is what the slab reads after \<open>set_len\<close>, even
  though the slot still holds the bytes of its last use; a fresh slab reads as empty. A write
  leaves the other slots, the free list and the slab width as they were.
\<close>

theorem slab_write_read:
  assumes "pool_ok p L" and "acquire_slab p n = (Some sl, q)" and "length d \<le> unat (slab_size p)"
  shows "slab_as_ref q sl = Some [] \<and> slab_is_empty sl
    \<and> (\<exists>r. write_buf q sl d = Some r \<and> slab_as_ref r (set_len sl (word_of_nat (length d))) = Some d
        \<and> free_list r = free_list q \<and> slab_size r = slab_size q
        \<and> (\<forall>sl'. slab_index sl' \<noteq> slab_index sl \<longrightarrow> slab_as_ref r sl' = slab_as_ref q sl'))"
proof -
  from acquire_slab_ok [OF assms(1,2)] have q: "pool_ok q (add_mset (slab_index sl) L)" .
  from acquire_slab_frame [OF assms(2)] acquire_slab_Some(4) [OF assms(2)]
  have fr: "slab_size q = slab_size p" "slab_len sl = 0" by simp_all
  have ix: "unat (slab_index sl) < length (slabs q)" using pool_ok_index [OF q] by simp
  obtain r where r: "write_buf q sl d = Some r"
    using buf_mut_live [OF q, of sl] by (simp add: write_buf_def)
  have other: "slab_as_ref r sl' = slab_as_ref q sl'" if "slab_index sl' \<noteq> slab_index sl" for sl'
    using that write_buf_frame(3,4) [OF r] by (intro slab_as_ref_cong) (simp_all add: word_unat_eq_iff)
  from write_then_read [OF q r] write_buf_frame(1,2) [OF r] other r fr ix assms(3)
  show ?thesis by (auto simp: slab_as_ref_def slab_is_empty_def Let_def)
qed

theorem slab_write_read_witness:
  "\<exists>sl q. acquire_slab sample_pool 4 = (Some sl, q) \<and> slab_as_ref q sl = Some []
     \<and> (\<exists>r. write_buf q sl [7, 8] = Some r \<and> slab_as_ref r (set_len sl 2) = Some [7, 8])"
proof -
  have a: "acquire_slab sample_pool 4 = (Some \<lparr>slab_index = 0, slab_len = 0\<rparr>, sample_pool\<lparr>free_list := [1]\<rparr>)"
    by (simp add: acquire_slab_def sample_pool_def vec_pop_def)
  from build_pool_ok [OF build_sample] have "pool_ok sample_pool {#}" by simp
  from slab_write_read [OF this a, of "[7, 8]"] a show ?thesis
    by (auto simp: sample_pool_def)
qed

end
