(* ===== verification/Shared_Pool.thy ===== *)
theory Shared_Pool imports Vec_Pool begin

text \<open>
  The slab pool shared by threads (\<open>SharedVecPool\<close>, \<open>VecSlab\<close> and its \<open>Drop\<close> in
  \<open>crates/mio/src/pool.rs\<close>). The free list is behind a mutex, so a pop and a push are atomic
  steps; a slab is owned by one thread, which writes its slot, records a length, hands it to
  another thread or drops it. The steps of all threads interleave in any order.

  The invariant of every reachable state is \<open>pool_ok\<close> for the slots of the live slabs. From it
  follow the claims of the source's SAFETY comments: no two slabs share a slot, nobody else's
  step changes what a slab reads, no slot access is out of range, no slot is lost.
\<close>

record shared =
  the_pool :: vec_pool
  live :: "(nat \<times> vec_slab) list"

datatype pool_event =
    EvAcquire nat usize
  | EvRefused nat usize
  | EvWrite nat bytes
  | EvSetLen nat usize
  | EvMove nat nat
  | EvDrop nat

definition live_slots :: "shared \<Rightarrow> u32 multiset" where
  "live_slots s = mset (map (\<lambda>h. slab_index (snd h)) (live s))"

text \<open>The rules name the live slab a step acts on by its position.\<close>

inductive shared_step :: "shared \<Rightarrow> pool_event \<Rightarrow> shared \<Rightarrow> bool" where
  step_acquire: "acquire_slab (the_pool s) n = (Some sl, p') \<Longrightarrow>
     shared_step s (EvAcquire t n) (s\<lparr>the_pool := p', live := live s @ [(t, sl)]\<rparr>)"
| step_refused: "acquire_slab (the_pool s) n = (None, p') \<Longrightarrow>
     shared_step s (EvRefused t n) (s\<lparr>the_pool := p'\<rparr>)"
| step_write: "i < length (live s) \<Longrightarrow> write_buf (the_pool s) (snd (live s ! i)) d = Some p' \<Longrightarrow>
     shared_step s (EvWrite i d) (s\<lparr>the_pool := p'\<rparr>)"
| step_set_len: "i < length (live s) \<Longrightarrow>
     shared_step s (EvSetLen i n)
       (s\<lparr>live := (live s)[i := (fst (live s ! i), set_len (snd (live s ! i)) n)]\<rparr>)"
| step_move: "i < length (live s) \<Longrightarrow>
     shared_step s (EvMove i t) (s\<lparr>live := (live s)[i := (t, snd (live s ! i))]\<rparr>)"
| step_drop: "i < length (live s) \<Longrightarrow>
     shared_step s (EvDrop i)
       (s\<lparr>the_pool := drop_slab (snd (live s ! i)) (the_pool s),
          live := take i (live s) @ drop (Suc i) (live s)\<rparr>)"

inductive_cases acquire_stepE: "shared_step s (EvAcquire t n) s'"
inductive_cases refused_stepE: "shared_step s (EvRefused t n) s'"
inductive_cases write_stepE: "shared_step s (EvWrite i d) s'"
inductive_cases set_len_stepE: "shared_step s (EvSetLen i n) s'"
inductive_cases move_stepE: "shared_step s (EvMove i t) s'"
inductive_cases drop_stepE: "shared_step s (EvDrop i) s'"

lemmas step_elims = acquire_stepE refused_stepE write_stepE set_len_stepE move_stepE drop_stepE

inductive shared_reach :: "usize \<Rightarrow> usize \<Rightarrow> shared \<Rightarrow> bool" for capacity width where
  reach_start: "build_pool capacity width = Some p \<Longrightarrow>
     shared_reach capacity width \<lparr>the_pool = p, live = []\<rparr>"
| reach_step: "shared_reach capacity width s \<Longrightarrow> shared_step s e s' \<Longrightarrow> shared_reach capacity width s'"

section \<open>The invariant\<close>

lemma live_slots_update:
  "i < length (live s) \<Longrightarrow> slab_index (snd h) = slab_index (snd (live s ! i)) \<Longrightarrow>
     live_slots (s\<lparr>live := (live s)[i := h]\<rparr>) = live_slots s"
proof -
  assume i: "i < length (live s)" and same: "slab_index (snd h) = slab_index (snd (live s ! i))"
  let ?f = "\<lambda>h. slab_index (snd h)"
  have "map ?f ((live s)[i := h]) = (map ?f (live s))[i := map ?f (live s) ! i]"
    using i same by (simp only: map_update nth_map)
  then show ?thesis by (simp add: live_slots_def del: list_update_same_conv)
qed

lemma live_slots_remove:
  assumes "i < length (live s)"
  shows "live_slots s = add_mset (slab_index (snd (live s ! i)))
    (mset (map (\<lambda>h. slab_index (snd h)) (take i (live s) @ drop (Suc i) (live s))))"
proof -
  have "live s = take i (live s) @ live s ! i # drop (Suc i) (live s)"
    using assms by (rule id_take_nth_drop)
  then show ?thesis unfolding live_slots_def
    by (metis (no_types, lifting) list.simps(9) map_append mset.simps(2) mset_append union_mset_add_mset_right)
qed

lemma shared_step_ok:
  "shared_step s e s' \<Longrightarrow> pool_ok (the_pool s) (live_slots s) \<Longrightarrow> pool_ok (the_pool s') (live_slots s')"
proof (induction rule: shared_step.induct)
  case (step_acquire s n sl p' t)
  from acquire_slab_ok [OF step_acquire(2,1)] show ?case by (simp add: live_slots_def)
next
  case (step_refused s n p' t)
  then show ?case by (simp add: live_slots_def acquire_slab_None)
next
  case (step_write i s d p')
  from write_buf_ok [OF step_write(3,2)] show ?case by (simp add: live_slots_def)
next
  case (step_set_len i s n)
  then show ?case by (simp add: live_slots_update set_len_def)
next
  case (step_move i s t)
  then show ?case by (simp add: live_slots_update)
next
  case (step_drop i s)
  from step_drop(1) have "slab_index (snd (live s ! i)) \<in># live_slots s"
    by (auto simp: live_slots_def)
  from drop_slab_ok [OF step_drop(2) this] live_slots_remove [OF step_drop(1)]
  show ?case by (simp add: live_slots_def)
qed

lemma shared_reach_ok: "shared_reach c w s \<Longrightarrow> pool_ok (the_pool s) (live_slots s)"
proof (induction rule: shared_reach.induct)
  case (reach_start p)
  then show ?case by (simp add: live_slots_def build_pool_ok)
next
  case (reach_step s e s')
  then show ?case by (blast intro: shared_step_ok)
qed

lemma shared_step_shape:
  "shared_step s e s' \<Longrightarrow> length (slabs (the_pool s')) = length (slabs (the_pool s))
     \<and> slab_size (the_pool s') = slab_size (the_pool s)"
  by (induction rule: shared_step.induct)
     (auto simp: acquire_slab_None drop_slab_def write_buf_frame acquire_slab_frame)

lemma live_distinct:
  assumes "pool_ok (the_pool s) (live_slots s)"
  shows "distinct (map (\<lambda>h. slab_index (snd h)) (live s))"
  using assms unfolding live_slots_def by (rule pool_ok_distinct)

lemma live_index_neq:
  "pool_ok (the_pool s) (live_slots s) \<Longrightarrow> i < length (live s) \<Longrightarrow> j < length (live s) \<Longrightarrow> i \<noteq> j
     \<Longrightarrow> slab_index (snd (live s ! i)) \<noteq> slab_index (snd (live s ! j))"
  using live_distinct [of s] by (simp add: distinct_conv_nth)

lemma live_member: "h \<in> set (live s) \<Longrightarrow> slab_index (snd h) \<in># live_slots s"
  by (auto simp: live_slots_def)

lemma live_in_range:
  "pool_ok (the_pool s) (live_slots s) \<Longrightarrow> h \<in> set (live s) \<Longrightarrow>
     unat (slab_index (snd h)) < length (slabs (the_pool s))"
  by (simp add: live_member pool_ok_index)

section \<open>Properties\<close>

lemma shared_reach_shape:
  "shared_reach c w s \<Longrightarrow> length (slabs (the_pool s)) = unat c \<and> slab_size (the_pool s) = w"
proof (induction rule: shared_reach.induct)
  case (reach_start p)
  with build_pool_ok [OF reach_start] show ?case
    using pool_ok_capacity [of p "{#}"] by simp
next
  case (reach_step s e s')
  with shared_step_shape [OF reach_step(2)] show ?case by simp
qed

lemma size_live_slots [simp]: "size (live_slots s) = length (live s)"
  by (simp add: live_slots_def)

text \<open>A two-slot pool with both slabs out, each owned by a thread of its own.\<close>

definition sample_shared :: shared where
  "sample_shared = \<lparr>the_pool = sample_pool\<lparr>free_list := []\<rparr>,
     live = [(1, \<lparr>slab_index = 0, slab_len = 0\<rparr>), (2, \<lparr>slab_index = 1, slab_len = 0\<rparr>)]\<rparr>"

lemma sample_shared_reach: "shared_reach 2 4 sample_shared"
proof -
  let ?s0 = "\<lparr>the_pool = sample_pool, live = []\<rparr>"
  let ?s1 = "\<lparr>the_pool = sample_pool\<lparr>free_list := [1]\<rparr>, live = [(1, \<lparr>slab_index = 0, slab_len = 0\<rparr>)]\<rparr>"
  have "shared_step ?s0 (EvAcquire 1 4) ?s1"
    using step_acquire [of ?s0 4 "\<lparr>slab_index = 0, slab_len = 0\<rparr>" "sample_pool\<lparr>free_list := [1]\<rparr>" 1]
    by (simp add: acquire_slab_def sample_pool_def vec_pop_def)
  moreover have "shared_step ?s1 (EvAcquire 2 4) sample_shared"
    using step_acquire [of ?s1 4 "\<lparr>slab_index = 1, slab_len = 0\<rparr>" "sample_pool\<lparr>free_list := []\<rparr>" 2]
    by (simp add: acquire_slab_def sample_pool_def vec_pop_def sample_shared_def)
  ultimately show ?thesis by (meson reach_start [OF build_sample] reach_step)
qed

text \<open>
  C4: In every state any interleaving of the threads' acquires, writes, hand-overs and drops can
  reach, two live slabs never share a slot, and no live slab's slot is on the free list. This is
  what the source's \<open>unsafe impl Sync for VecPool\<close> rests on.
\<close>

theorem slabs_have_one_owner:
  assumes "shared_reach c w s" and "i < length (live s)"
  shows "slab_index (snd (live s ! i)) \<notin> set (free_list (the_pool s))
    \<and> (\<forall>j < length (live s). j \<noteq> i \<longrightarrow> slab_index (snd (live s ! j)) \<noteq> slab_index (snd (live s ! i)))"
  using shared_reach_ok [OF assms(1)] live_index_neq [of s] assms(2)
  by (metis live_member nth_mem pool_ok_disjoint)

theorem slabs_have_one_owner_witness:
  "slab_index (snd (live sample_shared ! 0)) \<noteq> slab_index (snd (live sample_shared ! 1))"
  using slabs_have_one_owner [OF sample_shared_reach, of 1] by (auto simp: sample_shared_def)

text \<open>
  No slot access of a live slab is out of range in a reachable state: the mutable view is
  always the whole slot of the configured width, the read view always exists, and it is as long
  as the recorded length, or as the slot where more was recorded.
\<close>

theorem slab_access_in_range:
  assumes "shared_reach c w s" and "h \<in> set (live s)"
  shows "\<exists>buf d. buf_mut (the_pool s) (snd h) = Some buf \<and> length buf = unat w
    \<and> slab_as_ref (the_pool s) (snd h) = Some d
    \<and> length d = min (unat (slab_len (snd h))) (unat w)"
proof -
  have ok: "pool_ok (the_pool s) (live_slots s)" by (rule shared_reach_ok [OF assms(1)])
  from shared_reach_shape [OF assms(1)] have sz: "slab_size (the_pool s) = w" by simp
  from live_in_range [OF ok assms(2)] have ix: "unat (slab_index (snd h)) < length (slabs (the_pool s))" .
  with ok sz have len: "length (slabs (the_pool s) ! unat (slab_index (snd h))) = unat w"
    by (auto simp: pool_ok_def)
  have "unat (min (slab_len (snd h)) (word_of_nat (unat w))) = min (unat (slab_len (snd h))) (unat w)"
    by (simp add: min_def word_le_nat_alt)
  with ix len show ?thesis by (simp add: buf_mut_def slab_as_ref_def Let_def)
qed

theorem slab_access_in_range_witness:
  "\<exists>buf. buf_mut (the_pool sample_shared) (snd (live sample_shared ! 1)) = Some buf \<and> length buf = 4"
  using slab_access_in_range [OF sample_shared_reach, of "live sample_shared ! 1"]
  by (auto simp: sample_shared_def)

text \<open>The events that a slab's own holder performs on it.\<close>

fun acts_on :: "pool_event \<Rightarrow> nat \<Rightarrow> bool" where
  "acts_on (EvWrite i d) j \<longleftrightarrow> i = j"
| "acts_on (EvSetLen i n) j \<longleftrightarrow> i = j"
| "acts_on (EvDrop i) j \<longleftrightarrow> i = j"
| "acts_on _ j \<longleftrightarrow> False"

lemma others_keep_slab:
  "shared_step s e s' \<Longrightarrow> pool_ok (the_pool s) (live_slots s) \<Longrightarrow> i < length (live s) \<Longrightarrow> \<not> acts_on e i
     \<Longrightarrow> slab_as_ref (the_pool s') (snd (live s ! i)) = slab_as_ref (the_pool s) (snd (live s ! i))
       \<and> snd (live s ! i) \<in> snd ` set (live s')"
proof (induction rule: shared_step.induct)
  case (step_acquire s n sl p' t)
  from acquire_slab_frame [OF step_acquire(1)] step_acquire(3) show ?case
    by (auto intro!: slab_as_ref_cong)
next
  case (step_refused s n p' t)
  then show ?case by (simp add: acquire_slab_None)
next
  case (step_write j s d p')
  from live_index_neq [OF step_write(3,1,4)] step_write(5)
  have "unat (slab_index (snd (live s ! i))) \<noteq> unat (slab_index (snd (live s ! j)))"
    by (auto simp: word_unat_eq_iff)
  with write_buf_frame(3,4) [OF step_write(2)] step_write(4) show ?case
    by (auto intro!: slab_as_ref_cong)
next
  case (step_set_len j s n)
  then have "(live s)[j := (fst (live s ! j), set_len (snd (live s ! j)) n)] ! i = live s ! i" by simp
  with step_set_len(3) show ?case by (auto simp: image_iff in_set_conv_nth intro!: bexI [of _ "live s ! i"] exI [of _ i])
next
  case (step_move j s t)
  then have "snd (((live s)[j := (t, snd (live s ! j))]) ! i) = snd (live s ! i)"
    by (cases "j = i") simp_all
  with step_move(3) show ?case
    by (auto simp: image_iff in_set_conv_nth intro!: bexI [of _ "((live s)[j := (t, snd (live s ! j))]) ! i"] exI [of _ i])
next
  case (step_drop j s)
  have "live s ! i \<in> set (take j (live s) @ drop (Suc j) (live s))"
  proof (cases "i < j")
    case True
    with step_drop(3) show ?thesis by (auto simp: in_set_conv_nth intro!: exI [of _ i])
  next
    case False
    with step_drop(3,4) show ?thesis by (auto simp: in_set_conv_nth intro!: exI [of _ "i - Suc j"])
  qed
  then show ?case by (auto simp: drop_slab_def intro!: slab_as_ref_cong)
qed

text \<open>
  C8: A slab is isolated from everything the other holders do: a step that is not a write, a
  \<open>set_len\<close> or a drop of the slab itself leaves it live and leaves the bytes it reads as they
  were, in whatever order the threads run.
\<close>

theorem slabs_are_isolated:
  assumes "shared_reach c w s" and "shared_step s e s'" and "i < length (live s)" and "\<not> acts_on e i"
  shows "slab_as_ref (the_pool s') (snd (live s ! i)) = slab_as_ref (the_pool s) (snd (live s ! i))
    \<and> snd (live s ! i) \<in> snd ` set (live s')"
  using others_keep_slab [OF assms(2) shared_reach_ok [OF assms(1)] assms(3,4)] .

theorem slabs_are_isolated_witness:
  "\<exists>s'. shared_step sample_shared (EvWrite 1 [9, 9]) s'
     \<and> slab_as_ref (the_pool s') (snd (live sample_shared ! 0))
       = slab_as_ref (the_pool sample_shared) (snd (live sample_shared ! 0))"
proof -
  obtain p' where "write_buf (the_pool sample_shared) (snd (live sample_shared ! 1)) [9, 9] = Some p'"
    by (simp add: write_buf_def buf_mut_def sample_shared_def sample_pool_def)
  from step_write [OF _ this] have step:
    "shared_step sample_shared (EvWrite 1 [9, 9]) (sample_shared\<lparr>the_pool := p'\<rparr>)"
    by (simp add: sample_shared_def)
  from slabs_are_isolated [OF sample_shared_reach step, of 0] step show ?thesis
    by (auto simp: sample_shared_def)
qed

text \<open>
  C31: No slot is ever lost or invented: in every reachable state the free slots and the live
  slabs add up to the capacity the pool was built with, \<open>in_use\<close> reports the live slabs, and an
  acquire of \<open>n\<close> bytes can take a slab exactly when \<open>n\<close> fits and not every slot is out;
  otherwise it is refused and changes nothing.
\<close>

theorem shared_pool_conserves:
  assumes "shared_reach c w s"
  shows "length (free_list (the_pool s)) + length (live s) = unat c
    \<and> unat (pool_in_use (the_pool s)) = length (live s) \<and> pool_capacity (the_pool s) = c
    \<and> ((\<exists>s'. shared_step s (EvAcquire t n) s') \<longleftrightarrow> n \<le> w \<and> length (live s) < unat c)
    \<and> (shared_step s (EvRefused t n) s' \<longleftrightarrow> s' = s \<and> \<not> (n \<le> w \<and> length (live s) < unat c))"
proof -
  have ok: "pool_ok (the_pool s) (live_slots s)" by (rule shared_reach_ok [OF assms])
  from shared_reach_shape [OF assms] pool_ok_size [OF ok]
  have sz: "slab_size (the_pool s) = w" "length (free_list (the_pool s)) + length (live s) = unat c" by simp_all
  have cap: "pool_capacity (the_pool s) = c"
    using shared_reach_shape [OF assms] by (simp add: pool_capacity_def)
  have none: "fst (acquire_slab (the_pool s) n) = None \<longleftrightarrow> \<not> (n \<le> w \<and> length (live s) < unat c)"
  proof -
    have "free_list (the_pool s) = [] \<longleftrightarrow> length (free_list (the_pool s)) = 0" by simp
    also have "\<dots> \<longleftrightarrow> \<not> length (live s) < unat c" using sz(2) by linarith
    finally have "free_list (the_pool s) = [] \<longleftrightarrow> \<not> length (live s) < unat c" .
    then show ?thesis using sz(1) acquire_slab_None [of "the_pool s" n]
      by (metis (no_types) fst_conv linorder_not_le prod.collapse)
  qed
  have acq: "(\<exists>s'. shared_step s (EvAcquire t n) s') \<longleftrightarrow> fst (acquire_slab (the_pool s) n) \<noteq> None"
    by (cases "acquire_slab (the_pool s) n") (auto elim!: acquire_stepE intro: step_acquire)
  have ref: "shared_step s (EvRefused t n) s' \<longleftrightarrow> s' = s \<and> fst (acquire_slab (the_pool s) n) = None"
    by (cases "acquire_slab (the_pool s) n")
       (auto simp: acquire_slab_None elim!: refused_stepE intro: step_refused [of s n "the_pool s" t, simplified])
  from sz cap none acq ref pool_ok_in_use [OF ok] show ?thesis by simp
qed

theorem shared_pool_conserves_witness:
  "unat (pool_in_use (the_pool sample_shared)) = 2 \<and> (\<nexists>s'. shared_step sample_shared (EvAcquire 3 1) s')"
  using shared_pool_conserves [OF sample_shared_reach, of 3 1] by (simp add: sample_shared_def)

end
