(* ===== verification/Frame_Batch.thy ===== *)
theory Frame_Batch imports Vec_Pool Net_Types begin

text \<open>
  The burst container \<open>FrameBatch\<close> of \<open>crates/core/src/transport.rs\<close> and the owned datagram
  \<open>UdpFrame\<close> of the backends. The container is its frames and the capacity of the backing
  \<open>Vec\<close>, so that a reallocation shows as a change of the capacity.
\<close>

section \<open>The container\<close>

record 'f frame_batch =
  frames :: "'f list"
  batch_cap :: usize

text \<open>
  \<open>Vec\<close> grows when a push finds it full: to twice its capacity, and to four elements at least.
\<close>

definition grown_cap :: "usize \<Rightarrow> usize" where
  "grown_cap c = word_of_nat (max 4 (2 * unat c))"

definition batch_with_capacity :: "usize \<Rightarrow> 'f frame_batch" where
  "batch_with_capacity c = \<lparr>frames = [], batch_cap = c\<rparr>"

definition batch_default :: "'f frame_batch" where
  "batch_default = \<lparr>frames = [], batch_cap = 0\<rparr>"

definition batch_len :: "'f frame_batch \<Rightarrow> usize" where
  "batch_len b = word_of_nat (length (frames b))"

definition batch_spare :: "'f frame_batch \<Rightarrow> usize" where
  "batch_spare b = batch_cap b - word_of_nat (length (frames b))"

definition batch_is_empty :: "'f frame_batch \<Rightarrow> bool" where
  "batch_is_empty b \<longleftrightarrow> frames b = []"

definition batch_push :: "'f \<Rightarrow> 'f frame_batch \<Rightarrow> 'f frame_batch" where
  "batch_push f b =
     (if length (frames b) = unat (batch_cap b)
      then b\<lparr>frames := vec_push (frames b) f, batch_cap := grown_cap (batch_cap b)\<rparr>
      else b\<lparr>frames := vec_push (frames b) f\<rparr>)"

definition batch_drain :: "'f frame_batch \<Rightarrow> 'f list \<times> 'f frame_batch" where
  "batch_drain b = (frames b, b\<lparr>frames := []\<rparr>)"

text \<open>A \<open>Vec\<close> never holds more than its capacity.\<close>

definition batch_ok :: "'f frame_batch \<Rightarrow> bool" where
  "batch_ok b \<longleftrightarrow> length (frames b) \<le> unat (batch_cap b)"

lemma batch_ok_new [simp]: "batch_ok (batch_with_capacity c)"
  by (simp add: batch_ok_def batch_with_capacity_def)

lemma frames_new [simp]:
  "frames (batch_with_capacity c) = []" "batch_cap (batch_with_capacity c) = c"
  by (simp_all add: batch_with_capacity_def)

lemma frames_drain [simp]:
  "fst (batch_drain b) = frames b" "frames (snd (batch_drain b)) = []"
  "batch_cap (snd (batch_drain b)) = batch_cap b" "batch_ok (snd (batch_drain b))"
  by (simp_all add: batch_drain_def batch_ok_def)

lemma unat_batch_spare: "batch_ok b \<Longrightarrow> unat (batch_spare b) = unat (batch_cap b) - length (frames b)"
proof -
  assume ok: "batch_ok b"
  then have "length (frames b) < 2 ^ 64"
    using unat_usize_less [of "batch_cap b"] by (simp add: batch_ok_def)
  with ok show ?thesis
    by (simp add: batch_ok_def batch_spare_def unat_sub word_le_nat_alt)
qed

text \<open>Within \<open>spare\<close>, pushing frames appends them and leaves the allocation alone.\<close>

lemma batch_push_spare:
  "batch_ok b \<Longrightarrow> 0 < unat (batch_spare b) \<Longrightarrow> batch_push f b = b\<lparr>frames := frames b @ [f]\<rparr>"
  by (simp add: unat_batch_spare batch_push_def vec_push_def)

lemma batch_ok_push_spare:
  "batch_ok b \<Longrightarrow> 0 < unat (batch_spare b) \<Longrightarrow>
     batch_ok (b\<lparr>frames := frames b @ [f]\<rparr>)
     \<and> unat (batch_spare (b\<lparr>frames := frames b @ [f]\<rparr>)) = unat (batch_spare b) - 1"
proof -
  assume ok: "batch_ok b" and sp: "0 < unat (batch_spare b)"
  then have ok': "batch_ok (b\<lparr>frames := frames b @ [f]\<rparr>)"
    by (simp add: unat_batch_spare batch_ok_def)
  with ok sp show ?thesis by (simp add: unat_batch_spare)
qed

section \<open>Owned datagrams\<close>

record udp_frame =
  uf_slab :: vec_slab
  uf_peer :: socket_addr

definition frame_payload :: "vec_pool \<Rightarrow> udp_frame \<Rightarrow> bytes option" where
  "frame_payload p f = slab_as_ref p (uf_slab f)"

definition frame_sequence :: "udp_frame \<Rightarrow> u64" where
  "frame_sequence f = 0"

definition frame_stream_id :: "udp_frame \<Rightarrow> u8" where
  "frame_stream_id f = 0"

definition drop_frame :: "udp_frame \<Rightarrow> vec_pool \<Rightarrow> vec_pool" where
  "drop_frame f p = drop_slab (uf_slab f) p"

abbreviation frame_slot :: "udp_frame \<Rightarrow> u32" where
  "frame_slot f \<equiv> slab_index (uf_slab f)"

end
