(* ===== verification/Sys.thy ===== *)
theory Sys imports Config Transport_Error begin

text \<open>
  What the backends call outside the repository: the operating system through \<open>socket2\<close>,
  \<open>mio\<close>, \<open>tokio\<close> and \<open>libc\<close>, the clock, \<open>tracing\<close> and the metrics recorder. Nothing of it is
  defined here: \<open>'k os\<close> is a record of functions on an opaque world \<open>'k\<close>, one field per call,
  and every definition of the model takes it as a parameter. A call that may block for ever
  has an \<open>option\<close> result, \<open>None\<close> when it never returns.
\<close>

type_synonym fd = nat
type_synonym poll_id = nat

datatype domain = DomainIPV4 | DomainIPV6

datatype platform = Linux | OtherUnix | Windows

datatype interest = Readable | Writable

text \<open>A readiness event of \<open>mio\<close>: the token it was registered with and what it reports.\<close>

record event =
  ev_token :: nat
  ev_readable :: bool
  ev_writable :: bool

record 'k os =
  platform :: platform
  \<comment> \<open>socket2\<close>
  socket_dgram :: "domain \<Rightarrow> ('k, fd, io_error) eff"
  set_reuse_address :: "fd \<Rightarrow> bool \<Rightarrow> ('k, unit, io_error) eff"
  set_reuse_port :: "fd \<Rightarrow> bool \<Rightarrow> ('k, unit, io_error) eff"
  set_recv_buffer_size :: "fd \<Rightarrow> usize \<Rightarrow> ('k, unit, io_error) eff"
  recv_buffer_size :: "fd \<Rightarrow> ('k, usize, io_error) eff"
  set_send_buffer_size :: "fd \<Rightarrow> usize \<Rightarrow> ('k, unit, io_error) eff"
  send_buffer_size :: "fd \<Rightarrow> ('k, usize, io_error) eff"
  set_nonblocking :: "fd \<Rightarrow> bool \<Rightarrow> ('k, unit, io_error) eff"
  bind_addr :: "fd \<Rightarrow> socket_addr \<Rightarrow> ('k, unit, io_error) eff"
  s2_peek :: "fd \<Rightarrow> nat \<Rightarrow> ('k, bytes, io_error) eff"
  s2_recv :: "fd \<Rightarrow> nat \<Rightarrow> ('k, bytes, io_error) eff"
  s2_recv_from :: "fd \<Rightarrow> nat \<Rightarrow> ('k, bytes \<times> socket_addr option, io_error) eff"
  \<comment> \<open>std and mio\<close>
  local_addr_of :: "fd \<Rightarrow> ('k, socket_addr, io_error) eff"
  peer_addr_of :: "fd \<Rightarrow> ('k, socket_addr, io_error) eff"
  poll_new :: "('k, poll_id, io_error) eff"
  register :: "poll_id \<Rightarrow> fd \<Rightarrow> nat \<Rightarrow> interest list \<Rightarrow> ('k, unit, io_error) eff"
  poll_wait :: "poll_id \<Rightarrow> nat option \<Rightarrow> 'k \<Rightarrow> ((event list, io_error) result \<times> 'k) option"
  mio_recv_from :: "fd \<Rightarrow> nat \<Rightarrow> ('k, bytes \<times> socket_addr, io_error) eff"
  mio_send_dgram :: "fd \<Rightarrow> bytes \<Rightarrow> ('k, usize, io_error) eff"
  mio_send_dgram_to :: "fd \<Rightarrow> bytes \<Rightarrow> socket_addr \<Rightarrow> ('k, usize, io_error) eff"
  mio_tcp_connect :: "socket_addr \<Rightarrow> ('k, fd, io_error) eff"
  mio_tcp_write :: "fd \<Rightarrow> bytes \<Rightarrow> ('k, usize, io_error) eff"
  take_error :: "fd \<Rightarrow> ('k, io_error option, io_error) eff"
  join_multicast_v4 :: "fd \<Rightarrow> ipv4_addr \<Rightarrow> ipv4_addr \<Rightarrow> ('k, unit, io_error) eff"
  join_multicast_v6 :: "fd \<Rightarrow> ipv6_addr \<Rightarrow> u32 \<Rightarrow> ('k, unit, io_error) eff"
  \<comment> \<open>tokio\<close>
  tk_from_std :: "fd \<Rightarrow> ('k, unit, io_error) eff"
  tk_tcp_connect :: "socket_addr \<Rightarrow> 'k \<Rightarrow> ((fd, io_error) result \<times> 'k) option"
  tk_readable :: "fd \<Rightarrow> 'k \<Rightarrow> ((unit, io_error) result \<times> 'k) option"
  tk_try_io :: "fd \<Rightarrow> interest \<Rightarrow> ('k, unit, io_error) eff \<Rightarrow> ('k, unit, io_error) eff"
  tk_send_dgram :: "fd \<Rightarrow> bytes \<Rightarrow> 'k \<Rightarrow> ((usize, io_error) result \<times> 'k) option"
  tk_send_dgram_to :: "fd \<Rightarrow> bytes \<Rightarrow> socket_addr \<Rightarrow> 'k \<Rightarrow> ((usize, io_error) result \<times> 'k) option"
  tk_write_all :: "fd \<Rightarrow> bytes \<Rightarrow> 'k \<Rightarrow> ((unit, io_error) result \<times> 'k) option"
  \<comment> \<open>libc\<close>
  setsockopt :: "fd \<Rightarrow> string \<Rightarrow> int \<Rightarrow> 'k \<Rightarrow> int \<times> 'k"
  last_os_error :: "'k \<Rightarrow> io_error"
  \<comment> \<open>time in milliseconds, logging and metrics\<close>
  instant_now :: "'k \<Rightarrow> nat \<times> 'k"
  thread_sleep :: "nat \<Rightarrow> 'k \<Rightarrow> 'k"
  warn :: "(string \<times> string) list \<Rightarrow> string \<Rightarrow> 'k \<Rightarrow> 'k"
  metrics_enabled :: "'k \<Rightarrow> bool"
  counter_increment :: "string \<Rightarrow> (string \<times> string) list \<Rightarrow> u64 \<Rightarrow> 'k \<Rightarrow> 'k"

section \<open>Calls in sequence\<close>

text \<open>\<open>map_err(TransportError::Io)?\<close>, and the mapping that \<open>bind\<close> and \<open>connect\<close> use.\<close>

abbreviation io_err :: "('k, 'a, io_error) eff \<Rightarrow> ('k, 'a, transport_error) eff" where
  "io_err m \<equiv> eff_err Io m"

definition bind_err :: "socket_addr \<Rightarrow> ('k, 'a, io_error) eff \<Rightarrow> ('k, 'a, transport_error) eff" where
  "bind_err a m = eff_err (\<lambda>e. BindFailed (show_addr a) (err_text e)) m"

definition act :: "('k \<Rightarrow> 'k) \<Rightarrow> ('k, unit, 'e) eff" where
  "act f = (\<lambda>k. (Ok (), f k))"

definition only_if :: "bool \<Rightarrow> ('k, unit, 'e) eff \<Rightarrow> ('k, unit, 'e) eff" where
  "only_if b m = (if b then m else pure ())"

lemma act_apply [eff_simps]: "act f k = (Ok (), f k)"
  by (simp add: act_def)

lemma only_if_apply [eff_simps]: "only_if b m k = (if b then m k else (Ok (), k))"
  by (simp add: only_if_def pure_def)

lemma bind_err_apply [eff_simps]:
  "bind_err a m k = (case m k of (r, k') \<Rightarrow> (map_err (\<lambda>e. BindFailed (show_addr a) (err_text e)) r, k'))"
  by (simp add: bind_err_def eff_err_def)

text \<open>A mapped error keeps the call it came from.\<close>

lemma io_err_cases:
  "io_err m k = (case m k of (Ok a, k') \<Rightarrow> (Ok a, k') | (Err e, k') \<Rightarrow> (Err (Io e), k'))"
  by (simp add: eff_err_def split: prod.split result.split)

section \<open>Buffer sizes\<close>

text \<open>
  A request for a buffer size, as both TCP backends and both UDP backends make it: set it, read
  back what the kernel granted, warn when that is less. Only the text of the warning differs.
\<close>

definition request_buffer ::
  "'k os \<Rightarrow> (fd \<Rightarrow> usize \<Rightarrow> ('k, unit, io_error) eff) \<Rightarrow> (fd \<Rightarrow> ('k, usize, io_error) eff) \<Rightarrow> string
     \<Rightarrow> fd \<Rightarrow> u32 option \<Rightarrow> ('k, unit, transport_error) eff"
where
  "request_buffer sys setter getter msg s req =
     (case req of
        None \<Rightarrow> pure ()
      | Some r \<Rightarrow>
          and_then (io_err (setter s (ucast r))) (\<lambda>_.
          and_then (io_err (getter s)) (\<lambda>effective.
          only_if (effective < ucast r)
            (act (warn sys [(''requested'', show_nat (unat r)), (''effective'', show_nat (unat effective))] msg)))))"

lemma request_buffer_None [eff_simps]: "request_buffer sys setter getter msg s None = pure ()"
  by (simp add: request_buffer_def)

section \<open>Telemetry\<close>

text \<open>\<open>crates/core/src/telemetry.rs\<close>: the gated counters of the receive path.\<close>

definition RECV_PACKETS :: string where "RECV_PACKETS = ''transport.recv.packets''"
definition RECV_BYTES :: string where "RECV_BYTES = ''transport.recv.bytes''"

definition record_recv_burst :: "'k os \<Rightarrow> string \<Rightarrow> u64 \<Rightarrow> u64 \<Rightarrow> 'k \<Rightarrow> 'k" where
  "record_recv_burst sys backend packets nbytes k =
     (if metrics_enabled sys k
      then counter_increment sys RECV_BYTES [(''backend'', backend)] nbytes
             (counter_increment sys RECV_PACKETS [(''backend'', backend)] packets k)
      else k)"

definition record_recv_event :: "'k os \<Rightarrow> string \<Rightarrow> string \<Rightarrow> 'k \<Rightarrow> 'k" where
  "record_recv_event sys nm backend k =
     (if metrics_enabled sys k then counter_increment sys nm [(''backend'', backend)] 1 k else k)"

lemma record_recv_gate_off:
  "\<not> metrics_enabled sys k \<Longrightarrow> record_recv_burst sys backend packets nbytes k = k
     \<and> record_recv_event sys nm backend k = k"
  by (simp add: record_recv_burst_def record_recv_event_def)

end
