(* ===== verification/Recv_Reference.thy ===== *)
theory Recv_Reference imports Frame_Batch Sys begin

text \<open>
  The specification of a receive burst over a slab pool, apart from any backend: which
  datagrams a burst takes from the socket, what it does with them, and what it returns.
  \<open>rf\<close> stands for the receiving call of a backend; \<open>reap\<close> calls it up to a budget.

  \<open>burst\<close> is the common form of the two backends' loops; the backends' own definitions are
  shown equal to it, so that its properties are proved once.
\<close>

type_synonym 'k recv_call = "nat \<Rightarrow> 'k \<Rightarrow> (bytes \<times> socket_addr, io_error) result \<times> 'k"

section \<open>Specification\<close>

text \<open>Up to \<open>c\<close> calls with a buffer of \<open>w\<close> bytes, ending at the first error.\<close>

fun reap :: "'k recv_call \<Rightarrow> nat \<Rightarrow> nat \<Rightarrow> 'k \<Rightarrow> (bytes \<times> socket_addr) list \<times> io_error option \<times> 'k" where
  "reap rf w 0 k = ([], None, k)"
| "reap rf w (Suc c) k =
     (case rf w k of
        (Err e, k') \<Rightarrow> ([], Some e, k')
      | (Ok x, k') \<Rightarrow> (case reap rf w c k' of (xs, e, k'') \<Rightarrow> (x # xs, e, k'')))"

lemma reap_length: "reap rf w c k = (xs, e, k') \<Longrightarrow> length xs \<le> c \<and> (e = None \<longleftrightarrow> length xs = c)"
  by (induction rf w c k arbitrary: xs e k' rule: reap.induct)
     (force split: prod.splits result.splits)+

text \<open>Every datagram fits the buffer it was received into.\<close>

definition fits_buffer :: "'k recv_call \<Rightarrow> bool" where
  "fits_buffer rf \<longleftrightarrow> (\<forall>w k d a k'. rf w k = (Ok (d, a), k') \<longrightarrow> length d \<le> w)"

lemma fits_bufferD: "fits_buffer rf \<Longrightarrow> rf w k = (Ok x, k') \<Longrightarrow> length (fst x) \<le> w"
  unfolding fits_buffer_def by (metis prod.collapse)

lemma reap_fits:
  "fits_buffer rf \<Longrightarrow> reap rf w c k = (xs, e, k') \<Longrightarrow> x \<in> set xs \<Longrightarrow> length (fst x) \<le> w"
  by (induction rf w c k arbitrary: xs e k' rule: reap.induct)
     (auto dest: fits_bufferD split: prod.splits result.splits)

text \<open>The total a burst reports to the byte counter: the sum of the lengths at 64 bits.\<close>

definition total_bytes :: "(bytes \<times> socket_addr) list \<Rightarrow> u64" where
  "total_bytes ds = word_of_nat (sum_list (map (length \<circ> fst) ds))"

definition stop_ok :: "io_error option \<Rightarrow> bool" where
  "stop_ok e \<longleftrightarrow> (case e of None \<Rightarrow> True | Some e' \<Rightarrow> err_kind e' = WouldBlock)"

text \<open>
  The new frames hold the datagrams: payload and sender, in order of arrival, in slots of their
  own; the pool's other live slabs read what they read before.
\<close>

definition frames_hold :: "vec_pool \<Rightarrow> udp_frame list \<Rightarrow> (bytes \<times> socket_addr) list \<Rightarrow> bool" where
  "frames_hold p fs ds \<longleftrightarrow> map (\<lambda>f. (frame_payload p f, uf_peer f)) fs = map (\<lambda>(d, a). (Some d, a)) ds"

section \<open>The loop\<close>

text \<open>
  \<open>m\<close> is the number of rounds left, \<open>n\<close> the number of frames so far. \<open>None\<close> is a panic (a
  slab index out of range).
\<close>

type_synonym 'k burst_result =
  "((nat \<times> u64, transport_error) result \<times> vec_pool \<times> socket_addr option \<times> udp_frame frame_batch \<times> 'k) option"

fun burst ::
  "'k recv_call \<Rightarrow> nat \<Rightarrow> nat \<Rightarrow> u64 \<Rightarrow> vec_pool \<Rightarrow> socket_addr option \<Rightarrow> udp_frame frame_batch \<Rightarrow> 'k
     \<Rightarrow> 'k burst_result"
where
  "burst rf 0 n tot p lp out k = Some (Ok (n, tot), p, lp, out, k)"
| "burst rf (Suc m) n tot p lp out k =
     (case acquire_slab p (slab_size p) of
        (None, q) \<Rightarrow>
          (if n = 0 then Some (Err (PoolExhausted (pool_in_use q) (pool_capacity q)), q, lp, out, k)
           else Some (Ok (n, tot), q, lp, out, k))
      | (Some slab, q) \<Rightarrow>
          (case buf_mut q slab of
             None \<Rightarrow> None
           | Some buf \<Rightarrow>
               (case rf (length buf) k of
                  (Ok (d, peer), k') \<Rightarrow>
                    (case write_buf q slab d of
                       None \<Rightarrow> None
                     | Some q' \<Rightarrow>
                         burst rf m (Suc n) (tot + word_of_nat (length d)) q' (Some peer)
                           (batch_push \<lparr>uf_slab = set_len slab (word_of_nat (length d)), uf_peer = peer\<rparr> out) k')
                | (Err e, k') \<Rightarrow>
                    (if err_kind e = WouldBlock then Some (Ok (n, tot), drop_slab slab q, lp, out, k')
                     else Some (Err (Io e), drop_slab slab q, lp, out, k')))))"

declare burst.simps(2) [simp del]

text \<open>One round in which the pool has a slab.\<close>

lemma burst_round:
  assumes ok: "pool_ok p L" and free: "free_list p \<noteq> []"
  obtains slab q where
    "acquire_slab p (slab_size p) = (Some slab, q)"
    "pool_ok q (add_mset (slab_index slab) L)" "slab_len slab = 0" "slabs q = slabs p"
    "slab_size q = slab_size p" "free_list p = free_list q @ [slab_index slab]"
    "drop_slab slab q = p"
    "\<exists>buf. buf_mut q slab = Some buf \<and> length buf = unat (slab_size p)"
proof -
  from free obtain fr i where "free_list p = fr @ [i]" by (meson rev_exhaust)
  from acquire_slab_snoc [OF this, of "slab_size p"] obtain slab q where
    a: "acquire_slab p (slab_size p) = (Some slab, q)" by auto
  have ok': "pool_ok q (add_mset (slab_index slab) L)" by (rule acquire_slab_ok [OF ok a])
  from buf_mut_live [OF ok', of slab] obtain buf where buf: "buf_mut q slab = Some buf" by simp
  from buf_mut_length [OF ok' buf] acquire_slab_frame [OF a] have "length buf = unat (slab_size p)" by simp
  with that [OF a ok'] acquire_slab_Some [OF a] acquire_slab_frame [OF a] drop_acquired [OF a] buf
  show ?thesis by simp
qed

lemma burst_exhausted:
  "free_list p = [] \<Longrightarrow> burst rf (Suc m) n tot p lp out k =
     Some (if n = 0 then Err (PoolExhausted (pool_in_use p) (pool_capacity p)) else Ok (n, tot), p, lp, out, k)"
  by (simp add: burst.simps(2) acquire_slab_def vec_pop_def)

definition bump_peer :: "socket_addr option \<Rightarrow> (bytes \<times> socket_addr) list \<Rightarrow> socket_addr option" where
  "bump_peer lp ds = (if ds = [] then lp else Some (snd (last ds)))"

lemma total_bytes_Cons: "total_bytes ((d, a) # ds) = word_of_nat (length d) + total_bytes ds"
  by (simp add: total_bytes_def)

lemma frames_hold_Cons:
  "frames_hold p (f # fs) ((d, a) # ds) \<longleftrightarrow> frame_payload p f = Some d \<and> uf_peer f = a \<and> frames_hold p fs ds"
  by (simp add: frames_hold_def)

lemma frames_hold_Nil [simp]: "frames_hold p [] []"
  by (simp add: frames_hold_def)

text \<open>
  What a burst with \<open>m\<close> rounds leaves behind, given the datagrams \<open>ds\<close> and the stop \<open>e\<close> that
  reaping yields: result, pool, last peer, batch and world.
\<close>

definition burst_outcome ::
  "nat \<Rightarrow> u64 \<Rightarrow> vec_pool \<Rightarrow> u32 multiset \<Rightarrow> socket_addr option \<Rightarrow> udp_frame frame_batch
     \<Rightarrow> (bytes \<times> socket_addr) list \<Rightarrow> io_error option \<Rightarrow> 'k \<Rightarrow> 'k burst_result \<Rightarrow> bool"
where
  "burst_outcome n tot p L lp out ds e k' res \<longleftrightarrow>
     (\<exists>p' fs. res = Some (if stop_ok e then Ok (n + length ds, tot + total_bytes ds) else Err (Io (the e)),
                          p', bump_peer lp ds, out\<lparr>frames := frames out @ fs\<rparr>, k')
        \<and> frames_hold p' fs ds \<and> length fs = length ds
        \<and> pool_ok p' (L + mset (map frame_slot fs))
        \<and> slab_size p' = slab_size p \<and> length (slabs p') = length (slabs p)
        \<and> (\<forall>sl. slab_index sl \<in># L \<longrightarrow> slab_as_ref p' sl = slab_as_ref p sl))"

lemma burst_outcome_stop:
  "pool_ok p L \<Longrightarrow> stop_ok e \<Longrightarrow> burst_outcome n tot p L lp out [] e k' (Some (Ok (n, tot), p, lp, out, k'))"
  "pool_ok p L \<Longrightarrow> \<not> stop_ok e \<Longrightarrow> burst_outcome n tot p L lp out [] e k' (Some (Err (Io (the e)), p, lp, out, k'))"
  by (simp_all add: burst_outcome_def bump_peer_def total_bytes_def)

text \<open>A datagram landed, then the rest of the burst.\<close>

lemma burst_outcome_land:
  assumes q: "pool_ok q (add_mset (slab_index slab) L)" "slab_size q = slab_size p" "slabs q = slabs p"
    and w: "write_buf q slab d = Some q'" and fit: "length d \<le> unat (slab_size q)"
    and f: "f = \<lparr>uf_slab = set_len slab (word_of_nat (length d)), uf_peer = a\<rparr>"
    and rest: "burst_outcome (Suc n) (tot + word_of_nat (length d)) q' (add_mset (slab_index slab) L)
      (Some a) (out\<lparr>frames := frames out @ [f]\<rparr>) ds e k' res"
  shows "burst_outcome n tot p L lp out ((d, a) # ds) e k' res"
proof -
  from rest obtain p' fs where r:
    "res = Some (if stop_ok e then Ok (Suc n + length ds, tot + word_of_nat (length d) + total_bytes ds)
                 else Err (Io (the e)), p', bump_peer (Some a) ds, out\<lparr>frames := frames out @ f # fs\<rparr>, k')"
    "frames_hold p' fs ds" "length fs = length ds"
    "pool_ok p' (add_mset (slab_index slab) L + mset (map frame_slot fs))"
    "slab_size p' = slab_size q'" "length (slabs p') = length (slabs q')"
    "\<And>sl. slab_index sl \<in># add_mset (slab_index slab) L \<Longrightarrow> slab_as_ref p' sl = slab_as_ref q' sl"
    unfolding burst_outcome_def by auto
  have fslot: "frame_slot f = slab_index slab" by (simp add: f set_len_def)
  have "slab_as_ref p' (uf_slab f) = slab_as_ref q' (uf_slab f)"
    by (rule r(7)) (simp add: fslot)
  also have "\<dots> = Some d" using write_then_read [OF q(1) w fit] by (simp add: f)
  finally have pay: "frame_payload p' f = Some d" by (simp add: frame_payload_def)
  have other: "slab_as_ref p' sl = slab_as_ref p sl" if "slab_index sl \<in># L" for sl
  proof -
    from write_buf_others [OF q(1) w that] have "slab_as_ref q' sl = slab_as_ref q sl" .
    moreover have "slab_as_ref q sl = slab_as_ref p sl" by (simp add: slab_as_ref_def q(3))
    ultimately show ?thesis using r(7) [of sl] that by simp
  qed
  show ?thesis unfolding burst_outcome_def
  proof (intro exI [of _ p'] exI [of _ "f # fs"] conjI)
    show "res = Some (if stop_ok e then Ok (n + length ((d, a) # ds), tot + total_bytes ((d, a) # ds))
        else Err (Io (the e)), p', bump_peer lp ((d, a) # ds), out\<lparr>frames := frames out @ f # fs\<rparr>, k')"
      by (simp add: r(1) total_bytes_Cons bump_peer_def add.assoc)
    show "frames_hold p' (f # fs) ((d, a) # ds)" using pay r(2) by (simp add: frames_hold_Cons f)
    show "pool_ok p' (L + mset (map frame_slot (f # fs)))" using r(4) by (simp add: fslot)
    show "slab_size p' = slab_size p" using r(5) write_buf_frame(2) [OF w] q(2) by simp
    show "length (slabs p') = length (slabs p)" using r(6) write_buf_frame(3) [OF w] q(3) by simp
    show "\<forall>sl. slab_index sl \<in># L \<longrightarrow> slab_as_ref p' sl = slab_as_ref p sl" using other by blast
  qed (use r(3) in simp)
qed

lemma burst_spec:
  assumes "pool_ok p L" and "batch_ok out" and "m \<le> unat (batch_spare out)" and "fits_buffer rf"
    and "\<not> (n = 0 \<and> 0 < m \<and> free_list p = [])"
    and "reap rf (unat (slab_size p)) (min m (length (free_list p))) k = (ds, e, k')"
  shows "burst_outcome n tot p L lp out ds e k' (burst rf m n tot p lp out k)"
  using assms
proof (induction m arbitrary: n tot p L lp out k ds)
  case 0
  then show ?case by (auto simp: stop_ok_def intro: burst_outcome_stop)
next
  case (Suc m)
  note ok = Suc.prems(1)
  show ?case
  proof (cases "free_list p = []")
    case True
    with Suc.prems(5,6) show ?thesis
      by (auto simp: burst_exhausted stop_ok_def intro: burst_outcome_stop [OF ok])
  next
    case False
    from burst_round [OF ok False] obtain slab q buf where q:
      "acquire_slab p (slab_size p) = (Some slab, q)" "pool_ok q (add_mset (slab_index slab) L)"
      "slabs q = slabs p" "slab_size q = slab_size p" "free_list p = free_list q @ [slab_index slab]"
      "drop_slab slab q = p" "buf_mut q slab = Some buf" "length buf = unat (slab_size p)"
      by metis
    have budget: "min (Suc m) (length (free_list p)) = Suc (min m (length (free_list q)))"
      using q(5) by simp
    obtain r k1 where rf: "rf (length buf) k = (r, k1)" by force
    show ?thesis
    proof (cases r)
      case (Err e')
      with rf Suc.prems(6) q(8) have [simp]: "ds = []" "e = Some e'" "k' = k1"
        unfolding budget by simp_all
      show ?thesis using rf Err q burst_outcome_stop [OF ok, of e n tot lp out k1]
        by (simp add: burst.simps(2) stop_ok_def)
    next
      case (Ok x)
      obtain d a where x: "x = (d, a)" by force
      from rf Ok x Suc.prems(6) q(8) obtain ds' where ds: "ds = (d, a) # ds'"
        "reap rf (unat (slab_size p)) (min m (length (free_list q))) k1 = (ds', e, k')"
        unfolding budget by (auto split: prod.splits)
      have fit: "length d \<le> unat (slab_size q)"
        using Suc.prems(4) rf Ok x q(4,8) unfolding fits_buffer_def by force
      obtain q' where w: "write_buf q slab d = Some q'" using q(7) by (simp add: write_buf_def)
      let ?f = "\<lparr>uf_slab = set_len slab (word_of_nat (length d)), uf_peer = a\<rparr>"
      have sp: "0 < unat (batch_spare out)" using Suc.prems(3) by simp
      have push: "batch_push ?f out = out\<lparr>frames := frames out @ [?f]\<rparr>"
        by (rule batch_push_spare [OF Suc.prems(2) sp])
      from batch_ok_push_spare [OF Suc.prems(2) sp, of ?f] Suc.prems(3)
      have out': "batch_ok (out\<lparr>frames := frames out @ [?f]\<rparr>)"
        "m \<le> unat (batch_spare (out\<lparr>frames := frames out @ [?f]\<rparr>))" by simp_all
      have "burst_outcome (Suc n) (tot + word_of_nat (length d)) q' (add_mset (slab_index slab) L) (Some a)
          (out\<lparr>frames := frames out @ [?f]\<rparr>) ds' e k'
          (burst rf m (Suc n) (tot + word_of_nat (length d)) q' (Some a) (out\<lparr>frames := frames out @ [?f]\<rparr>) k1)"
        using write_buf_ok [OF q(2) w] out' Suc.prems(4) ds(2) write_buf_frame(1,2) [OF w] q(4)
        by (intro Suc.IH) simp_all
      from burst_outcome_land [OF q(2,4,3) w fit refl this] show ?thesis
        using rf Ok x q w push by (simp add: burst.simps(2) ds(1))
    qed
  qed
qed

text \<open>The loop never panics.\<close>

lemma burst_total:
  assumes "pool_ok p L" and "batch_ok out" and "m \<le> unat (batch_spare out)" and "fits_buffer rf"
  shows "\<exists>res. burst rf m 0 0 p lp out k = Some res"
proof (cases "0 < m \<and> free_list p = []")
  case True
  then show ?thesis by (cases m) (simp_all add: burst_exhausted)
next
  case False
  obtain ds e k' where "reap rf (unat (slab_size p)) (min m (length (free_list p))) k = (ds, e, k')"
    by (metis prod_cases3)
  from burst_spec [OF assms _ this, of 0 0 lp] False show ?thesis by (auto simp: burst_outcome_def)
qed

section \<open>A whole burst\<close>

text \<open>The loop with the cap of the batch around it and the counters behind it.\<close>

definition burst_call ::
  "'k os \<Rightarrow> string \<Rightarrow> 'k recv_call \<Rightarrow> vec_pool \<Rightarrow> socket_addr option \<Rightarrow> udp_frame frame_batch \<Rightarrow> usize \<Rightarrow> 'k
     \<Rightarrow> ((usize, transport_error) result \<times> vec_pool \<times> socket_addr option \<times> udp_frame frame_batch \<times> 'k) option"
where
  "burst_call sys backend rf p lp out mx k =
     (case burst rf (unat (min mx (batch_spare out))) 0 0 p lp out k of
        None \<Rightarrow> None
      | Some (Err e, p', lp', out', k') \<Rightarrow> Some (Err e, p', lp', out', k')
      | Some (Ok (n, tot), p', lp', out', k') \<Rightarrow>
          Some (Ok (word_of_nat n), p', lp', out', record_recv_burst sys backend (word_of_nat n) tot k'))"

text \<open>How many datagrams a burst may take: the caller's bound, the batch's room, the free slabs.\<close>

definition burst_budget :: "vec_pool \<Rightarrow> udp_frame frame_batch \<Rightarrow> usize \<Rightarrow> nat" where
  "burst_budget p out mx =
     min (min (unat mx) (unat (batch_cap out) - length (frames out))) (length (free_list p))"

lemma unat_min_word [simp]: "unat (min a b :: 'a::len word) = min (unat a) (unat b)"
  by (simp add: min_def word_le_nat_alt)

lemma burst_call_exhausted:
  assumes "free_list p = []" and "0 < min mx (batch_spare out)"
  shows "burst_call sys backend rf p lp out mx k =
    Some (Err (PoolExhausted (pool_in_use p) (pool_capacity p)), p, lp, out, k)"
proof -
  obtain m where m: "unat (min mx (batch_spare out)) = Suc m"
    using assms(2) by (metis gr0_conv_Suc unat_gt_0 word_gt_0)
  show ?thesis using assms(1) by (simp add: burst_call_def m burst_exhausted del: unat_min_word)
qed

lemma burst_call_spec:
  assumes "pool_ok p L" and "batch_ok out" and "fits_buffer rf"
    and "free_list p \<noteq> [] \<or> min mx (batch_spare out) = 0"
    and "reap rf (unat (slab_size p)) (burst_budget p out mx) k = (ds, e, k')"
  obtains p' fs where
    "burst_call sys backend rf p lp out mx k =
       Some (if stop_ok e then Ok (word_of_nat (length ds)) else Err (Io (the e)), p', bump_peer lp ds,
             out\<lparr>frames := frames out @ fs\<rparr>,
             if stop_ok e then record_recv_burst sys backend (word_of_nat (length ds)) (total_bytes ds) k' else k')"
    "frames_hold p' fs ds" "length fs = length ds" "pool_ok p' (L + mset (map frame_slot fs))"
    "slab_size p' = slab_size p" "pool_capacity p' = pool_capacity p"
    "\<And>sl. slab_index sl \<in># L \<Longrightarrow> slab_as_ref p' sl = slab_as_ref p sl"
proof -
  let ?m = "unat (min mx (batch_spare out))"
  have m: "?m \<le> unat (batch_spare out)" by simp
  have budget: "burst_budget p out mx = min ?m (length (free_list p))"
    by (simp add: burst_budget_def unat_batch_spare [OF assms(2)])
  have ne: "\<not> ((0 :: nat) = 0 \<and> 0 < ?m \<and> free_list p = [])"
    using assms(4) by (metis less_irrefl unsigned_0)
  from burst_spec [OF assms(1,2) m assms(3) ne assms(5) [unfolded budget], of 0 lp]
  obtain p' fs where r:
    "burst rf ?m 0 0 p lp out k = Some (if stop_ok e then Ok (length ds, total_bytes ds) else Err (Io (the e)),
       p', bump_peer lp ds, out\<lparr>frames := frames out @ fs\<rparr>, k')"
    "frames_hold p' fs ds" "length fs = length ds" "pool_ok p' (L + mset (map frame_slot fs))"
    "slab_size p' = slab_size p" "length (slabs p') = length (slabs p)"
    "\<forall>sl. slab_index sl \<in># L \<longrightarrow> slab_as_ref p' sl = slab_as_ref p sl"
    unfolding burst_outcome_def by auto
  have call: "burst_call sys backend rf p lp out mx k =
       Some (if stop_ok e then Ok (word_of_nat (length ds)) else Err (Io (the e)), p', bump_peer lp ds,
             out\<lparr>frames := frames out @ fs\<rparr>,
             if stop_ok e then record_recv_burst sys backend (word_of_nat (length ds)) (total_bytes ds) k' else k')"
    using r(1) by (simp add: burst_call_def del: unat_min_word)
  have cap: "pool_capacity p' = pool_capacity p" using r(6) by (simp add: pool_capacity_def)
  show ?thesis by (rule that [OF call r(2-5) cap]) (use r(7) in blast)
qed

text \<open>The pool-exhausted answer is given exactly on a full pool, and then nothing has happened.\<close>

lemma burst_call_exhausted_iff:
  assumes "pool_ok p L" and "batch_ok out" and "fits_buffer rf"
  shows "burst_call sys backend rf p lp out mx k = Some (Err (PoolExhausted i c), rest) \<longleftrightarrow>
    0 < min mx (batch_spare out) \<and> pool_in_use p = pool_capacity p
    \<and> i = pool_in_use p \<and> c = pool_capacity p \<and> rest = (p, lp, out, k)"
proof (cases "free_list p \<noteq> [] \<or> min mx (batch_spare out) = 0")
  case True
  obtain ds e k' where reap: "reap rf (unat (slab_size p)) (burst_budget p out mx) k = (ds, e, k')"
    by (metis prod_cases3)
  from True pool_full_iff [OF assms(1)]
  have no: "\<not> (0 < min mx (batch_spare out) \<and> pool_in_use p = pool_capacity p)" by (metis less_irrefl)
  show ?thesis
    by (rule burst_call_spec [OF assms True reap, of sys backend lp]) (use no in auto)
next
  case False
  then have empty: "free_list p = []" and "min mx (batch_spare out) \<noteq> 0" by blast+
  from this(2) have pos: "0 < min mx (batch_spare out)" by (simp only: word_gt_0)
  with burst_call_exhausted [OF empty pos, of sys backend rf lp k] empty pool_full_iff [OF assms(1)] show ?thesis by auto
qed

text \<open>A burst in terms of its frames: no panic, no reallocation, and never too many.\<close>

lemma burst_call_bounds:
  assumes "pool_ok p L" and "batch_ok out" and "fits_buffer rf"
  obtains r p' lp' fs k' where
    "burst_call sys backend rf p lp out mx k = Some (r, p', lp', out\<lparr>frames := frames out @ fs\<rparr>, k')"
    "length fs \<le> min (unat mx) (unat (batch_spare out))"
    "length fs \<le> length (free_list p)"
    "pool_ok p' (L + mset (map frame_slot fs))" "is_ok r \<longrightarrow> r = Ok (word_of_nat (length fs))"
    "unat (word_of_nat (length fs) :: usize) = length fs" "slab_size p' = slab_size p"
proof (cases "free_list p \<noteq> [] \<or> min mx (batch_spare out) = 0")
  case True
  obtain ds e k' where reap: "reap rf (unat (slab_size p)) (burst_budget p out mx) k = (ds, e, k')"
    by (metis prod_cases3)
  from reap_length [OF this] have le: "length ds \<le> burst_budget p out mx" by simp
  then have b: "length ds \<le> min (unat mx) (unat (batch_spare out))" "length ds \<le> length (free_list p)"
    by (simp_all add: burst_budget_def unat_batch_spare [OF assms(2)])
  have u: "unat (word_of_nat (length ds) :: usize) = length ds"
    using b(1) unat_usize_less [of mx] by (intro unat_word_of_nat_id) linarith
  show ?thesis
  proof (rule burst_call_spec [OF assms True reap, of sys backend lp])
    fix p' fs
    assume r: "burst_call sys backend rf p lp out mx k =
       Some (if stop_ok e then Ok (word_of_nat (length ds)) else Err (Io (the e)), p', bump_peer lp ds,
             out\<lparr>frames := frames out @ fs\<rparr>,
             if stop_ok e then record_recv_burst sys backend (word_of_nat (length ds)) (total_bytes ds) k' else k')"
      "length fs = length ds" "pool_ok p' (L + mset (map frame_slot fs))" "slab_size p' = slab_size p"
    show thesis by (rule that [OF r(1)]) (use r(2-4) b u in simp_all)
  qed
next
  case False
  then have empty: "free_list p = []" and "min mx (batch_spare out) \<noteq> 0" by blast+
  from this(2) have pos: "0 < min mx (batch_spare out)" by (simp only: word_gt_0)
  note full = burst_call_exhausted [OF empty pos, of sys backend rf lp k]
  show ?thesis by (rule that [of "Err (PoolExhausted (pool_in_use p) (pool_capacity p))" p lp "[]" k]) (use full assms(1) in simp_all)
qed

section \<open>A queue of datagrams behind the socket\<close>

text \<open>
  The documented behaviour of a nonblocking datagram socket while nothing new arrives: a
  receive takes the oldest queued datagram, cut to the buffer, or fails with \<open>WouldBlock\<close> when
  there is none; counting metrics does not touch the socket. \<open>pend\<close> reads the queue off the
  world.
\<close>

definition udp_queue :: "'k os \<Rightarrow> 'k recv_call \<Rightarrow> ('k \<Rightarrow> (bytes \<times> socket_addr) list) \<Rightarrow> bool" where
  "udp_queue sys rf pend \<longleftrightarrow>
     (\<forall>w k. case pend k of
        [] \<Rightarrow> \<exists>e k'. rf w k = (Err e, k') \<and> err_kind e = WouldBlock \<and> pend k' = []
      | (d, a) # rest \<Rightarrow> \<exists>k'. rf w k = (Ok (take w d, a), k') \<and> pend k' = rest)
     \<and> (\<forall>nm l v k. pend (counter_increment sys nm l v k) = pend k)"

lemma udp_queue_call:
  "udp_queue sys rf pend \<Longrightarrow>
     (case pend k of
        [] \<Rightarrow> \<exists>e k'. rf w k = (Err e, k') \<and> err_kind e = WouldBlock \<and> pend k' = []
      | (d, a) # rest \<Rightarrow> \<exists>k'. rf w k = (Ok (take w d, a), k') \<and> pend k' = rest)"
  unfolding udp_queue_def by (elim conjE) (rule spec, erule spec)

lemma udp_queue_empty:
  "udp_queue sys rf pend \<Longrightarrow> pend k = [] \<Longrightarrow> \<exists>e k'. rf w k = (Err e, k') \<and> err_kind e = WouldBlock \<and> pend k' = []"
  by (drule udp_queue_call [where k = k and w = w]) simp

lemma udp_queue_next:
  "udp_queue sys rf pend \<Longrightarrow> pend k = (d, a) # rest \<Longrightarrow> \<exists>k'. rf w k = (Ok (take w d, a), k') \<and> pend k' = rest"
  by (drule udp_queue_call [where k = k and w = w]) simp

lemma udp_queue_fits: "udp_queue sys rf pend \<Longrightarrow> fits_buffer rf"
  unfolding fits_buffer_def
proof (intro allI impI)
  fix w k d a k'
  assume q: "udp_queue sys rf pend" and r: "rf w k = (Ok (d, a), k')"
  show "length d \<le> w"
  proof (cases "pend k")
    case Nil
    from udp_queue_empty [OF q this, of w] r show ?thesis by simp
  next
    case (Cons x rest)
    obtain d' a' where "x = (d', a')" by force
    with udp_queue_next [OF q, of k d' a' rest w] Cons r show ?thesis by auto
  qed
qed

lemma udp_queue_record [simp]:
  "udp_queue sys rf pend \<Longrightarrow> pend (record_recv_burst sys backend n t k) = pend k"
  by (simp add: udp_queue_def record_recv_burst_def)

abbreviation landed :: "nat \<Rightarrow> bytes \<times> socket_addr \<Rightarrow> bytes \<times> socket_addr" where
  "landed w x \<equiv> (take w (fst x), snd x)"

lemma reap_queue:
  assumes "udp_queue sys rf pend" and "reap rf w c k = (ds, e, k')"
  shows "ds = map (landed w) (take c (pend k)) \<and> pend k' = drop c (pend k) \<and> stop_ok e"
  using assms(2)
proof (induction c arbitrary: k ds)
  case 0
  then show ?case by (simp add: stop_ok_def)
next
  case (Suc c)
  show ?case
  proof (cases "pend k")
    case Nil
    from udp_queue_empty [OF assms(1) this, of w] obtain e' k1 where
      "rf w k = (Err e', k1)" "err_kind e' = WouldBlock" "pend k1 = []" by blast
    with Suc.prems Nil show ?thesis by (auto simp: stop_ok_def)
  next
    case (Cons x rest)
    obtain d a where x: "x = (d, a)" by force
    with udp_queue_next [OF assms(1), of k d a rest w] Cons obtain k1 where
      k1: "rf w k = (Ok (take w d, a), k1)" "pend k1 = rest" by auto
    with Suc.prems obtain ds' where ds': "ds = (take w d, a) # ds'" "reap rf w c k1 = (ds', e, k')"
      by (auto split: prod.splits)
    from Suc.IH [OF ds'(2)] ds'(1) k1(2) Cons x show ?thesis by simp
  qed
qed

lemma burst_call_queue:
  assumes "pool_ok p L" and "batch_ok out" and q: "udp_queue sys rf pend"
    and "size L < unat (pool_capacity p)"
    and n: "n = min (min (unat mx) (unat (batch_spare out))) (min (unat (pool_capacity p) - size L) (length (pend k)))"
  obtains p' lp' fs k' where
    "burst_call sys backend rf p lp out mx k = Some (Ok (word_of_nat n), p', lp', out\<lparr>frames := frames out @ fs\<rparr>, k')"
    "map (frame_payload p') fs = map Some (take n (map (take (unat (slab_size p)) \<circ> fst) (pend k)))"
    "pool_ok p' (L + mset (map frame_slot fs))" "slab_size p' = slab_size p"
    "pool_capacity p' = pool_capacity p" "pend k' = drop n (pend k)"
proof -
  obtain ds e k1 where reap: "reap rf (unat (slab_size p)) (burst_budget p out mx) k = (ds, e, k1)"
    by (metis prod_cases3)
  have free: "length (free_list p) = unat (pool_capacity p) - size L"
    using pool_ok_size [OF assms(1)] pool_ok_capacity [OF assms(1)] by simp
  have n': "n = min (burst_budget p out mx) (length (pend k))"
    using n free by (simp add: burst_budget_def unat_batch_spare [OF assms(2)] min.assoc)
  from reap_queue [OF q reap] have ds: "ds = map (landed (unat (slab_size p))) (take (burst_budget p out mx) (pend k))"
    "pend k1 = drop (burst_budget p out mx) (pend k)" "stop_ok e" by simp_all
  have cut: "take (burst_budget p out mx) (pend k) = take n (pend k)"
    "drop (burst_budget p out mx) (pend k) = drop n (pend k)"
    unfolding n' by (simp_all add: min_def)
  have len: "length ds = n" unfolding ds(1) by (simp add: n' min.commute)
  have ne: "free_list p \<noteq> [] \<or> min mx (batch_spare out) = 0" using assms(4) free by auto
  show ?thesis
  proof (rule burst_call_spec [OF assms(1,2) udp_queue_fits [OF q] ne reap, of sys backend lp])
    fix p' fs
    assume r: "burst_call sys backend rf p lp out mx k =
       Some (if stop_ok e then Ok (word_of_nat (length ds)) else Err (Io (the e)), p', bump_peer lp ds,
             out\<lparr>frames := frames out @ fs\<rparr>,
             if stop_ok e then record_recv_burst sys backend (word_of_nat (length ds)) (total_bytes ds) k1 else k1)"
      "frames_hold p' fs ds" "pool_ok p' (L + mset (map frame_slot fs))"
      "slab_size p' = slab_size p" "pool_capacity p' = pool_capacity p"
    have "map (frame_payload p') fs = map (fst \<circ> (\<lambda>f. (frame_payload p' f, uf_peer f))) fs" by simp
    also have "\<dots> = map fst (map (\<lambda>(d, a). (Some d, a)) ds)"
      using r(2) unfolding frames_hold_def by (metis map_map)
    also have "\<dots> = map Some (take n (map (take (unat (slab_size p)) \<circ> fst) (pend k)))"
      unfolding ds(1) cut by (simp add: take_map)
    finally have pay: "map (frame_payload p') fs = map Some (take n (map (take (unat (slab_size p)) \<circ> fst) (pend k)))" .
    show thesis
      by (rule that [of p' "bump_peer lp ds" fs "record_recv_burst sys backend (word_of_nat n) (total_bytes ds) k1"])
        (use r pay ds(2,3) len q cut(2) in simp_all)
  qed
qed

end
