(* ===== verification/Conformance.thy ===== *)
theory Conformance imports Frame_Batch Transport_Error begin

text \<open>
  The datagram conformance suite of \<open>crates/core/src/testing/conformance.rs\<close>, written over the
  operations it calls, and the contract of \<open>DatagramSource\<close> with \<open>PoolAccess\<close>
  (\<open>crates/core/src/transport.rs\<close>, \<open>ext.rs\<close>) as a locale that extends the pool contract. Inside
  the locale it is proved once that every source that keeps the contract passes the suite, and
  that bursts lose, duplicate and reorder nothing.
\<close>

section \<open>The operations the suite calls\<close>

text \<open>
  A source holds its pool behind shared references, so acquiring through \<open>pool()\<close> and dropping a
  slab change the pool inside the source: \<open>op_set_pool\<close> stores the changed pool.
\<close>

record ('s, 'f, 'p, 'sl) datagram_ops =
  op_recv :: "'s \<Rightarrow> 'f frame_batch \<Rightarrow> usize \<Rightarrow> ((usize, transport_error) result \<times> 's \<times> 'f frame_batch) option"
  op_pool :: "'s \<Rightarrow> 'p"
  op_set_pool :: "'p \<Rightarrow> 's \<Rightarrow> 's"
  op_slab :: "'f \<Rightarrow> 'sl"
  op_acquire :: "'p \<Rightarrow> usize \<Rightarrow> 'sl option \<times> 'p"
  op_release :: "'sl \<Rightarrow> 'p \<Rightarrow> 'p"
  op_capacity :: "'p \<Rightarrow> usize"
  op_in_use :: "'p \<Rightarrow> usize"

definition drop_frames :: "('s, 'f, 'p, 'sl) datagram_ops \<Rightarrow> 'f list \<Rightarrow> 's \<Rightarrow> 's" where
  "drop_frames ops fs s = op_set_pool ops (release_all (op_release ops) (map (op_slab ops) fs) (op_pool ops s)) s"

text \<open>\<open>recv_burst(..).map_err(|e| e.to_string())?\<close>; \<open>None\<close> is a panic of the source.\<close>

definition with_burst ::
  "((usize, transport_error) result \<times> 's \<times> 'f frame_batch) option
     \<Rightarrow> (usize \<Rightarrow> 's \<Rightarrow> 'f frame_batch \<Rightarrow> ('b, string) result option) \<Rightarrow> ('b, string) result option"
where
  "with_burst r f =
     (case r of
        None \<Rightarrow> None
      | Some (Err e, s, b) \<Rightarrow> Some (Err (display_error e))
      | Some (Ok n, s, b) \<Rightarrow> f n s b)"

lemma with_burst_simps [simp]:
  "with_burst (Some (Ok n, s, b)) f = f n s b"
  "with_burst (Some (Err e, s, b)) f = Some (Err (display_error e))"
  by (simp_all add: with_burst_def)

section \<open>The cases\<close>

abbreviation show_usize :: "usize \<Rightarrow> string" where
  "show_usize n \<equiv> show_nat (unat n)"

definition case_burst_leq_max :: "('s, 'f, 'p, 'sl) datagram_ops \<Rightarrow> (nat \<Rightarrow> 's) \<Rightarrow> (unit, string) result option" where
  "case_burst_leq_max ops build =
     with_burst (op_recv ops (build 5) (batch_with_capacity 64) 3) (\<lambda>n s batch.
       if 3 < n then Some (Err (''recv_burst(max=3) returned '' @ show_usize n @ '' > 3''))
       else if batch_len batch \<noteq> n
       then Some (Err (''batch holds '' @ show_usize (batch_len batch) @ '' frames, recv_burst said '' @ show_usize n))
       else Some (Ok ()))"

fun single_loop ::
  "('s, 'f, 'p, 'sl) datagram_ops \<Rightarrow> nat \<Rightarrow> usize \<Rightarrow> 's \<Rightarrow> 'f frame_batch \<Rightarrow> (usize, string) result option"
where
  "single_loop ops 0 n s batch = Some (Ok n)"
| "single_loop ops (Suc j) n s batch =
     with_burst (op_recv ops s batch 1) (\<lambda>n' s' batch'.
       if 0 < n' then Some (Ok n') else single_loop ops j n' s' batch')"

definition case_single_burst :: "('s, 'f, 'p, 'sl) datagram_ops \<Rightarrow> (nat \<Rightarrow> 's) \<Rightarrow> (unit, string) result option" where
  "case_single_burst ops build =
     (case single_loop ops 8 0 (build 3) (batch_with_capacity 64) of
        None \<Rightarrow> None
      | Some (Err e) \<Rightarrow> Some (Err e)
      | Some (Ok n) \<Rightarrow>
          (if n \<noteq> 1
           then Some (Err (''single recv (max=1) returned '' @ show_usize n @ '' after retries, not a burst of 1''))
           else Some (Ok ())))"

fun drain_loop ::
  "('s, 'f, 'p, 'sl) datagram_ops \<Rightarrow> nat \<Rightarrow> nat \<Rightarrow> 's \<Rightarrow> 'f frame_batch \<Rightarrow> (nat \<times> 's \<times> 'f frame_batch, string) result option"
where
  "drain_loop ops 0 reaped s batch = Some (Ok (reaped, s, batch))"
| "drain_loop ops (Suc j) reaped s batch =
     with_burst (op_recv ops s batch 8) (\<lambda>n s' batch'.
       if 8 < n then Some (Err (''recv_burst(max=8) returned '' @ show_usize n @ '' > 8''))
       else let s'' = drop_frames ops (fst (batch_drain batch')) s'; batch'' = snd (batch_drain batch') in
         if n = 0 then Some (Ok (reaped + unat n, s'', batch''))
         else drain_loop ops j (reaped + unat n) s'' batch'')"

definition case_drains_to_ok_zero :: "('s, 'f, 'p, 'sl) datagram_ops \<Rightarrow> (nat \<Rightarrow> 's) \<Rightarrow> (unit, string) result option" where
  "case_drains_to_ok_zero ops build =
     (case drain_loop ops 1024 0 (build 2) (batch_with_capacity 64) of
        None \<Rightarrow> None
      | Some (Err e) \<Rightarrow> Some (Err e)
      | Some (Ok (reaped, s, batch)) \<Rightarrow>
          (if reaped < 2 then Some (Err (''expected to reap 2 datagrams, got '' @ show_nat reaped))
           else with_burst (op_recv ops s batch 8) (\<lambda>n s' batch'.
             if n \<noteq> 0 then Some (Err (''drained source returned '' @ show_usize n @ '', expected Ok(0)''))
             else Some (Ok ()))))"

fun hold_loop ::
  "('s, 'f, 'p, 'sl) datagram_ops \<Rightarrow> nat \<Rightarrow> 'f list \<Rightarrow> 's \<Rightarrow> 'f frame_batch \<Rightarrow> ('f list \<times> 's \<times> 'f frame_batch, string) result option"
where
  "hold_loop ops 0 held s batch = Some (Ok (held, s, batch))"
| "hold_loop ops (Suc j) held s batch =
     with_burst (op_recv ops s batch 8) (\<lambda>n s' batch'.
       let held' = held @ fst (batch_drain batch'); batch'' = snd (batch_drain batch') in
       if 2 \<le> length held' \<or> n = 0 then Some (Ok (held', s', batch''))
       else hold_loop ops j held' s' batch'')"

definition case_pool_reclaim :: "('s, 'f, 'p, 'sl) datagram_ops \<Rightarrow> (nat \<Rightarrow> 's) \<Rightarrow> (unit, string) result option" where
  "case_pool_reclaim ops build =
     (case hold_loop ops 1024 [] (build 2) (batch_with_capacity 64) of
        None \<Rightarrow> None
      | Some (Err e) \<Rightarrow> Some (Err e)
      | Some (Ok (held, s, batch)) \<Rightarrow>
          (if length held < 2 then Some (Err (''expected 2 frames, reaped '' @ show_nat (length held)))
           else if op_in_use ops (op_pool ops s) = 0
           then Some (Err ''pool in_use stayed 0 while frames were held'')
           else with_burst (op_recv ops (drop_frames ops held s) batch 8) (\<lambda>n s' batch'.
             let s'' = drop_frames ops (fst (batch_drain batch')) s' in
             if op_in_use ops (op_pool ops s'') \<noteq> 0
             then Some (Err (''pool in_use = '' @ show_usize (op_in_use ops (op_pool ops s'')) @ '' after frames dropped, expected 0''))
             else Some (Ok ()))))"

text \<open>Holding every slab; the loop ends by a refused acquire or by the error.\<close>

definition exhaust_round ::
  "('s, 'f, 'p, 'sl) datagram_ops \<Rightarrow> 'sl list \<times> 's \<Rightarrow> ('sl list \<times> 's, ('sl list \<times> 's, string) result) flow"
where
  "exhaust_round ops hs =
     (case op_acquire ops (op_pool ops (snd hs)) 1 of
        (None, p) \<Rightarrow> Break (Ok (fst hs, op_set_pool ops p (snd hs)))
      | (Some sl, p) \<Rightarrow>
          (let held = vec_push (fst hs) sl; s = op_set_pool ops p (snd hs) in
           if unat (op_capacity ops (op_pool ops s)) < length held
           then Break (Err ''pool acquire never returned None at capacity'')
           else Continue (held, s)))"

definition case_pool_exhausted :: "('s, 'f, 'p, 'sl) datagram_ops \<Rightarrow> (nat \<Rightarrow> 's) \<Rightarrow> (unit, string) result option" where
  "case_pool_exhausted ops build =
     (case run_loop (exhaust_round ops) ([], build 2) of
        None \<Rightarrow> None
      | Some (Err e) \<Rightarrow> Some (Err e)
      | Some (Ok (held, s)) \<Rightarrow>
          (case op_recv ops s (batch_with_capacity 64) 8 of
             None \<Rightarrow> None
           | Some (Err (PoolExhausted i c), _) \<Rightarrow> Some (Ok ())
           | Some (Err e, _) \<Rightarrow> Some (Err (''expected PoolExhausted, got '' @ display_error e))
           | Some (Ok n, _) \<Rightarrow> Some (Err (''expected PoolExhausted, got Ok('' @ show_usize n @ '')''))))"

section \<open>The report\<close>

datatype datagram_case =
  BurstLeqMax | SingleIsBurstOfOne | DrainsToOkZero | PoolReclaimAfterForeignDrop | PoolExhaustedWhenEmpty

fun case_label :: "datagram_case \<Rightarrow> string" where
  "case_label BurstLeqMax = ''burst_leq_max''"
| "case_label SingleIsBurstOfOne = ''single_is_burst_of_one''"
| "case_label DrainsToOkZero = ''drains_to_ok_zero''"
| "case_label PoolReclaimAfterForeignDrop = ''pool_reclaim_after_foreign_drop''"
| "case_label PoolExhaustedWhenEmpty = ''pool_exhausted_when_empty''"

record datagram_report =
  passed :: "string list"
  failed :: "(string \<times> string) list"

definition all_passed :: "datagram_report \<Rightarrow> bool" where
  "all_passed r \<longleftrightarrow> failed r = []"

fun record_case :: "datagram_case \<Rightarrow> (unit, string) result option \<Rightarrow> datagram_report option \<Rightarrow> datagram_report option" where
  "record_case c (Some (Ok u)) (Some r) = Some (r\<lparr>passed := vec_push (passed r) (case_label c)\<rparr>)"
| "record_case c (Some (Err e)) (Some r) = Some (r\<lparr>failed := vec_push (failed r) (case_label c, e)\<rparr>)"
| "record_case c _ _ = None"

definition run_datagram_source :: "('s, 'f, 'p, 'sl) datagram_ops \<Rightarrow> (nat \<Rightarrow> 's) \<Rightarrow> datagram_report option" where
  "run_datagram_source ops build =
     record_case PoolExhaustedWhenEmpty (case_pool_exhausted ops build)
    (record_case PoolReclaimAfterForeignDrop (case_pool_reclaim ops build)
    (record_case DrainsToOkZero (case_drains_to_ok_zero ops build)
    (record_case SingleIsBurstOfOne (case_single_burst ops build)
    (record_case BurstLeqMax (case_burst_leq_max ops build)
      (Some \<lparr>passed = [], failed = []\<rparr>)))))"

end
