(* ===== verification/Datagram_Source.thy ===== *)
theory Datagram_Source imports Conformance begin

text \<open>
  The contract of a datagram source (\<open>DatagramSource\<close> with \<open>PoolAccess\<close>) as a locale over the
  suite's operations, and what every client of it can rely on: the conformance cases, and that
  a sequence of bursts delivers the queued datagrams in order, each once.

  \<open>src s L ds\<close> says that \<open>s\<close> is a source whose live slabs occupy the slots \<open>L\<close> and whose next
  datagrams, as they would land, are \<open>ds\<close>, with nothing else arriving.
\<close>

section \<open>Receiving with bursts of given sizes\<close>

text \<open>Each burst's batch is drained, its payloads are read and its frames are dropped.\<close>

fun pump ::
  "('s, 'f, 'p, 'sl) datagram_ops \<Rightarrow> ('s \<Rightarrow> 'f \<Rightarrow> bytes option) \<Rightarrow> usize list \<Rightarrow> 's \<Rightarrow> 'f frame_batch
     \<Rightarrow> (bytes option list \<times> 's) option"
where
  "pump ops pay [] s b = Some ([], s)"
| "pump ops pay (mx # mxs) s b =
     (case op_recv ops s b mx of
        Some (Ok n, s', b') \<Rightarrow>
          (case pump ops pay mxs (drop_frames ops (fst (batch_drain b')) s') (snd (batch_drain b')) of
             None \<Rightarrow> None
           | Some (xs, t) \<Rightarrow> Some (map (pay s') (fst (batch_drain b')) @ xs, t))
      | _ \<Rightarrow> None)"

section \<open>The contract\<close>

locale datagram_source =
  buffer_pool "op_acquire ops" "op_release ops" "op_capacity ops" "op_in_use ops" fits slot inv
  for ops :: "('s, 'f, 'p, 'sl) datagram_ops"
    and fits :: "'p \<Rightarrow> usize \<Rightarrow> bool"
    and slot :: "'sl \<Rightarrow> 'i"
    and inv :: "'p \<Rightarrow> 'i multiset \<Rightarrow> bool" +
  fixes payload_of :: "'s \<Rightarrow> 'f \<Rightarrow> bytes option"
    and src :: "'s \<Rightarrow> 'i multiset \<Rightarrow> bytes list \<Rightarrow> bool"
  assumes src_inv: "src s L ds \<Longrightarrow> inv (op_pool ops s) L"
    and src_set_pool: "src s L ds \<Longrightarrow> inv p L' \<Longrightarrow> op_capacity ops p = op_capacity ops (op_pool ops s) \<Longrightarrow>
      fits p = fits (op_pool ops s) \<Longrightarrow> src (op_set_pool ops p s) L' ds \<and> op_pool ops (op_set_pool ops p s) = p"
    and recv_exhausted: "src s L ds \<Longrightarrow> batch_ok b \<Longrightarrow> size L = unat (op_capacity ops (op_pool ops s)) \<Longrightarrow>
      ds \<noteq> [] \<Longrightarrow> 0 < min mx (batch_spare b) \<Longrightarrow>
      op_recv ops s b mx =
        Some (Err (PoolExhausted (op_in_use ops (op_pool ops s)) (op_capacity ops (op_pool ops s))), s, b)"
    and recv_reaps: "src s L ds \<Longrightarrow> batch_ok b \<Longrightarrow> size L < unat (op_capacity ops (op_pool ops s)) \<Longrightarrow>
      n = min (min (unat mx) (unat (batch_spare b)))
              (min (unat (op_capacity ops (op_pool ops s)) - size L) (length ds)) \<Longrightarrow>
      \<exists>s' fs. op_recv ops s b mx = Some (Ok (word_of_nat n), s', b\<lparr>frames := frames b @ fs\<rparr>)
        \<and> map (payload_of s') fs = map Some (take n ds)
        \<and> src s' (L + mset (map (\<lambda>f. slot (op_slab ops f)) fs)) (drop n ds)
        \<and> op_capacity ops (op_pool ops s') = op_capacity ops (op_pool ops s)
        \<and> fits (op_pool ops s') = fits (op_pool ops s)"
begin

abbreviation cap_of :: "'s \<Rightarrow> nat" where
  "cap_of s \<equiv> unat (op_capacity ops (op_pool ops s))"

abbreviation slots_of :: "'f list \<Rightarrow> 'i multiset" where
  "slots_of fs \<equiv> mset (map (\<lambda>f. slot (op_slab ops f)) fs)"

lemma src_in_use: "src s L ds \<Longrightarrow> unat (op_in_use ops (op_pool ops s)) = size L"
  by (rule in_use_live [OF src_inv])

lemma src_bound: "src s L ds \<Longrightarrow> size L \<le> cap_of s"
  by (rule live_bound [OF src_inv])

lemma src_drop_frames:
  assumes "src s (L + slots_of fs) ds"
  shows "src (drop_frames ops fs s) L ds \<and> cap_of (drop_frames ops fs s) = cap_of s
    \<and> fits (op_pool ops (drop_frames ops fs s)) = fits (op_pool ops s)"
proof -
  let ?p = "release_all (op_release ops) (map (op_slab ops) fs) (op_pool ops s)"
  have "inv (op_pool ops s) (L + mset (map slot (map (op_slab ops) fs)))"
    using src_inv [OF assms] by (simp add: comp_def)
  from release_all_spec [OF this] have p: "inv ?p L"
    "op_capacity ops ?p = op_capacity ops (op_pool ops s)" "fits ?p = fits (op_pool ops s)" by simp_all
  from src_set_pool [OF assms p] p(2,3) show ?thesis by (simp add: drop_frames_def)
qed

text \<open>One burst with room in the batch, with the count as it is reported.\<close>

lemma burst_step:
  assumes "src s L ds" and "batch_ok b" and "size L < cap_of s"
  obtains n s' fs where
    "n = min (min (unat mx) (unat (batch_spare b))) (min (cap_of s - size L) (length ds))"
    "op_recv ops s b mx = Some (Ok (word_of_nat n), s', b\<lparr>frames := frames b @ fs\<rparr>)"
    "map (payload_of s') fs = map Some (take n ds)" "length fs = n"
    "src s' (L + slots_of fs) (drop n ds)" "cap_of s' = cap_of s"
    "unat (word_of_nat n :: usize) = n" "fits (op_pool ops s') = fits (op_pool ops s)"
proof -
  let ?n = "min (min (unat mx) (unat (batch_spare b))) (min (cap_of s - size L) (length ds))"
  from recv_reaps [OF assms refl, of mx] obtain s' fs where r:
    "op_recv ops s b mx = Some (Ok (word_of_nat ?n), s', b\<lparr>frames := frames b @ fs\<rparr>)"
    "map (payload_of s') fs = map Some (take ?n ds)" "src s' (L + slots_of fs) (drop ?n ds)"
    "op_capacity ops (op_pool ops s') = op_capacity ops (op_pool ops s)"
    "fits (op_pool ops s') = fits (op_pool ops s)" by blast
  have len: "length fs = ?n" using arg_cong [OF r(2), of length] by simp
  have "?n < 2 ^ 64" using unat_usize_less [of mx] by linarith
  then have u: "unat (word_of_nat ?n :: usize) = ?n" by (rule unat_word_of_nat_id)
  show ?thesis by (rule that [OF refl r(1,2) len r(3)]) (use r(4,5) u in simp_all)
qed

lemma fresh_burst:
  assumes "src s {#} ds" and "batch_ok b" and "0 < cap_of s"
  obtains n s' fs where
    "n = min (min (unat mx) (unat (batch_spare b))) (min (cap_of s) (length ds))"
    "op_recv ops s b mx = Some (Ok (word_of_nat n), s', b\<lparr>frames := frames b @ fs\<rparr>)"
    "map (payload_of s') fs = map Some (take n ds)" "length fs = n"
    "src s' (slots_of fs) (drop n ds)" "cap_of s' = cap_of s"
    "unat (word_of_nat n :: usize) = n"
    "src (drop_frames ops fs s') {#} (drop n ds)" "cap_of (drop_frames ops fs s') = cap_of s"
proof -
  have lt: "size ({#} :: 'i multiset) < cap_of s" using assms(3) by simp
  show ?thesis
  proof (rule burst_step [OF assms(1,2) lt, of mx])
    fix n s' fs
    assume st: "n = min (min (unat mx) (unat (batch_spare b))) (min (cap_of s - size ({#} :: 'i multiset)) (length ds))"
      "op_recv ops s b mx = Some (Ok (word_of_nat n), s', b\<lparr>frames := frames b @ fs\<rparr>)"
      "map (payload_of s') fs = map Some (take n ds)" "length fs = n"
      "src s' ({#} + slots_of fs) (drop n ds)" "cap_of s' = cap_of s"
      "unat (word_of_nat n :: usize) = n"
    have d: "src (drop_frames ops fs s') {#} (drop n ds)" "cap_of (drop_frames ops fs s') = cap_of s"
      using src_drop_frames [OF st(5)] st(6) by simp_all
    have n: "n = min (min (unat mx) (unat (batch_spare b))) (min (cap_of s) (length ds))"
      using st(1) by (simp only: size_empty diff_zero)
    have live: "src s' (slots_of fs) (drop n ds)" using st(5) by (simp only: add_0)
    show thesis by (rule that [OF n st(2-4) live st(6,7) d])
  qed
qed

section \<open>Bursts deliver the queue in order\<close>

lemma pump_delivers:
  assumes "src s {#} ds" and "batch_ok b" and "frames b = []" and "0 < cap_of s"
  shows "\<exists>s'. pump ops payload_of mxs s b =
      Some (map Some (take (sum_list (map (\<lambda>mx. min (min (unat mx) (unat (batch_cap b))) (cap_of s)) mxs)) ds), s')
    \<and> src s' {#} (drop (sum_list (map (\<lambda>mx. min (min (unat mx) (unat (batch_cap b))) (cap_of s)) mxs)) ds)"
  using assms
proof (induction mxs arbitrary: s ds b)
  case Nil
  then show ?case by simp
next
  case (Cons mx mxs)
  let ?m = "min (min (unat mx) (unat (batch_cap b))) (cap_of s)"
  obtain n s' fs where st:
    "n = min (min (unat mx) (unat (batch_spare b))) (min (cap_of s) (length ds))"
    "op_recv ops s b mx = Some (Ok (word_of_nat n), s', b\<lparr>frames := frames b @ fs\<rparr>)"
    "map (payload_of s') fs = map Some (take n ds)"
    "src (drop_frames ops fs s') {#} (drop n ds)" "cap_of (drop_frames ops fs s') = cap_of s"
    by (rule fresh_burst [OF Cons.prems(1,2,4)]) (rule that)
  have n: "n = min ?m (length ds)"
    using st(1) unat_batch_spare [OF Cons.prems(2)] Cons.prems(3) by simp
  let ?b = "b\<lparr>frames := fs\<rparr>"
  from Cons.IH [OF st(4), of "snd (batch_drain ?b)"] Cons.prems(4) st(5)
  obtain t where t: "pump ops payload_of mxs (drop_frames ops fs s') (snd (batch_drain ?b)) =
      Some (map Some (take (sum_list (map (\<lambda>mx. min (min (unat mx) (unat (batch_cap b))) (cap_of s)) mxs)) (drop n ds)), t)"
    "src t {#} (drop (sum_list (map (\<lambda>mx. min (min (unat mx) (unat (batch_cap b))) (cap_of s)) mxs)) (drop n ds))"
    by (auto simp: batch_drain_def batch_ok_def)
  have cut: "take n ds = take ?m ds" "drop n ds = drop ?m ds" using n by (auto simp: min_def)
  show ?case
    using st(2,3) t Cons.prems(3)
    by (auto simp: batch_drain_def cut take_add add.commute simp flip: map_append)
qed

section \<open>The conformance cases\<close>

lemma passes_burst_leq_max:
  assumes "src (build 5) {#} ds" and "0 < cap_of (build 5)"
  shows "case_burst_leq_max ops build = Some (Ok ())"
proof -
  obtain n s' fs where st:
    "n = min (min (unat (3 :: usize)) (unat (batch_spare (batch_with_capacity 64 :: 'f frame_batch))))
      (min (cap_of (build 5)) (length ds))"
    "op_recv ops (build 5) (batch_with_capacity 64) 3 = Some (Ok (word_of_nat n), s',
      batch_with_capacity 64\<lparr>frames := frames (batch_with_capacity 64) @ fs\<rparr>)"
    "length fs = n" "unat (word_of_nat n :: usize) = n"
    by (rule fresh_burst [OF assms(1) batch_ok_new [of 64] assms(2), of 3]) (rule that)
  have "\<not> 3 < (word_of_nat n :: usize)" using st(1,4) by (simp add: word_less_nat_alt)
  with st(2,3) show ?thesis by (simp add: case_burst_leq_max_def batch_len_def)
qed

lemma passes_single_burst:
  assumes "src (build 3) {#} ds" and "0 < cap_of (build 3)" and "ds \<noteq> []"
  shows "case_single_burst ops build = Some (Ok ())"
proof -
  obtain n s' fs where st:
    "n = min (min (unat (1 :: usize)) (unat (batch_spare (batch_with_capacity 64 :: 'f frame_batch))))
      (min (cap_of (build 3)) (length ds))"
    "op_recv ops (build 3) (batch_with_capacity 64) 1 = Some (Ok (word_of_nat n), s',
      batch_with_capacity 64\<lparr>frames := frames (batch_with_capacity 64) @ fs\<rparr>)"
    by (rule fresh_burst [OF assms(1) batch_ok_new [of 64] assms(2), of 1]) (rule that)
  have "1 \<le> length ds" "1 \<le> cap_of (build 3)" using assms(2,3) by (simp_all add: Suc_le_eq)
  then have "min (cap_of (build 3)) (length ds) \<ge> 1" by simp
  moreover have "min (unat (1 :: usize)) (unat (batch_spare (batch_with_capacity 64 :: 'f frame_batch))) = 1"
    by (simp add: unat_batch_spare)
  ultimately have "n = 1" using st(1) by (simp only: min_absorb1)
  with st(2) show ?thesis by (simp add: case_single_burst_def eval_nat_numeral)
qed

lemma drain_step:
  assumes "src s {#} ds" and "0 < cap_of s" and "frames b = []" and "batch_cap b = 64"
  obtains n s' fs where "n = min 8 (min (cap_of s) (length ds))"
    "op_recv ops s b 8 = Some (Ok (word_of_nat n), s', b\<lparr>frames := fs\<rparr>)" "length fs = n"
    "unat (word_of_nat n :: usize) = n"
    "src s' (slots_of fs) (drop n ds)" "cap_of s' = cap_of s"
    "src (drop_frames ops fs s') {#} (drop n ds)" "cap_of (drop_frames ops fs s') = cap_of s"
proof -
  have ok: "batch_ok b" using assms(3) by (simp add: batch_ok_def)
  show ?thesis
  proof (rule fresh_burst [OF assms(1) ok assms(2), of 8])
    fix n s' fs
    assume st: "n = min (min (unat (8 :: usize)) (unat (batch_spare b))) (min (cap_of s) (length ds))"
      "op_recv ops s b 8 = Some (Ok (word_of_nat n), s', b\<lparr>frames := frames b @ fs\<rparr>)" "length fs = n"
      "src s' (slots_of fs) (drop n ds)" "cap_of s' = cap_of s" "unat (word_of_nat n :: usize) = n"
      "src (drop_frames ops fs s') {#} (drop n ds)" "cap_of (drop_frames ops fs s') = cap_of s"
    have "unat (batch_spare b) = 64" using unat_batch_spare [OF ok] assms(3,4) by simp
    with st(1) have n: "n = min 8 (min (cap_of s) (length ds))" by simp
    have recv: "op_recv ops s b 8 = Some (Ok (word_of_nat n), s', b\<lparr>frames := fs\<rparr>)"
      using st(2) assms(3) by simp
    show thesis by (rule that [OF n recv st(3,6,4,5,7,8)])
  qed
qed

text \<open>The drain loop ends with everything reaped, in fewer rounds than there are datagrams.\<close>

lemma drain_loop_all:
  assumes "src s {#} ds" and "0 < cap_of s" and "frames b = []" and "batch_cap b = 64" and "length ds < j"
  shows "\<exists>s'. drain_loop ops j reaped s b = Some (Ok (reaped + length ds, s', b))
    \<and> src s' {#} [] \<and> cap_of s' = cap_of s"
  using assms
proof (induction j arbitrary: s ds reaped)
  case 0
  then show ?case by simp
next
  case (Suc j)
  obtain n s' fs where st: "n = min 8 (min (cap_of s) (length ds))"
    "op_recv ops s b 8 = Some (Ok (word_of_nat n), s', b\<lparr>frames := fs\<rparr>)" "length fs = n"
    "unat (word_of_nat n :: usize) = n" "src (drop_frames ops fs s') {#} (drop n ds)"
    "cap_of (drop_frames ops fs s') = cap_of s"
    by (rule drain_step [OF Suc.prems(1-4)]) (rule that)
  have le: "\<not> 8 < (word_of_nat n :: usize)" using st(1,4) by (simp add: word_less_nat_alt)
  have z: "(word_of_nat n :: usize) = 0 \<longleftrightarrow> n = 0" using st(4) by (simp flip: unat_eq_0)
  have b: "b\<lparr>frames := []\<rparr> = b" using Suc.prems(3) by (cases b) simp
  show ?case
  proof (cases "n = 0")
    case True
    with st(1) Suc.prems(2) have "ds = []" by (auto simp: min_def split: if_splits)
    with True st(2,5,6) le z b show ?thesis by (simp add: batch_drain_def Let_def)
  next
    case False
    have n: "n \<le> length ds" using st(1) by simp
    have left: "length (drop n ds) < j" "reaped + n + length (drop n ds) = reaped + length ds"
      using n False Suc.prems(5) by simp_all
    have cap: "0 < cap_of (drop_frames ops fs s')" using st(6) Suc.prems(2) by simp
    from Suc.IH [OF st(5) cap Suc.prems(3,4) left(1), of "reaped + n"] left(2) st(6)
    obtain t where "drain_loop ops j (reaped + n) (drop_frames ops fs s') b = Some (Ok (reaped + length ds, t, b))"
      "src t {#} []" "cap_of t = cap_of s" by auto
    with False st(2,4) le z b show ?thesis by (simp add: batch_drain_def Let_def)
  qed
qed

lemma passes_drains_to_ok_zero:
  assumes "src (build 2) {#} ds" and "0 < cap_of (build 2)" and "2 \<le> length ds" and "length ds < 1024"
  shows "case_drains_to_ok_zero ops build = Some (Ok ())"
proof -
  let ?b = "batch_with_capacity 64 :: 'f frame_batch"
  obtain s where s: "drain_loop ops 1024 0 (build 2) ?b = Some (Ok (length ds, s, ?b))"
    "src s {#} []" "cap_of s = cap_of (build 2)"
    using drain_loop_all [OF assms(1,2) frames_new(1) frames_new(2) assms(4), of 0] by auto
  have cap: "0 < cap_of s" using s(3) assms(2) by simp
  obtain n s' fs where st: "n = min 8 (min (cap_of s) (length ([] :: bytes list)))"
    "op_recv ops s ?b 8 = Some (Ok (word_of_nat n), s', ?b\<lparr>frames := fs\<rparr>)"
    by (rule drain_step [OF s(2) cap frames_new(1) frames_new(2)]) (rule that)
  have "n = 0" using st(1) by simp
  with s(1) st(2) assms(3) show ?thesis by (simp add: case_drains_to_ok_zero_def)
qed

lemma passes_pool_reclaim:
  assumes "src (build 2) {#} ds" and "2 \<le> cap_of (build 2)" and "2 \<le> length ds"
  shows "case_pool_reclaim ops build = Some (Ok ())"
proof -
  let ?b = "batch_with_capacity 64 :: 'f frame_batch"
  have cap: "0 < cap_of (build 2)" using assms(2) by simp
  obtain n s fs where st: "n = min 8 (min (cap_of (build 2)) (length ds))"
    "op_recv ops (build 2) ?b 8 = Some (Ok (word_of_nat n), s, ?b\<lparr>frames := fs\<rparr>)" "length fs = n"
    "src s (slots_of fs) (drop n ds)" "cap_of s = cap_of (build 2)"
    "src (drop_frames ops fs s) {#} (drop n ds)" "cap_of (drop_frames ops fs s) = cap_of (build 2)"
    by (rule drain_step [OF assms(1) cap frames_new(1) frames_new(2)]) (rule that)
  have two: "2 \<le> length fs" using st(1,3) assms(2,3) by simp
  have hold: "hold_loop ops 1024 [] (build 2) ?b = Some (Ok (fs, s, ?b))"
    using st(2) two hold_loop.simps(2) [of ops 1023] by (simp add: batch_drain_def batch_with_capacity_def)
  have used: "op_in_use ops (op_pool ops s) \<noteq> 0"
    using src_in_use [OF st(4)] two by (metis size_mset length_map not_numeral_le_zero unsigned_0)
  have cap': "0 < cap_of (drop_frames ops fs s)" using st(7) cap by simp
  obtain n' s' fs' where st': "op_recv ops (drop_frames ops fs s) ?b 8 = Some (Ok (word_of_nat n'), s', ?b\<lparr>frames := fs'\<rparr>)"
    "src (drop_frames ops fs' s') {#} (drop n' (drop n ds))"
    by (rule drain_step [OF st(6) cap' frames_new(1) frames_new(2)]) (rule that)
  have "op_in_use ops (op_pool ops (drop_frames ops fs' s')) = 0"
    using src_in_use [OF st'(2)] by (simp add: unat_eq_0)
  with hold two used st'(1) show ?thesis by (simp add: case_pool_reclaim_def batch_drain_def)
qed

lemma exhaust_loop:
  assumes "src s L ds" and "fits (op_pool ops s) 1" and "length held = size L"
  shows "\<exists>held' s' L'. run_loop (exhaust_round ops) (held, s) = Some (Ok (held', s'))
    \<and> src s' L' ds \<and> size L' = cap_of s'"
  using assms
proof (induction "cap_of s - size L" arbitrary: s L held)
  case 0
  with src_bound [OF 0(2)] have full: "size L = cap_of s" by simp
  from src_inv [OF 0(2)] acquire_none [of "op_pool ops s" L 1] full
  have "exhaust_round ops (held, s) = Break (Ok (held, op_set_pool ops (op_pool ops s) s))"
    by (simp add: exhaust_round_def)
  with src_set_pool [OF 0(2) src_inv [OF 0(2)] refl refl] full show ?case
    by (auto simp: loop_steps)
next
  case (Suc x)
  then have lt: "size L < cap_of s" by simp
  from acquire_free [OF src_inv [OF Suc.prems(1)] Suc.prems(2) lt] obtain sl p where p:
    "op_acquire ops (op_pool ops s) 1 = (Some sl, p)" "inv p (add_mset (slot sl) L)"
    "op_capacity ops p = op_capacity ops (op_pool ops s)" "fits p = fits (op_pool ops s)" by blast
  from src_set_pool [OF Suc.prems(1) p(2-4)]
  have s': "src (op_set_pool ops p s) (add_mset (slot sl) L) ds" "op_pool ops (op_set_pool ops p s) = p" by simp_all
  have step: "exhaust_round ops (held, s) = Continue (vec_push held sl, op_set_pool ops p s)"
    using p(1,3) s'(2) lt Suc.prems(3) by (simp add: exhaust_round_def Let_def)
  have "x = cap_of (op_set_pool ops p s) - size (add_mset (slot sl) L)" using Suc.hyps(2) s'(2) p(3) by simp
  from Suc.hyps(1) [OF this s'(1)] p(4) s'(2) Suc.prems(2,3)
  have "\<exists>held' s'' L'. run_loop (exhaust_round ops) (vec_push held sl, op_set_pool ops p s) = Some (Ok (held', s''))
    \<and> src s'' L' ds \<and> size L' = cap_of s''" by simp
  moreover have "run_loop (exhaust_round ops) (held, s) =
      run_loop (exhaust_round ops) (vec_push held sl, op_set_pool ops p s)"
    by (rule run_loop_Continue) (rule step)
  ultimately show ?case by simp
qed

lemma passes_pool_exhausted:
  assumes "src (build 2) {#} ds" and "ds \<noteq> []" and "fits (op_pool ops (build 2)) 1"
  shows "case_pool_exhausted ops build = Some (Ok ())"
proof -
  from exhaust_loop [OF assms(1,3), of "[]"] obtain held s L where s:
    "run_loop (exhaust_round ops) ([], build 2) = Some (Ok (held, s))" "src s L ds" "size L = cap_of s" by auto
  have room: "0 < min 8 (batch_spare (batch_with_capacity 64 :: 'f frame_batch))"
    by (simp add: batch_spare_def)
  from recv_exhausted [OF s(2) batch_ok_new s(3) assms(2) room] s(1)
  show ?thesis by (simp add: case_pool_exhausted_def)
qed

lemma passes_suite:
  assumes "\<And>c. src (build c) {#} (ds c)" and "\<And>c. length (ds c) = c" and "\<And>c. 2 \<le> cap_of (build c)"
    and "\<And>c. fits (op_pool ops (build c)) 1"
  shows "run_datagram_source ops build = Some \<lparr>passed = [''burst_leq_max'', ''single_is_burst_of_one'',
    ''drains_to_ok_zero'', ''pool_reclaim_after_foreign_drop'', ''pool_exhausted_when_empty''], failed = []\<rparr>"
proof -
  have pos: "0 < cap_of (build c)" for c using assms(3) [of c] by simp
  have ne: "ds 2 \<noteq> []" "ds 3 \<noteq> []" using assms(2) [of 2] assms(2) [of 3] by auto
  show ?thesis
    using passes_burst_leq_max [of build, OF assms(1) pos] passes_single_burst [of build, OF assms(1) pos ne(2)]
      passes_drains_to_ok_zero [of build, OF assms(1) pos] passes_pool_reclaim [of build, OF assms(1,3)]
      passes_pool_exhausted [of build, OF assms(1) ne(1) assms(4)] assms(2)
    by (simp add: run_datagram_source_def vec_push_def)
qed

end

end
