(* ===== verification/Slab_Backend.thy ===== *)
theory Slab_Backend imports Recv_Reference Datagram_Source begin

text \<open>
  What the two UDP backends have in common, as an interface: a \<open>recv_burst\<close> that is a burst of
  some receiving call over the backend's slab pool. Its consequences are proved once: what a
  burst takes and returns, when it is refused, that it is safe, and that such a backend is a
  datagram source.
\<close>

type_synonym ('k, 's) burst_fun =
  "'k os \<Rightarrow> 's \<Rightarrow> udp_frame frame_batch \<Rightarrow> usize \<Rightarrow> 'k
     \<Rightarrow> ((usize, transport_error) result \<times> 's \<times> udp_frame frame_batch \<times> 'k) option"

section \<open>A backend as a source\<close>

text \<open>A source is the backend together with its system and its world.\<close>

type_synonym ('k, 's) backend_source = "'k os \<times> 's \<times> 'k"

definition backend_recv ::
  "('k, 's) burst_fun \<Rightarrow> ('k, 's) backend_source \<Rightarrow> udp_frame frame_batch \<Rightarrow> usize
     \<Rightarrow> ((usize, transport_error) result \<times> ('k, 's) backend_source \<times> udp_frame frame_batch) option"
where
  "backend_recv recv s out mx =
     (case s of (sys, self, k) \<Rightarrow>
        map_option (\<lambda>(r, self', out', k'). (r, (sys, self', k'), out')) (recv sys self out mx k))"

definition backend_ops ::
  "('k, 's) burst_fun \<Rightarrow> ('s \<Rightarrow> vec_pool) \<Rightarrow> (vec_pool \<Rightarrow> 's \<Rightarrow> 's)
     \<Rightarrow> (('k, 's) backend_source, udp_frame, vec_pool, vec_slab) datagram_ops"
where
  "backend_ops recv pool_of set_pool =
     \<lparr>op_recv = backend_recv recv, op_pool = (\<lambda>(sys, self, k). pool_of self),
      op_set_pool = (\<lambda>p (sys, self, k). (sys, set_pool p self, k)), op_slab = uf_slab,
      op_acquire = acquire_slab, op_release = drop_slab, op_capacity = pool_capacity,
      op_in_use = pool_in_use\<rparr>"

definition backend_payload :: "('s \<Rightarrow> vec_pool) \<Rightarrow> ('k, 's) backend_source \<Rightarrow> udp_frame \<Rightarrow> bytes option" where
  "backend_payload pool_of s f = (case s of (sys, self, k) \<Rightarrow> frame_payload (pool_of self) f)"

definition backend_src ::
  "('k os \<Rightarrow> 's \<Rightarrow> 'k recv_call) \<Rightarrow> ('s \<Rightarrow> vec_pool) \<Rightarrow> ('k, 's) backend_source \<Rightarrow> u32 multiset \<Rightarrow> bytes list \<Rightarrow> bool"
where
  "backend_src rf pool_of s L ds \<longleftrightarrow>
     (case s of (sys, self, k) \<Rightarrow>
        pool_ok (pool_of self) L
        \<and> (\<exists>pend. udp_queue sys (rf sys self) pend
             \<and> ds = map (take (unat (slab_size (pool_of self))) \<circ> fst) (pend k)))"

lemma backend_ops_simps [simp]:
  "op_recv (backend_ops recv pool_of set_pool) = backend_recv recv"
  "op_pool (backend_ops recv pool_of set_pool) (sys, self, k) = pool_of self"
  "op_set_pool (backend_ops recv pool_of set_pool) p (sys, self, k) = (sys, set_pool p self, k)"
  "op_slab (backend_ops recv pool_of set_pool) = uf_slab"
  "op_acquire (backend_ops recv pool_of set_pool) = acquire_slab"
  "op_release (backend_ops recv pool_of set_pool) = drop_slab"
  "op_capacity (backend_ops recv pool_of set_pool) = pool_capacity"
  "op_in_use (backend_ops recv pool_of set_pool) = pool_in_use"
  by (simp_all add: backend_ops_def)

lemma slab_size_fits_eq:
  "(\<lambda>n. n \<le> slab_size p) = (\<lambda>n. n \<le> slab_size q) \<Longrightarrow> slab_size p = slab_size q"
  by (metis order.antisym order.refl)

section \<open>Frames a client can read\<close>

definition readable_frame :: "vec_pool \<Rightarrow> udp_frame \<Rightarrow> bool" where
  "readable_frame p f \<longleftrightarrow> (\<exists>d. frame_payload p f = Some d \<and> length d \<le> unat (slab_size p))"

definition same_dims :: "vec_pool \<Rightarrow> vec_pool \<Rightarrow> bool" where
  "same_dims p q \<longleftrightarrow> slab_size p = slab_size q \<and> pool_capacity p = pool_capacity q"

lemma same_dims_refl [simp]: "same_dims p p"
  by (simp add: same_dims_def)

lemma readable_frame_cong:
  "frame_payload q f = frame_payload p f \<Longrightarrow> slab_size q = slab_size p \<Longrightarrow> readable_frame q f = readable_frame p f"
  by (simp add: readable_frame_def)

section \<open>The interface\<close>

locale slab_backend =
  fixes recv :: "('k, 's) burst_fun"
    and label :: string
    and rf :: "'k os \<Rightarrow> 's \<Rightarrow> 'k recv_call"
    and pool_of :: "'s \<Rightarrow> vec_pool"
    and set_pool :: "vec_pool \<Rightarrow> 's \<Rightarrow> 's"
    and peer_of :: "'s \<Rightarrow> socket_addr option"
    and update :: "vec_pool \<Rightarrow> socket_addr option \<Rightarrow> 's \<Rightarrow> 's"
  assumes recv_is_burst: "recv sys self out mx k =
      map_option (\<lambda>(r, p, lp, out, k). (r, update p lp self, out, k))
        (burst_call sys label (rf sys self) (pool_of self) (peer_of self) out mx k)"
    and update_same: "update (pool_of self) (peer_of self) self = self"
    and set_pool_update: "set_pool p self = update p (peer_of self) self"
    and pool_update: "pool_of (update p lp self) = p"
    and rf_update: "rf sys (update p lp self) = rf sys self"
begin

lemma reaps:
  assumes "pool_ok (pool_of self) L" and "batch_ok out" and "fits_buffer (rf sys self)"
    and "free_list (pool_of self) \<noteq> [] \<or> min mx (batch_spare out) = 0"
    and "reap (rf sys self) (unat (slab_size (pool_of self))) (burst_budget (pool_of self) out mx) k = (ds, e, k')"
  shows "\<exists>p fs. recv sys self out mx k =
      Some (if stop_ok e then Ok (word_of_nat (length ds)) else Err (Io (the e)),
            update p (bump_peer (peer_of self) ds) self, out\<lparr>frames := frames out @ fs\<rparr>,
            if stop_ok e then record_recv_burst sys label (word_of_nat (length ds)) (total_bytes ds) k' else k')
    \<and> frames_hold p fs ds \<and> pool_ok p (L + mset (map frame_slot fs))
    \<and> (\<forall>sl. slab_index sl \<in># L \<longrightarrow> slab_as_ref p sl = slab_as_ref (pool_of self) sl)"
proof (rule burst_call_spec [OF assms, of sys label "peer_of self"])
  fix p fs
  assume r: "burst_call sys label (rf sys self) (pool_of self) (peer_of self) out mx k =
      Some (if stop_ok e then Ok (word_of_nat (length ds)) else Err (Io (the e)), p, bump_peer (peer_of self) ds,
        out\<lparr>frames := frames out @ fs\<rparr>,
        if stop_ok e then record_recv_burst sys label (word_of_nat (length ds)) (total_bytes ds) k' else k')"
    "frames_hold p fs ds" "pool_ok p (L + mset (map frame_slot fs))"
    "\<And>sl. slab_index sl \<in># L \<Longrightarrow> slab_as_ref p sl = slab_as_ref (pool_of self) sl"
  show ?thesis
    by (intro exI [of _ p] exI [of _ fs]) (use r in \<open>simp add: recv_is_burst\<close>)
qed

lemma exhausted_call:
  assumes "free_list (pool_of self) = []" and "0 < min mx (batch_spare out)"
  shows "recv sys self out mx k =
    Some (Err (PoolExhausted (pool_in_use (pool_of self)) (pool_capacity (pool_of self))), self, out, k)"
  by (simp add: recv_is_burst burst_call_exhausted [OF assms] update_same)

lemma exhausted_iff:
  assumes "pool_ok (pool_of self) L" and "batch_ok out" and "fits_buffer (rf sys self)"
  shows "recv sys self out mx k = Some (Err (PoolExhausted i c), rest) \<longleftrightarrow>
    0 < min mx (batch_spare out) \<and> pool_in_use (pool_of self) = pool_capacity (pool_of self)
    \<and> i = pool_in_use (pool_of self) \<and> c = pool_capacity (pool_of self) \<and> rest = (self, out, k)"
  using burst_call_exhausted_iff [OF assms, of sys label "peer_of self" mx k i c]
  by (auto simp: recv_is_burst update_same)

lemma safe:
  assumes "pool_ok (pool_of self) L" and "batch_ok out" and "fits_buffer (rf sys self)"
  shows "\<exists>r self' out' k' fs. recv sys self out mx k = Some (r, self', out', k')
    \<and> frames out' = frames out @ fs \<and> batch_cap out' = batch_cap out \<and> batch_ok out'
    \<and> length fs \<le> min (unat mx) (unat (batch_spare out))
    \<and> (\<forall>n. r = Ok n \<longrightarrow> unat n = length fs)
    \<and> pool_ok (pool_of self') (L + mset (map frame_slot fs))"
proof (rule burst_call_bounds [OF assms, of sys label "peer_of self" mx k])
  fix r p' lp' fs k'
  assume b: "burst_call sys label (rf sys self) (pool_of self) (peer_of self) out mx k =
      Some (r, p', lp', out\<lparr>frames := frames out @ fs\<rparr>, k')"
    "length fs \<le> min (unat mx) (unat (batch_spare out))"
    "pool_ok p' (L + mset (map frame_slot fs))" "is_ok r \<longrightarrow> r = Ok (word_of_nat (length fs))"
    "unat (word_of_nat (length fs) :: usize) = length fs"
  have "length fs \<le> unat (batch_cap out) - length (frames out)"
    using b(2) unat_batch_spare [OF assms(2)] by simp
  with assms(2) have "length (frames out) + length fs \<le> unat (batch_cap out)"
    unfolding batch_ok_def by linarith
  then have "batch_ok (out\<lparr>frames := frames out @ fs\<rparr>)" by (simp add: batch_ok_def)
  with b show ?thesis
    by (intro exI [of _ r] exI [of _ "update p' lp' self"]
        exI [of _ "out\<lparr>frames := frames out @ fs\<rparr>"] exI [of _ k'] exI [of _ fs])
      (auto simp: recv_is_burst pool_update)
qed

text \<open>A burst that is not refused, with the frames as their owner sees them.\<close>

lemma granted_burst:
  assumes "pool_ok (pool_of self) L" and "batch_ok out" and "fits_buffer (rf sys self)"
    and "free_list (pool_of self) \<noteq> [] \<or> min mx (batch_spare out) = 0"
    and "reap (rf sys self) (unat (slab_size (pool_of self))) (burst_budget (pool_of self) out mx) k = (ds, e, k1)"
  obtains p fs where
    "recv sys self out mx k = Some (if stop_ok e then Ok (word_of_nat (length ds)) else Err (Io (the e)),
       update p (bump_peer (peer_of self) ds) self, out\<lparr>frames := frames out @ fs\<rparr>,
       if stop_ok e then record_recv_burst sys label (word_of_nat (length ds)) (total_bytes ds) k1 else k1)"
    "length fs = length ds" "length ds \<le> unat mx" "batch_ok (out\<lparr>frames := frames out @ fs\<rparr>)" "same_dims p (pool_of self)"
    "pool_ok p (L + mset (map frame_slot fs))" "\<forall>f \<in> set fs. readable_frame p f"
    "\<forall>sl. slab_index sl \<in># L \<longrightarrow> slab_as_ref p sl = slab_as_ref (pool_of self) sl"
proof -
  have len: "length ds \<le> unat (batch_cap out) - length (frames out)" "length ds \<le> unat mx"
    using reap_length [OF assms(5)] by (simp_all add: burst_budget_def unat_batch_spare [OF assms(2)])
  show ?thesis
  proof (rule burst_call_spec [OF assms, of sys label "peer_of self"])
    fix p fs
    assume r: "burst_call sys label (rf sys self) (pool_of self) (peer_of self) out mx k =
        Some (if stop_ok e then Ok (word_of_nat (length ds)) else Err (Io (the e)), p, bump_peer (peer_of self) ds,
          out\<lparr>frames := frames out @ fs\<rparr>,
          if stop_ok e then record_recv_burst sys label (word_of_nat (length ds)) (total_bytes ds) k1 else k1)"
      "frames_hold p fs ds" "length fs = length ds" "pool_ok p (L + mset (map frame_slot fs))"
      "slab_size p = slab_size (pool_of self)" "pool_capacity p = pool_capacity (pool_of self)"
      "\<And>sl. slab_index sl \<in># L \<Longrightarrow> slab_as_ref p sl = slab_as_ref (pool_of self) sl"
    have "readable_frame p f" if "f \<in> set fs" for f
    proof -
      from that r(2) have "(frame_payload p f, uf_peer f) \<in> set (map (\<lambda>(d, a). (Some d, a)) ds)"
        unfolding frames_hold_def by (metis (mono_tags, lifting) image_eqI list.set_map)
      then obtain d a where "(d, a) \<in> set ds" "frame_payload p f = Some d" by auto
      with reap_fits [OF assms(3,5), of "(d, a)"] r(5) show ?thesis by (simp add: readable_frame_def)
    qed
    moreover have "batch_ok (out\<lparr>frames := frames out @ fs\<rparr>)"
      using assms(2) len r(3) by (auto simp: batch_ok_def)
    ultimately show thesis
      by (intro that) (use r len(2) in \<open>auto simp: recv_is_burst same_dims_def simp del: mset_map\<close>)
  qed
qed

text \<open>A burst as the owner of other frames sees it.\<close>

lemma client_burst:
  assumes "pool_ok (pool_of self) L" and "batch_ok out" and "fits_buffer (rf sys self)"
  obtains r p lp fs k' where
    "recv sys self out mx k = Some (r, update p lp self, out\<lparr>frames := frames out @ fs\<rparr>, k')"
    "batch_ok (out\<lparr>frames := frames out @ fs\<rparr>)" "same_dims p (pool_of self)"
    "pool_ok p (L + mset (map frame_slot fs))" "\<forall>f \<in> set fs. readable_frame p f"
    "\<forall>sl. slab_index sl \<in># L \<longrightarrow> slab_as_ref p sl = slab_as_ref (pool_of self) sl"
proof (cases "free_list (pool_of self) \<noteq> [] \<or> min mx (batch_spare out) = 0")
  case True
  obtain ds e k1 where reap:
    "reap (rf sys self) (unat (slab_size (pool_of self))) (burst_budget (pool_of self) out mx) k = (ds, e, k1)"
    by (metis prod_cases3)
  show ?thesis by (rule granted_burst [OF assms True reap]) (rule that)
next
  case False
  then have empty: "free_list (pool_of self) = []" and "min mx (batch_spare out) \<noteq> 0" by blast+
  from this(2) have pos: "0 < min mx (batch_spare out)" by (simp only: word_gt_0)
  from exhausted_call [OF empty pos, of sys k] assms(1,2) show ?thesis
    by (intro that [of _ "pool_of self" "peer_of self" "[]" k]) (simp_all add: update_same)
qed

text \<open>A burst into an empty batch while every slab is free makes at least one receiving call.\<close>

lemma fresh_burst_granted:
  assumes "pool_ok (pool_of self) {#}" and "frames out = []" and "0 < mx" and "0 < batch_cap out" and "fits_buffer (rf sys self)"
  obtains c ds e k1 p fs where
    "reap (rf sys self) (unat (slab_size (pool_of self))) (Suc c) k = (ds, e, k1)"
    "recv sys self out mx k = Some (if stop_ok e then Ok (word_of_nat (length ds)) else Err (Io (the e)),
       update p (bump_peer (peer_of self) ds) self, out\<lparr>frames := fs\<rparr>,
       if stop_ok e then record_recv_burst sys label (word_of_nat (length ds)) (total_bytes ds) k1 else k1)"
    "length fs = length ds" "length ds \<le> unat mx" "same_dims p (pool_of self)" "pool_ok p (mset (map frame_slot fs))"
    "\<forall>f \<in> set fs. readable_frame p f"
proof -
  have ok: "batch_ok out" using assms(2) by (simp add: batch_ok_def)
  have free: "free_list (pool_of self) \<noteq> []"
    using pool_ok_size [OF assms(1)] assms(1) by (auto simp: pool_ok_def)
  have "0 < burst_budget (pool_of self) out mx"
    using assms(2-4) free by (simp add: burst_budget_def unat_batch_spare [OF ok] word_less_nat_alt)
  then obtain c where c: "burst_budget (pool_of self) out mx = Suc c" by (auto simp: gr0_conv_Suc)
  obtain ds e k1 where reap: "reap (rf sys self) (unat (slab_size (pool_of self))) (Suc c) k = (ds, e, k1)"
    by (metis prod_cases3)
  show ?thesis
    by (rule granted_burst [OF assms(1) ok assms(5) disjI1 [OF free] reap [folded c]], rule that [OF reap])
       (simp_all only: assms(2) append_Nil add_0)
qed

text \<open>What is left on a queue by a burst that could not take all of it.\<close>

lemma leaves_queued:
  assumes "pool_ok (pool_of self) L" and "batch_ok out" and "udp_queue sys (rf sys self) pend"
    and "burst_budget (pool_of self) out mx < length (pend k)"
  obtains r p lp out' k' where "recv sys self out mx k = Some (r, update p lp self, out', k')" "pend k' \<noteq> []"
proof (cases "free_list (pool_of self) \<noteq> [] \<or> min mx (batch_spare out) = 0")
  case True
  obtain ds e k1 where reap:
    "reap (rf sys self) (unat (slab_size (pool_of self))) (burst_budget (pool_of self) out mx) k = (ds, e, k1)"
    by (metis prod_cases3)
  from reap_queue [OF assms(3) reap] assms(4) have left: "pend k1 \<noteq> []" "stop_ok e" by simp_all
  from reaps [OF assms(1,2) udp_queue_fits [OF assms(3)] True reap] left assms(3)
  show thesis by (auto intro: that)
next
  case False
  then have empty: "free_list (pool_of self) = []" and "min mx (batch_spare out) \<noteq> 0" by blast+
  from this(2) have pos: "0 < min mx (batch_spare out)" by (simp only: word_gt_0)
  from exhausted_call [OF empty pos, of sys k] update_same [of self] assms(4)
  show thesis by (intro that [of _ "pool_of self" "peer_of self"]) auto
qed

end

text \<open>Every such backend is a datagram source.\<close>

sublocale slab_backend \<subseteq> source: datagram_source "backend_ops recv pool_of set_pool"
  "\<lambda>p n. n \<le> slab_size p" slab_index pool_ok "backend_payload pool_of" "backend_src rf pool_of"
proof (unfold_locales, goal_cases)
  case (1 p L) then show ?case by (simp add: vp.in_use_live)
next
  case (2 p L) then show ?case by (simp add: vp.live_bound)
next
  case (3 p L n) then show ?case using vp.acquire_free [of p L n] by simp
next
  case (4 p L n) then show ?case using vp.acquire_none [of p L n] by simp
next
  case (5 p L sl) then show ?case using vp.release_live [of p L sl] by simp
next
  case (6 s L ds) then show ?case by (cases s) (auto simp: backend_src_def)
next
  case (7 s L ds p L')
  obtain sys self k where s: "s = (sys, self, k)" by (cases s)
  from 7(4) have "slab_size p = slab_size (pool_of self)"
    by (intro slab_size_fits_eq) (simp add: s)
  with 7(1,2) show ?case by (auto simp: s backend_src_def set_pool_update pool_update rf_update)
next
  case (8 s L ds b mx)
  obtain sys self k where s: "s = (sys, self, k)" by (cases s)
  from 8(1,3) have "free_list (pool_of self) = []"
    using pool_ok_size [of "pool_of self" L] pool_ok_capacity [of "pool_of self" L]
    by (simp add: s backend_src_def)
  note full = exhausted_call [OF this 8(5)]
  show ?case by (simp add: s backend_recv_def full)
next
  case (9 s L ds b n mx)
  obtain sys self k where s: "s = (sys, self, k)" by (cases s)
  from 9(1) obtain pend where ok: "pool_ok (pool_of self) L" and q: "udp_queue sys (rf sys self) pend"
    and ds: "ds = map (take (unat (slab_size (pool_of self))) \<circ> fst) (pend k)"
    by (auto simp: s backend_src_def)
  have lt: "size L < unat (pool_capacity (pool_of self))" using 9(3) by (simp add: s)
  have n: "n = min (min (unat mx) (unat (batch_spare b)))
      (min (unat (pool_capacity (pool_of self)) - size L) (length (pend k)))"
    using 9(4) by (simp add: s ds)
  show ?case
  proof (rule burst_call_queue [OF ok 9(2) q lt n, of label "peer_of self"])
    fix p' lp' fs k'
    assume r: "burst_call sys label (rf sys self) (pool_of self) (peer_of self) b mx k =
        Some (Ok (word_of_nat n), p', lp', b\<lparr>frames := frames b @ fs\<rparr>, k')"
      "map (frame_payload p') fs = map Some (take n (map (take (unat (slab_size (pool_of self))) \<circ> fst) (pend k)))"
      "pool_ok p' (L + mset (map frame_slot fs))" "slab_size p' = slab_size (pool_of self)"
      "pool_capacity p' = pool_capacity (pool_of self)" "pend k' = drop n (pend k)"
    let ?self = "update p' lp' self"
    have recv: "backend_recv recv s b mx = Some (Ok (word_of_nat n), (sys, ?self, k'), b\<lparr>frames := frames b @ fs\<rparr>)"
      by (simp add: s backend_recv_def recv_is_burst r(1))
    have src: "backend_src rf pool_of (sys, ?self, k') (L + mset (map frame_slot fs)) (drop n ds)"
      using r(3,4,6) q by (auto simp: backend_src_def rf_update pool_update ds drop_map)
    have "backend_payload pool_of (sys, ?self, k') = frame_payload p'"
      by (rule ext) (simp add: backend_payload_def pool_update)
    then have pay: "map (backend_payload pool_of (sys, ?self, k')) fs = map Some (take n ds)"
      using r(2) by (simp add: ds)
    from recv src pay r(4,5) show ?case
      by (intro exI [of _ "(sys, ?self, k')"] exI [of _ fs]) (simp add: s pool_update)
  qed
qed

section \<open>The suite and delivery in order, over a backend\<close>

context slab_backend
begin

lemma passes_conformance:
  assumes "build_pool c w = Some (pool_of self)" and "2 \<le> unat c"
    and "udp_queue sys (rf sys self) pend" and "\<And>cnt. length (pend (world cnt)) = cnt"
  shows "run_datagram_source (backend_ops recv pool_of set_pool) (\<lambda>cnt. (sys, self, world cnt)) =
    Some \<lparr>passed = [''burst_leq_max'', ''single_is_burst_of_one'', ''drains_to_ok_zero'',
      ''pool_reclaim_after_foreign_drop'', ''pool_exhausted_when_empty''], failed = []\<rparr>"
proof (rule source.passes_suite)
  from build_pool_ok [OF assms(1)] have p: "pool_ok (pool_of self) {#}" "pool_capacity (pool_of self) = c"
    by simp_all
  let ?ds = "\<lambda>cnt. map (take (unat (slab_size (pool_of self))) \<circ> fst) (pend (world cnt))"
  show "backend_src rf pool_of (sys, self, world cnt) {#} (?ds cnt)" for cnt
    using p(1) assms(3) by (auto simp: backend_src_def)
  show "length (?ds cnt) = cnt" for cnt using assms(4) by simp
  show "2 \<le> unat (op_capacity (backend_ops recv pool_of set_pool)
      (op_pool (backend_ops recv pool_of set_pool) (sys, self, world cnt)))" for cnt
    using p(2) assms(2) by simp
  show "1 \<le> slab_size (op_pool (backend_ops recv pool_of set_pool) (sys, self, world cnt))" for cnt
    using p(1) by (simp add: pool_ok_def word_le_nat_alt word_less_nat_alt)
qed

lemma delivers_in_order:
  assumes "pool_ok (pool_of self) {#}" and "udp_queue sys (rf sys self) pend"
    and "w = unat (slab_size (pool_of self))"
    and "N = sum_list (map (\<lambda>mx. min (min (unat mx) (unat c)) (unat (pool_capacity (pool_of self)))) mxs)"
  shows "\<exists>s'. pump (backend_ops recv pool_of set_pool) (backend_payload pool_of) mxs (sys, self, k) (batch_with_capacity c) =
      Some (map Some (take N (map (take w \<circ> fst) (pend k))), s')
    \<and> backend_src rf pool_of s' {#} (drop N (map (take w \<circ> fst) (pend k)))"
proof -
  have src: "backend_src rf pool_of (sys, self, k) {#} (map (take w \<circ> fst) (pend k))"
    using assms(1-3) by (auto simp: backend_src_def)
  have cap: "0 < unat (op_capacity (backend_ops recv pool_of set_pool)
      (op_pool (backend_ops recv pool_of set_pool) (sys, self, k)))"
    using assms(1) pool_ok_capacity [OF assms(1)] by (simp add: pool_ok_def)
  from source.pump_delivers [OF src batch_ok_new [of c] frames_new(1) cap, where mxs = mxs]
  show ?thesis unfolding assms(4) by simp
qed

text \<open>Enough bursts for what is queued, over slabs that hold it, deliver it all and uncut.\<close>

lemma delivers_all:
  assumes "pool_ok (pool_of self) {#}" and "udp_queue sys (rf sys self) pend"
    and "list_all (\<lambda>d. length d \<le> unat (slab_size (pool_of self))) (map fst (pend k))"
    and "length (pend k) \<le> sum_list (map (\<lambda>mx. min (min (unat mx) (unat c)) (unat (pool_capacity (pool_of self)))) mxs)"
  shows "\<exists>s'. pump (backend_ops recv pool_of set_pool) (backend_payload pool_of) mxs (sys, self, k) (batch_with_capacity c) =
      Some (map Some (map fst (pend k)), s')"
proof -
  from assms(3) have "map (take (unat (slab_size (pool_of self))) \<circ> fst) (pend k) = map fst (pend k)"
    by (simp add: list_all_iff)
  with delivers_in_order [OF assms(1,2) refl refl, where k = k and c = c and mxs = mxs] assms(4) show ?thesis by auto
qed

text \<open>
  One burst into an empty batch over a full pool, its payloads read and its frames dropped, with
  the same queue behind the socket before and after: it takes something when there is something.
\<close>

lemma pump_once:
  assumes "pool_ok (pool_of self) {#}" and "udp_queue sys (rf sys self) pend" and "0 < mx" and "0 < c"
  obtains n p lp q k' where
    "pump (backend_ops recv pool_of set_pool) (backend_payload pool_of) [mx] (sys, self, k) (batch_with_capacity c) =
       Some (map Some (take n (map (take (unat (slab_size (pool_of self))) \<circ> fst) (pend k))), (sys, set_pool q (update p lp self), k'))"
    "pend k \<noteq> [] \<longrightarrow> 0 < n" "pend k' = drop n (pend k)" "pool_ok q {#}" "slab_size q = slab_size (pool_of self)"
proof -
  let ?w = "unat (slab_size (pool_of self))" and ?b = "batch_with_capacity c :: udp_frame frame_batch"
  define n where "n = min (min (unat mx) (unat (batch_spare ?b)))
    (min (unat (pool_capacity (pool_of self)) - size ({#} :: u32 multiset)) (length (pend k)))"
  have cap: "size ({#} :: u32 multiset) < unat (pool_capacity (pool_of self))"
    using assms(1) pool_ok_capacity [OF assms(1)] by (simp add: pool_ok_def)
  have pos: "pend k \<noteq> [] \<longrightarrow> 0 < n"
    using assms(3,4) cap unat_batch_spare [of ?b] by (simp add: n_def word_less_nat_alt)
  show ?thesis
  proof (rule burst_call_queue [OF assms(1) batch_ok_new assms(2) cap n_def, of label "peer_of self"])
    fix p lp fs k'
    assume r: "burst_call sys label (rf sys self) (pool_of self) (peer_of self) ?b mx k =
        Some (Ok (word_of_nat n), p, lp, ?b\<lparr>frames := frames ?b @ fs\<rparr>, k')"
      "map (frame_payload p) fs = map Some (take n (map (take ?w \<circ> fst) (pend k)))"
      "pool_ok p ({#} + mset (map frame_slot fs))" "slab_size p = slab_size (pool_of self)" "pend k' = drop n (pend k)"
    let ?q = "release_all drop_slab (map uf_slab fs) p"
    have "pool_ok p ({#} + mset (map slab_index (map uf_slab fs)))" using r(3) by (simp add: comp_def)
    note rel = vp.release_all_spec [OF this]
    have q: "pool_ok ?q {#}" "slab_size ?q = slab_size p"
      by (rule conjunct1 [OF rel], rule slab_size_fits_eq, use rel in blast)
    have "backend_payload pool_of (sys, update p lp self, k') = frame_payload p"
      by (rule ext) (simp add: backend_payload_def pool_update)
    with r(1,2) have "pump (backend_ops recv pool_of set_pool) (backend_payload pool_of) [mx] (sys, self, k) ?b =
        Some (map Some (take n (map (take ?w \<circ> fst) (pend k))), (sys, set_pool ?q (update p lp self), k'))"
      by (simp add: backend_recv_def recv_is_burst drop_frames_def pool_update)
    then show thesis
      by (rule that) (use pos q r(4,5) in simp_all)
  qed
qed

end

end
