(* ===== verification/Sample_World.thy ===== *)
theory Sample_World imports Recv_Reference begin

text \<open>
  A concrete world for the examples: a nonblocking datagram socket with a queue, on which every
  other call succeeds at once. It satisfies the documented behaviour the properties assume of
  the system.
\<close>

type_synonym queue_world = "(bytes \<times> socket_addr) list"

definition would_block :: io_error where
  "would_block = \<lparr>err_kind = WouldBlock, raw_os_error = Some 11, err_text = ''Resource temporarily unavailable (os error 11)''\<rparr>"

fun queue_recv :: "nat \<Rightarrow> queue_world \<Rightarrow> (bytes \<times> socket_addr, io_error) result \<times> queue_world" where
  "queue_recv w [] = (Err would_block, [])"
| "queue_recv w ((d, a) # rest) = (Ok (take w d, a), rest)"

fun queue_peek :: "nat \<Rightarrow> queue_world \<Rightarrow> (bytes, io_error) result \<times> queue_world" where
  "queue_peek w [] = (Err would_block, [])"
| "queue_peek w ((d, a) # rest) = (Ok (take w d), (d, a) # rest)"

definition queue_os :: "queue_world os" where
  "queue_os = \<lparr>
     platform = Linux,
     socket_dgram = (\<lambda>_. pure 3),
     set_reuse_address = (\<lambda>_ _. pure ()), set_reuse_port = (\<lambda>_ _. pure ()),
     set_recv_buffer_size = (\<lambda>_ _. pure ()), recv_buffer_size = (\<lambda>_. pure 212992),
     set_send_buffer_size = (\<lambda>_ _. pure ()), send_buffer_size = (\<lambda>_. pure 212992),
     set_nonblocking = (\<lambda>_ _. pure ()), bind_addr = (\<lambda>_ _. pure ()),
     s2_peek = (\<lambda>_. queue_peek),
     s2_recv = (\<lambda>_ w k. case queue_recv w k of (r, k') \<Rightarrow> (map_ok fst r, k')),
     s2_recv_from = (\<lambda>_ w k. case queue_recv w k of (r, k') \<Rightarrow> (map_ok (\<lambda>(d, a). (d, Some a)) r, k')),
     local_addr_of = (\<lambda>_. pure (SocketAddrV4 2130706433 4242)),
     peer_addr_of = (\<lambda>_. pure (SocketAddrV4 2130706433 4243)),
     poll_new = pure 4, register = (\<lambda>_ _ _ _. pure ()),
     poll_wait = (\<lambda>_ timeout k. if k = [] \<and> timeout = None then None
        else Some (Ok (if k = [] then [] else [\<lparr>ev_token = 0, ev_readable = True, ev_writable = False\<rparr>]), k)),
     mio_recv_from = (\<lambda>_. queue_recv),
     mio_send_dgram = (\<lambda>_ d. pure (word_of_nat (length d))),
     mio_send_dgram_to = (\<lambda>_ d _. pure (word_of_nat (length d))),
     mio_tcp_connect = (\<lambda>_. pure 5),
     mio_tcp_write = (\<lambda>_ d. pure (word_of_nat (length d))),
     take_error = (\<lambda>_. pure None),
     join_multicast_v4 = (\<lambda>_ _ _. pure ()), join_multicast_v6 = (\<lambda>_ _ _. pure ()),
     tk_from_std = (\<lambda>_. pure ()),
     tk_tcp_connect = (\<lambda>_ k. Some (Ok 5, k)),
     tk_readable = (\<lambda>_ k. if k = [] then None else Some (Ok (), k)),
     tk_try_io = (\<lambda>_ _ call. call),
     tk_send_dgram = (\<lambda>_ d k. Some (Ok (word_of_nat (length d)), k)),
     tk_send_dgram_to = (\<lambda>_ d _ k. Some (Ok (word_of_nat (length d)), k)),
     tk_write_all = (\<lambda>_ _ k. Some (Ok (), k)),
     setsockopt = (\<lambda>_ _ _ k. (0, k)),
     last_os_error = (\<lambda>_. would_block),
     instant_now = (\<lambda>k. (0, k)), thread_sleep = (\<lambda>_ k. k), warn = (\<lambda>_ _ k. k),
     metrics_enabled = (\<lambda>_. False), counter_increment = (\<lambda>_ _ _ k. k)\<rparr>"

lemma queue_recv_is_queue: "udp_queue queue_os queue_recv (\<lambda>k. k)"
  by (auto simp: udp_queue_def queue_os_def would_block_def split: list.splits prod.splits)

lemma queue_recv_fits: "fits_buffer queue_recv"
  by (rule udp_queue_fits [OF queue_recv_is_queue])

text \<open>Datagrams and a pool for the examples.\<close>

definition peer1 :: socket_addr where "peer1 = SocketAddrV4 2130706433 1001"
definition peer2 :: socket_addr where "peer2 = SocketAddrV4 2130706433 1002"

definition sample_queue :: queue_world where
  "sample_queue = [([1, 2], peer1), ([3], peer2), ([4, 5, 6, 7, 8], peer1)]"

lemma sample_pool_ok: "pool_ok sample_pool {#}"
  using build_pool_ok [OF build_sample] by simp

definition small_ring :: ring_config where
  "small_ring = ring_config_default\<lparr>slab_count := 2, rc_slab_size := 4\<rparr>"

lemma build_small: "build_pool (slab_count small_ring) (rc_slab_size small_ring) = Some sample_pool"
  by (simp add: small_ring_def build_sample)

lemma queue_os_record [simp]: "record_recv_burst queue_os backend n t k = k"
  by (simp add: record_recv_burst_def queue_os_def)

lemma sample_width: "unat (slab_size sample_pool) = 4"
  by (simp add: sample_pool_def)

lemma sample_reap:
  "reap queue_recv (unat (slab_size sample_pool)) 2 sample_queue =
     ([([1, 2], peer1), ([3], peer2)], None, [([4, 5, 6, 7, 8], peer1)])"
  by (simp add: sample_queue_def sample_width numeral_2_eq_2)

lemma sample_burst_budget: "burst_budget sample_pool (batch_with_capacity 4) 8 = 2"
  by (simp add: burst_budget_def sample_pool_def)

section \<open>A stream that accepts writes\<close>

text \<open>A system on which every call succeeds at once; the examples replace single calls of it.\<close>

definition quiet_os :: "'k os" where
  "quiet_os = \<lparr>
     platform = Linux,
     socket_dgram = (\<lambda>_. pure 3),
     set_reuse_address = (\<lambda>_ _. pure ()), set_reuse_port = (\<lambda>_ _. pure ()),
     set_recv_buffer_size = (\<lambda>_ _. pure ()), recv_buffer_size = (\<lambda>_. pure 212992),
     set_send_buffer_size = (\<lambda>_ _. pure ()), send_buffer_size = (\<lambda>_. pure 212992),
     set_nonblocking = (\<lambda>_ _. pure ()), bind_addr = (\<lambda>_ _. pure ()),
     s2_peek = (\<lambda>_ _. fail would_block), s2_recv = (\<lambda>_ _. fail would_block),
     s2_recv_from = (\<lambda>_ _. fail would_block),
     local_addr_of = (\<lambda>_. pure (SocketAddrV4 2130706433 4242)),
     peer_addr_of = (\<lambda>_. pure (SocketAddrV4 2130706433 4243)),
     poll_new = pure 4, register = (\<lambda>_ _ _ _. pure ()),
     poll_wait = (\<lambda>_ _ _. None),
     mio_recv_from = (\<lambda>_ _. fail would_block),
     mio_send_dgram = (\<lambda>_ d. pure (word_of_nat (length d))),
     mio_send_dgram_to = (\<lambda>_ d _. pure (word_of_nat (length d))),
     mio_tcp_connect = (\<lambda>_. pure 5),
     mio_tcp_write = (\<lambda>_ d. pure (word_of_nat (length d))),
     take_error = (\<lambda>_. pure None),
     join_multicast_v4 = (\<lambda>_ _ _. pure ()), join_multicast_v6 = (\<lambda>_ _ _. pure ()),
     tk_from_std = (\<lambda>_. pure ()),
     tk_tcp_connect = (\<lambda>_ k. Some (Ok 5, k)),
     tk_readable = (\<lambda>_ _. None),
     tk_try_io = (\<lambda>_ _ call. call),
     tk_send_dgram = (\<lambda>_ d k. Some (Ok (word_of_nat (length d)), k)),
     tk_send_dgram_to = (\<lambda>_ d _ k. Some (Ok (word_of_nat (length d)), k)),
     tk_write_all = (\<lambda>_ _ k. Some (Ok (), k)),
     setsockopt = (\<lambda>_ _ _ k. (0, k)),
     last_os_error = (\<lambda>_. would_block),
     instant_now = (\<lambda>k. (0, k)), thread_sleep = (\<lambda>_ k. k), warn = (\<lambda>_ _ k. k),
     metrics_enabled = (\<lambda>_. False), counter_increment = (\<lambda>_ _ _ k. k)\<rparr>"

text \<open>
  The world of a stream: how often it will still block, and the bytes it has accepted. A write
  accepts two bytes at most; a poll uses up one stall.
\<close>

type_synonym sink_world = "nat \<times> bytes"

definition sink_write :: "bytes \<Rightarrow> sink_world \<Rightarrow> (usize, io_error) result \<times> sink_world" where
  "sink_write d k =
     (if fst k = 0 then (Ok (word_of_nat (min 2 (length d))), (0, snd k @ take 2 d)) else (Err would_block, k))"

definition sink_os :: "sink_world os" where
  "sink_os = quiet_os\<lparr>mio_tcp_write := (\<lambda>_. sink_write), poll_wait := (\<lambda>_ _ k. Some (Ok [], (fst k - 1, snd k)))\<rparr>"

lemma sink_os_calls [simp]:
  "mio_tcp_write sink_os s = sink_write" "poll_wait sink_os p t k = Some (Ok [], (fst k - 1, snd k))"
  by (simp_all add: sink_os_def)

lemma unat_min_two: "unat (word_of_nat (min 2 n) :: usize) = min 2 n"
  by (intro unat_word_of_nat_id) simp

lemma sink_write_law:
  "sink_write d k = (Ok n, k') \<Longrightarrow> unat n \<le> length d \<and> snd k' = snd k @ take (unat n) d \<and> fst k' = fst k"
  "sink_write d k = (Err e, k') \<Longrightarrow> k' = k \<and> 0 < fst k \<and> err_kind e = WouldBlock"
  by (auto simp: sink_write_def unat_min_two would_block_def min_def split: if_splits)

text \<open>A stream that holds bytes and stays open.\<close>

definition stream_read :: "nat \<Rightarrow> bytes \<Rightarrow> (bytes, io_error) result \<times> bytes" where
  "stream_read w k = (if k = [] then (Err would_block, []) else (Ok (take w k), drop w k))"

definition stream_os :: "bytes os" where
  "stream_os = quiet_os\<lparr>s2_recv := (\<lambda>_. stream_read)\<rparr>"

lemma stream_os_read [simp]: "s2_recv stream_os s = stream_read"
  by (simp add: stream_os_def)

end
