(* ===== verification/Mio_Poll.thy ===== *)
theory Mio_Poll imports Sys begin

text \<open>
  Waiting in the \<open>mio\<close> backend: the \<open>MSG_PEEK\<close> probe, the loop that parks the thread on the
  owned \<open>mio::Poll\<close> until a readable event of the given token arrives (\<open>ready\<close> of
  \<open>crates/mio/src/udp.rs\<close> and \<open>tcp.rs\<close>, which differ in the token), and the retry loop of the
  datagram sends.
\<close>

section \<open>Probe\<close>

definition probe_readable :: "'k os \<Rightarrow> fd \<Rightarrow> ('k, bool, io_error) eff" where
  "probe_readable sys s k =
     (case s2_peek sys s 1 k of
        (Ok _, k') \<Rightarrow> (Ok True, k')
      | (Err e, k') \<Rightarrow>
          (if err_kind e = WouldBlock then (Ok False, k')
           else if platform sys = Windows \<and> raw_os_error e = Some 10040 then (Ok True, k')
           else (Err e, k')))"

section \<open>Parking until readable\<close>

definition any_readable :: "nat \<Rightarrow> event list \<Rightarrow> bool" where
  "any_readable tok evs \<longleftrightarrow> list_ex (\<lambda>ev. ev_token ev = tok \<and> ev_readable ev) evs"

type_synonym 'k wait_result = "((unit, transport_error) result \<times> event list \<times> 'k) option"

definition park_round ::
  "'k os \<Rightarrow> poll_id \<Rightarrow> nat \<Rightarrow> event list \<times> 'k
     \<Rightarrow> (event list \<times> 'k, 'k wait_result) flow"
where
  "park_round sys p tok s =
     (case poll_wait sys p None (snd s) of
        None \<Rightarrow> Break None
      | Some (Err e, k') \<Rightarrow> Break (Some (Err (Io e), [], k'))
      | Some (Ok evs, k') \<Rightarrow>
          (if any_readable tok evs then Break (Some (Ok (), evs, k')) else Continue (evs, k')))"

definition wait_ready ::
  "'k os \<Rightarrow> fd \<Rightarrow> poll_id \<Rightarrow> nat \<Rightarrow> event list \<Rightarrow> 'k \<Rightarrow> 'k wait_result"
where
  "wait_ready sys s p tok evs k =
     (case probe_readable sys s k of
        (Err e, k') \<Rightarrow> Some (Err (Io e), evs, k')
      | (Ok True, k') \<Rightarrow> Some (Ok (), evs, k')
      | (Ok False, k') \<Rightarrow> run_blocking (park_round sys p tok) (evs, k'))"

section \<open>What a wait is meant to do\<close>

text \<open>The world after polls that brought the given lists of events, one after the other.\<close>

fun polls :: "'k os \<Rightarrow> poll_id \<Rightarrow> event list list \<Rightarrow> 'k \<Rightarrow> 'k option" where
  "polls sys p [] k = Some k"
| "polls sys p (evs # trace) k =
     (case poll_wait sys p None k of
        Some (Ok evs', k') \<Rightarrow> (if evs' = evs then polls sys p trace k' else None)
      | _ \<Rightarrow> None)"

definition no_wake :: "nat \<Rightarrow> event list \<Rightarrow> bool" where
  "no_wake tok evs \<longleftrightarrow> (\<forall>ev \<in> set evs. ev_token ev = tok \<longrightarrow> \<not> ev_readable ev)"

text \<open>
  The completed waits, by what the peek and the polls answered: the outcome, the events that are
  left in the transport if there was a poll, and the world. The thread polls only after a peek
  that would have blocked, and it stops at the first poll that fails or brings an event that is
  readable and carries the token.
\<close>

inductive awaits ::
  "'k os \<Rightarrow> fd \<Rightarrow> poll_id \<Rightarrow> nat \<Rightarrow> 'k \<Rightarrow> (unit, transport_error) result \<Rightarrow> event list option \<Rightarrow> 'k \<Rightarrow> bool"
  for sys :: "'k os" and s :: fd and p :: poll_id and tok :: nat
where
  seen: "s2_peek sys s 1 k = (Ok d, k') \<Longrightarrow> awaits sys s p tok k (Ok ()) None k'"
| too_large: "s2_peek sys s 1 k = (Err e, k') \<Longrightarrow> err_kind e \<noteq> WouldBlock \<Longrightarrow> platform sys = Windows \<Longrightarrow>
    raw_os_error e = Some 10040 \<Longrightarrow> awaits sys s p tok k (Ok ()) None k'"
| peek_failed: "s2_peek sys s 1 k = (Err e, k') \<Longrightarrow> err_kind e \<noteq> WouldBlock \<Longrightarrow>
    platform sys \<noteq> Windows \<or> raw_os_error e \<noteq> Some 10040 \<Longrightarrow> awaits sys s p tok k (Err (Io e)) None k'"
| woken: "s2_peek sys s 1 k = (Err e, k0) \<Longrightarrow> err_kind e = WouldBlock \<Longrightarrow>
    polls sys p trace k0 = Some k1 \<Longrightarrow> list_all (no_wake tok) trace \<Longrightarrow>
    poll_wait sys p None k1 = Some (Ok evs, k') \<Longrightarrow> ev \<in> set evs \<Longrightarrow> ev_token ev = tok \<Longrightarrow> ev_readable ev \<Longrightarrow>
    awaits sys s p tok k (Ok ()) (Some evs) k'"
| poll_failed: "s2_peek sys s 1 k = (Err e, k0) \<Longrightarrow> err_kind e = WouldBlock \<Longrightarrow>
    polls sys p trace k0 = Some k1 \<Longrightarrow> list_all (no_wake tok) trace \<Longrightarrow>
    poll_wait sys p None k1 = Some (Err e', k') \<Longrightarrow> awaits sys s p tok k (Err (Io e')) (Some []) k'"

lemma any_readable_iff: "any_readable tok evs \<longleftrightarrow> (\<exists>ev \<in> set evs. ev_token ev = tok \<and> ev_readable ev)"
  by (simp add: any_readable_def list_ex_iff)

lemma no_wake_iff: "no_wake tok evs \<longleftrightarrow> \<not> any_readable tok evs"
  by (auto simp: no_wake_def any_readable_iff)

lemma park_rounds:
  "(\<exists>evs'. rounds (park_round sys p tok) n (evs, k) = Some (evs', k')) \<longleftrightarrow>
     (\<exists>trace. length trace = n \<and> list_all (no_wake tok) trace \<and> polls sys p trace k = Some k')"
proof (induction n arbitrary: evs k)
  case 0
  then show ?case by auto
next
  case (Suc n)
  have "(\<exists>trace. length trace = Suc n \<and> list_all (no_wake tok) trace \<and> polls sys p trace k = Some k') \<longleftrightarrow>
      (\<exists>evs k1. poll_wait sys p None k = Some (Ok evs, k1) \<and> no_wake tok evs
        \<and> (\<exists>trace. length trace = n \<and> list_all (no_wake tok) trace \<and> polls sys p trace k1 = Some k'))"
  proof (intro iffI; elim exE conjE)
    fix evs k1 trace assume "poll_wait sys p None k = Some (Ok evs, k1)" "no_wake tok evs"
      "length trace = n" "list_all (no_wake tok) trace" "polls sys p trace k1 = Some k'"
    then show "\<exists>trace. length trace = Suc n \<and> list_all (no_wake tok) trace \<and> polls sys p trace k = Some k'"
      by (intro exI [of _ "evs # trace"]) simp
  qed (auto simp: length_Suc_conv split: option.splits prod.splits result.splits if_splits)
  moreover have "(\<exists>evs'. rounds (park_round sys p tok) (Suc n) (evs, k) = Some (evs', k')) \<longleftrightarrow>
      (\<exists>evs1 k1. poll_wait sys p None k = Some (Ok evs1, k1) \<and> no_wake tok evs1
        \<and> (\<exists>evs'. rounds (park_round sys p tok) n (evs1, k1) = Some (evs', k')))"
  proof -
    have "park_round sys p tok (evs, k) = Continue (evs1, k1) \<longleftrightarrow>
        poll_wait sys p None k = Some (Ok evs1, k1) \<and> no_wake tok evs1" for evs1 k1
      by (auto simp: park_round_def no_wake_iff split: option.splits prod.splits result.splits)
    then show ?thesis by (cases "park_round sys p tok (evs, k)") (auto, metis)
  qed
  ultimately show ?case by (simp only: Suc.IH)
qed

lemma park_returns_iff:
  "run_blocking (park_round sys p tok) (evs, k) = Some (r, evs', k') \<longleftrightarrow>
     (\<exists>trace k1. list_all (no_wake tok) trace \<and> polls sys p trace k = Some k1 \<and>
        ((\<exists>e. poll_wait sys p None k1 = Some (Err e, k') \<and> r = Err (Io e) \<and> evs' = [])
         \<or> (poll_wait sys p None k1 = Some (Ok evs', k') \<and> \<not> no_wake tok evs' \<and> r = Ok ())))"
proof -
  have "park_round sys p tok (evs1, k1) = Break (Some (r, evs', k')) \<longleftrightarrow>
      (\<exists>e. poll_wait sys p None k1 = Some (Err e, k') \<and> r = Err (Io e) \<and> evs' = [])
         \<or> (poll_wait sys p None k1 = Some (Ok evs', k') \<and> \<not> no_wake tok evs' \<and> r = Ok ())" for evs1 k1
    by (auto simp: park_round_def no_wake_iff split: option.splits prod.splits result.splits)
  moreover have "(\<exists>n evs1. rounds (park_round sys p tok) n (evs, k) = Some (evs1, k1)) \<longleftrightarrow>
      (\<exists>trace. list_all (no_wake tok) trace \<and> polls sys p trace k = Some k1)" for k1
    by (simp add: park_rounds)
  then have "(\<exists>n evs1 k1. rounds (park_round sys p tok) n (evs, k) = Some (evs1, k1) \<and> Q k1) \<longleftrightarrow>
      (\<exists>trace k1. list_all (no_wake tok) trace \<and> polls sys p trace k = Some k1 \<and> Q k1)" for Q by blast
  ultimately show ?thesis unfolding run_blocking_returns_iff by (simp add: split_paired_Ex)
qed

lemma wait_ready_awaits:
  "wait_ready sys s p tok evs k = Some (r, evs', k') \<longleftrightarrow>
     (\<exists>out. awaits sys s p tok k r out k' \<and> evs' = (case out of None \<Rightarrow> evs | Some es \<Rightarrow> es))"
proof -
  obtain pk k0 where pk: "s2_peek sys s 1 k = (pk, k0)" by force
  show ?thesis
  proof (cases "\<exists>e. pk = Err e \<and> err_kind e = WouldBlock")
    case False
    with pk show ?thesis
      by (cases pk) (auto simp: wait_ready_def probe_readable_def awaits.simps)
  next
    case True
    then obtain e where e: "s2_peek sys s 1 k = (Err e, k0)" "err_kind e = WouldBlock" using pk by blast
    then have "wait_ready sys s p tok evs k = run_blocking (park_round sys p tok) (evs, k0)"
      by (simp add: wait_ready_def probe_readable_def)
    moreover have "\<exists>out. awaits sys s p tok k r out k' \<and> evs' = (case out of None \<Rightarrow> evs | Some es \<Rightarrow> es)"
      if t: "list_all (no_wake tok) trace" "polls sys p trace k0 = Some k1"
        "(\<exists>e. poll_wait sys p None k1 = Some (Err e, k') \<and> r = Err (Io e) \<and> evs' = [])
         \<or> (poll_wait sys p None k1 = Some (Ok evs', k') \<and> \<not> no_wake tok evs' \<and> r = Ok ())" for trace k1
      using t(3)
    proof (elim disjE exE conjE)
      fix e' assume "poll_wait sys p None k1 = Some (Err e', k')" "r = Err (Io e')" "evs' = []"
      with awaits.poll_failed [OF e t(2,1)] show ?thesis by (intro exI [of _ "Some []"]) simp
    next
      assume w: "poll_wait sys p None k1 = Some (Ok evs', k')" "\<not> no_wake tok evs'" "r = Ok ()"
      from w(2) obtain ev where "ev \<in> set evs'" "ev_token ev = tok" "ev_readable ev" by (auto simp: no_wake_def)
      with awaits.woken [OF e t(2,1) w(1)] w(3) show ?thesis by (intro exI [of _ "Some evs'"]) simp
    qed
    moreover have "\<exists>trace k1. list_all (no_wake tok) trace \<and> polls sys p trace k0 = Some k1 \<and>
        ((\<exists>e. poll_wait sys p None k1 = Some (Err e, k') \<and> r = Err (Io e) \<and> (case out of None \<Rightarrow> evs | Some es \<Rightarrow> es) = [])
         \<or> (poll_wait sys p None k1 = Some (Ok (case out of None \<Rightarrow> evs | Some es \<Rightarrow> es), k')
             \<and> \<not> no_wake tok (case out of None \<Rightarrow> evs | Some es \<Rightarrow> es) \<and> r = Ok ()))"
      if a: "awaits sys s p tok k r out k'" for out
      using a e by cases (auto simp: no_wake_def)
    ultimately show ?thesis by (simp only: park_returns_iff) blast
  qed
qed

section \<open>A probe that sees what is there\<close>

text \<open>
  The documented behaviour of a peek: queued data is seen and stays, on Windows by the error for
  a datagram larger than the buffer.
\<close>

definition peek_sees :: "'k os \<Rightarrow> fd \<Rightarrow> ('k \<Rightarrow> 'a list) \<Rightarrow> bool" where
  "peek_sees sys s pend \<longleftrightarrow>
     (\<forall>k. pend k \<noteq> [] \<longrightarrow> (\<exists>d. s2_peek sys s 1 k = (Ok d, k))
        \<or> (\<exists>e. s2_peek sys s 1 k = (Err e, k) \<and> platform sys = Windows \<and> raw_os_error e = Some 10040
             \<and> err_kind e \<noteq> WouldBlock))"

lemma wait_ready_pending:
  "peek_sees sys s pend \<Longrightarrow> pend k \<noteq> [] \<Longrightarrow> wait_ready sys s p tok evs k = Some (Ok (), evs, k)"
  unfolding peek_sees_def by (drule spec [where x = k]) (auto simp: wait_ready_def probe_readable_def)

text \<open>
  Of the poll nothing is assumed: its events may be spurious, one may be missing although there is
  input, and the thread may stay parked. What was there when the wait began is there when it ends.
\<close>

lemma wait_ready_keeps:
  "peek_sees sys s pend \<Longrightarrow> wait_ready sys s p tok evs k = Some (Ok (), evs', k') \<Longrightarrow> \<exists>new. pend k' = pend k @ new"
  using wait_ready_pending [of sys s pend k p tok evs] by (cases "pend k = []") auto

section \<open>Retried sends\<close>

definition send_round ::
  "'k os \<Rightarrow> ('k, usize, io_error) eff \<Rightarrow> 'k \<Rightarrow> ('k, (usize, transport_error) result \<times> 'k) flow"
where
  "send_round sys call k =
     (case call k of
        (Ok n, k') \<Rightarrow> Break (Ok n, k')
      | (Err e, k') \<Rightarrow>
          (if err_kind e = WouldBlock then Continue (thread_sleep sys 1 k') else Break (Err (Io e), k')))"

text \<open>The world after \<open>n\<close> attempts that would have blocked, each followed by a sleep.\<close>

fun blocked_sends :: "'k os \<Rightarrow> ('k, usize, io_error) eff \<Rightarrow> nat \<Rightarrow> 'k \<Rightarrow> 'k option" where
  "blocked_sends sys call 0 k = Some k"
| "blocked_sends sys call (Suc n) k =
     (case call k of
        (Err e, k') \<Rightarrow> (if err_kind e = WouldBlock then blocked_sends sys call n (thread_sleep sys 1 k') else None)
      | _ \<Rightarrow> None)"

lemma send_rounds: "rounds (send_round sys call) n k = blocked_sends sys call n k"
  by (induction n arbitrary: k) (auto simp: send_round_def split: prod.splits result.splits)

lemma send_retry_iff:
  "run_loop (send_round sys call) k = Some (r, k') \<longleftrightarrow>
     (\<exists>n k1. blocked_sends sys call n k = Some k1 \<and>
        ((\<exists>m. call k1 = (Ok m, k') \<and> r = Ok m)
         \<or> (\<exists>e. call k1 = (Err e, k') \<and> err_kind e \<noteq> WouldBlock \<and> r = Err (Io e))))"
  unfolding run_loop_returns_iff send_rounds
  by (rule ex_cong1, rule ex_cong1) (auto simp: send_round_def split: prod.splits result.splits if_splits)

lemma send_retry_diverges:
  assumes "I k" and "\<And>k. I k \<Longrightarrow> \<exists>e k'. call k = (Err e, k') \<and> err_kind e = WouldBlock \<and> I (thread_sleep sys 1 k')"
  shows "run_loop (send_round sys call) k = None"
proof (rule run_loop_diverges [where I = I, OF assms(1)])
  fix k assume "I k"
  from assms(2) [OF this] show "\<exists>s'. send_round sys call k = Continue s' \<and> I s'"
    by (auto simp: send_round_def)
qed

end
