(* ===== verification/Mio_Udp.thy ===== *)
theory Mio_Udp imports Slab_Backend Sample_World Mio_Poll begin

text \<open>
  The UDP transport of the \<open>mio\<close> backend (\<open>crates/mio/src/udp.rs\<close>): \<open>bind\<close> with its socket
  options, \<open>recv_burst\<close>, \<open>ready\<close>, the sends, multicast and the accessors. The socket and the
  \<open>Poll\<close> are handles of the world; the rest of the struct is kept field by field.
\<close>

section \<open>State\<close>

record mio_udp =
  mu_sock :: fd
  mu_poll :: poll_id
  mu_events :: "event list"
  mu_pool :: vec_pool
  mu_batch_recv_size :: u32
  mu_last_peer :: "socket_addr option"
  mu_local :: socket_addr

definition UDP_TOKEN :: nat where "UDP_TOKEN = 0"
definition MIO_UDP_BACKEND :: string where "MIO_UDP_BACKEND = ''mio-udp''"

section \<open>Bind\<close>

definition warn_affinity :: "'k os \<Rightarrow> affinity_config \<Rightarrow> string \<Rightarrow> ('k, unit, 'e) eff" where
  "warn_affinity sys a backend =
     only_if (io_cpu a \<noteq> None \<or> sqpoll_cpu a \<noteq> None)
       (act (warn sys [(''backend'', backend)]
          ''CPU affinity requested but the mio backend owns no thread to pin; the caller pins its own recv loop''))"

definition domain_for_address :: "socket_addr \<Rightarrow> domain" where
  "domain_for_address a = (if is_ipv4 a then DomainIPV4 else DomainIPV6)"

definition mio_apply_socket_opts ::
  "'k os \<Rightarrow> fd \<Rightarrow> bind_config \<Rightarrow> recv_buf_config \<Rightarrow> send_buf_config \<Rightarrow> ('k, unit, transport_error) eff"
where
  "mio_apply_socket_opts sys s bind rx tx =
     and_then (only_if (reuse_addr bind) (io_err (set_reuse_address sys s True))) (\<lambda>_.
     and_then (only_if (platform sys \<noteq> Windows \<and> reuse_port bind) (io_err (set_reuse_port sys s True))) (\<lambda>_.
     and_then (request_buffer sys (set_recv_buffer_size sys) (recv_buffer_size sys)
       ''kernel granted less SO_RCVBUF than requested on UDP'' s (so_rcvbuf rx)) (\<lambda>_.
     request_buffer sys (set_send_buffer_size sys) (send_buffer_size sys)
       ''kernel granted less SO_SNDBUF than requested on UDP'' s (so_sndbuf tx))))"

definition mio_udp_setup ::
  "'k os \<Rightarrow> bind_config \<Rightarrow> recv_buf_config \<Rightarrow> send_buf_config \<Rightarrow> affinity_config
     \<Rightarrow> ('k, fd \<times> socket_addr \<times> poll_id, transport_error) eff"
where
  "mio_udp_setup sys bind rx tx affinity =
     and_then (warn_affinity sys affinity ''mio-udp'') (\<lambda>_.
     and_then (bind_err (bc_addr bind) (socket_dgram sys (domain_for_address (bc_addr bind)))) (\<lambda>s.
     and_then (mio_apply_socket_opts sys s bind rx tx) (\<lambda>_.
     and_then (io_err (set_nonblocking sys s True)) (\<lambda>_.
     and_then (bind_err (bc_addr bind) (bind_addr sys s (bc_addr bind))) (\<lambda>_.
     and_then (io_err (local_addr_of sys s)) (\<lambda>local.
     and_then (io_err (poll_new sys)) (\<lambda>p.
     and_then (io_err (register sys p s UDP_TOKEN [Readable])) (\<lambda>_.
     pure (s, local, p)))))))))"

text \<open>\<open>None\<close> is the panic of a pool that cannot be built.\<close>

definition mio_udp_bind ::
  "'k os \<Rightarrow> bind_config \<Rightarrow> recv_buf_config \<Rightarrow> send_buf_config \<Rightarrow> ring_config \<Rightarrow> batch_config \<Rightarrow> affinity_config
     \<Rightarrow> 'k \<Rightarrow> ((mio_udp, transport_error) result \<times> 'k) option"
where
  "mio_udp_bind sys bind rx tx ring batch affinity k =
     (case mio_udp_setup sys bind rx tx affinity k of
        (Err e, k') \<Rightarrow> Some (Err e, k')
      | (Ok (s, local, p), k') \<Rightarrow>
          (case build_pool (slab_count ring) (rc_slab_size ring) of
             None \<Rightarrow> None
           | Some pool \<Rightarrow>
               Some (Ok \<lparr>mu_sock = s, mu_poll = p, mu_events = [], mu_pool = pool,
                         mu_batch_recv_size = recv_size batch, mu_last_peer = None, mu_local = local\<rparr>, k')))"

section \<open>Receive\<close>

type_synonym 'k mio_burst =
  "((nat \<times> u64, transport_error) result \<times> mio_udp \<times> udp_frame frame_batch \<times> 'k) option"

text \<open>
  The loop of \<open>recv_burst\<close>: \<open>n\<close> frames so far, \<open>tot\<close> bytes so far. A slab that is not pushed
  is dropped where the round ends. \<open>None\<close> is an index panic of the slab.
\<close>

function mio_recv_loop ::
  "'k os \<Rightarrow> nat \<Rightarrow> nat \<Rightarrow> u64 \<Rightarrow> mio_udp \<Rightarrow> udp_frame frame_batch \<Rightarrow> 'k \<Rightarrow> 'k mio_burst"
where
  "mio_recv_loop sys cap n tot self out k =
     (if \<not> n < cap then Some (Ok (n, tot), self, out, k)
      else case acquire_slab (mu_pool self) (slab_size (mu_pool self)) of
        (None, pool) \<Rightarrow>
          (if n = 0 then Some (Err (PoolExhausted (pool_in_use pool) (pool_capacity pool)), self\<lparr>mu_pool := pool\<rparr>, out, k)
           else Some (Ok (n, tot), self\<lparr>mu_pool := pool\<rparr>, out, k))
      | (Some slab, pool) \<Rightarrow>
          (case buf_mut pool slab of
             None \<Rightarrow> None
           | Some buf \<Rightarrow>
               (case mio_recv_from sys (mu_sock self) (length buf) k of
                  (Ok (d, peer), k') \<Rightarrow>
                    (case write_buf pool slab d of
                       None \<Rightarrow> None
                     | Some pool' \<Rightarrow>
                         mio_recv_loop sys cap (Suc n) (tot + word_of_nat (length d))
                           (self\<lparr>mu_pool := pool', mu_last_peer := Some peer\<rparr>)
                           (batch_push \<lparr>uf_slab = set_len slab (word_of_nat (length d)), uf_peer = peer\<rparr> out) k')
                | (Err e, k') \<Rightarrow>
                    (if err_kind e = WouldBlock
                     then Some (Ok (n, tot), self\<lparr>mu_pool := drop_slab slab pool\<rparr>, out, k')
                     else Some (Err (Io e), self\<lparr>mu_pool := drop_slab slab pool\<rparr>, out, k')))))"
  by pat_completeness auto
termination by (relation "measure (\<lambda>(sys, cap, n, tot, self, out, k). cap - n)") auto

declare mio_recv_loop.simps [simp del]

definition mio_recv_burst ::
  "'k os \<Rightarrow> mio_udp \<Rightarrow> udp_frame frame_batch \<Rightarrow> usize \<Rightarrow> 'k
     \<Rightarrow> ((usize, transport_error) result \<times> mio_udp \<times> udp_frame frame_batch \<times> 'k) option"
where
  "mio_recv_burst sys self out mx k =
     (let cap = min mx (batch_spare out) in
      case mio_recv_loop sys (unat cap) 0 0 self out k of
        None \<Rightarrow> None
      | Some (Err e, self', out', k') \<Rightarrow> Some (Err e, self', out', k')
      | Some (Ok (n, tot), self', out', k') \<Rightarrow>
          Some (Ok (word_of_nat n), self', out',
                record_recv_burst sys MIO_UDP_BACKEND (word_of_nat n) tot k'))"

section \<open>Readiness, sends, multicast, accessors\<close>

definition mio_udp_ready ::
  "'k os \<Rightarrow> mio_udp \<Rightarrow> 'k \<Rightarrow> ((unit, transport_error) result \<times> mio_udp \<times> 'k) option"
where
  "mio_udp_ready sys self k =
     (case wait_ready sys (mu_sock self) (mu_poll self) UDP_TOKEN (mu_events self) k of
        None \<Rightarrow> None
      | Some (r, evs, k') \<Rightarrow> Some (r, self\<lparr>mu_events := evs\<rparr>, k'))"

definition mio_udp_send :: "'k os \<Rightarrow> mio_udp \<Rightarrow> bytes \<Rightarrow> 'k \<Rightarrow> ((usize, transport_error) result \<times> 'k) option" where
  "mio_udp_send sys self buf k = run_loop (send_round sys (mio_send_dgram sys (mu_sock self) buf)) k"

definition mio_udp_send_to ::
  "'k os \<Rightarrow> mio_udp \<Rightarrow> bytes \<Rightarrow> socket_addr \<Rightarrow> 'k \<Rightarrow> ((usize, transport_error) result \<times> 'k) option"
where
  "mio_udp_send_to sys self buf a k =
     run_loop (send_round sys (mio_send_dgram_to sys (mu_sock self) buf a)) k"

definition mio_join_multicast ::
  "'k os \<Rightarrow> mio_udp \<Rightarrow> ip_addr \<Rightarrow> multicast_interface \<Rightarrow> ('k, unit, transport_error) eff"
where
  "mio_join_multicast sys self grp iface =
     (case grp of
        V4 m \<Rightarrow> io_err (join_multicast_v4 sys (mu_sock self) m
                          (case mi_v4 iface of None \<Rightarrow> ipv4_unspecified | Some i \<Rightarrow> i))
      | V6 m \<Rightarrow> io_err (join_multicast_v6 sys (mu_sock self) m
                          (case v6_scope_id iface of None \<Rightarrow> 0 | Some sc \<Rightarrow> sc)))"

definition mio_local_addr :: "mio_udp \<Rightarrow> (socket_addr, transport_error) result" where
  "mio_local_addr self = Ok (mu_local self)"

section \<open>The loop is the reference loop\<close>

definition mio_rf :: "'k os \<Rightarrow> mio_udp \<Rightarrow> 'k recv_call" where
  "mio_rf sys self = mio_recv_from sys (mu_sock self)"

definition mio_unpack :: "mio_udp \<Rightarrow> 'k burst_result \<Rightarrow> 'k mio_burst" where
  "mio_unpack self = map_option (\<lambda>(r, p, lp, out, k). (r, self\<lparr>mu_pool := p, mu_last_peer := lp\<rparr>, out, k))"

lemma mio_recv_loop_burst:
  "mio_recv_loop sys cap n tot self out k =
     mio_unpack self (burst (mio_rf sys self) (cap - n) n tot (mu_pool self) (mu_last_peer self) out k)"
proof (induction sys cap n tot self out k rule: mio_recv_loop.induct)
  case (1 sys cap n tot self out k)
  show ?case
  proof (cases "n < cap")
    case False
    then show ?thesis by (simp add: mio_recv_loop.simps [of sys cap n] mio_unpack_def)
  next
    case True
    then have m: "cap - n = Suc (cap - Suc n)" by simp
    show ?thesis using True 1
      unfolding m by (subst mio_recv_loop.simps)
        (auto simp: burst.simps(2) mio_unpack_def mio_rf_def split: prod.split option.split result.split)
  qed
qed

lemma mio_recv_burst_call:
  "mio_recv_burst sys self out mx k =
     map_option (\<lambda>(r, p, lp, out, k). (r, self\<lparr>mu_pool := p, mu_last_peer := lp\<rparr>, out, k))
       (burst_call sys MIO_UDP_BACKEND (mio_rf sys self) (mu_pool self) (mu_last_peer self) out mx k)"
  by (simp add: mio_recv_burst_def burst_call_def mio_recv_loop_burst mio_unpack_def Let_def
      split: option.split prod.split result.split del: unat_min_word)

abbreviation mio_update :: "vec_pool \<Rightarrow> socket_addr option \<Rightarrow> mio_udp \<Rightarrow> mio_udp" where
  "mio_update p lp self \<equiv> self\<lparr>mu_pool := p, mu_last_peer := lp\<rparr>"

interpretation mio: slab_backend mio_recv_burst MIO_UDP_BACKEND mio_rf mu_pool
  "\<lambda>p self. self\<lparr>mu_pool := p\<rparr>" mu_last_peer mio_update
  by unfold_locales (simp_all add: mio_recv_burst_call mio_rf_def fun_eq_iff)

abbreviation mio_ops :: "(('k, mio_udp) backend_source, udp_frame, vec_pool, vec_slab) datagram_ops" where
  "mio_ops \<equiv> backend_ops mio_recv_burst mu_pool (\<lambda>p self. self\<lparr>mu_pool := p\<rparr>)"

section \<open>Properties of the receive\<close>

definition sample_mio :: mio_udp where
  "sample_mio = \<lparr>mu_sock = 3, mu_poll = 4, mu_events = [], mu_pool = sample_pool, mu_batch_recv_size = 0,
     mu_last_peer = None, mu_local = SocketAddrV4 2130706433 4242\<rparr>"

lemma sample_mio_pool [simp]: "mu_pool sample_mio = sample_pool"
  by (simp add: sample_mio_def)

lemma mio_rf_queue_os [simp]: "mio_rf queue_os self = queue_recv" "mio_recv_from queue_os s = queue_recv"
  by (simp_all add: mio_rf_def queue_os_def)

text \<open>
  C1: One \<open>recv_burst\<close> takes from the socket exactly the datagrams that calling \<open>recv_from\<close> up to
  \<open>min(max, spare, free slabs)\<close> times yields, up to the first error. Each becomes a frame that
  holds its bytes and its sender, in order, in a slab of its own; slabs held elsewhere read as
  before. \<open>WouldBlock\<close> ends the burst as a success with the count and the telemetry; another
  error is returned, with the frames received before it left in the batch and no telemetry.
\<close>

theorem mio_recv_burst_reaps:
  assumes "pool_ok (mu_pool self) L" and "batch_ok out" and "fits_buffer (mio_recv_from sys (mu_sock self))"
    and "free_list (mu_pool self) \<noteq> [] \<or> min mx (batch_spare out) = 0"
    and "reap (mio_recv_from sys (mu_sock self)) (unat (slab_size (mu_pool self)))
      (burst_budget (mu_pool self) out mx) k = (ds, e, k')"
  shows "\<exists>p fs. mio_recv_burst sys self out mx k =
      Some (if stop_ok e then Ok (word_of_nat (length ds)) else Err (Io (the e)),
            self\<lparr>mu_pool := p, mu_last_peer := bump_peer (mu_last_peer self) ds\<rparr>,
            out\<lparr>frames := frames out @ fs\<rparr>,
            if stop_ok e then record_recv_burst sys ''mio-udp'' (word_of_nat (length ds)) (total_bytes ds) k' else k')
    \<and> frames_hold p fs ds \<and> pool_ok p (L + mset (map frame_slot fs))
    \<and> (\<forall>sl. slab_index sl \<in># L \<longrightarrow> slab_as_ref p sl = slab_as_ref (mu_pool self) sl)"
  using assms unfolding mio_rf_def [of sys self, symmetric] MIO_UDP_BACKEND_def [symmetric]
  by (rule mio.reaps)

theorem mio_recv_burst_reaps_witness:
  "\<exists>p fs. mio_recv_burst queue_os sample_mio (batch_with_capacity 4) 8 sample_queue =
      Some (Ok 2, sample_mio\<lparr>mu_pool := p, mu_last_peer := Some peer2\<rparr>,
            batch_with_capacity 4\<lparr>frames := fs\<rparr>, [([4, 5, 6, 7, 8], peer1)])
    \<and> map (frame_payload p) fs = [Some [1, 2], Some [3]]"
proof -
  have free: "free_list (mu_pool sample_mio) \<noteq> [] \<or> min 8 (batch_spare (batch_with_capacity 4 :: udp_frame frame_batch)) = 0"
    by (simp add: sample_pool_def)
  from mio_recv_burst_reaps [OF _ batch_ok_new _ free, of "{#}" queue_os sample_queue] sample_pool_ok
  obtain p fs where r: "mio_recv_burst queue_os sample_mio (batch_with_capacity 4) 8 sample_queue =
      Some (Ok 2, sample_mio\<lparr>mu_pool := p, mu_last_peer := Some peer2\<rparr>, batch_with_capacity 4\<lparr>frames := fs\<rparr>,
        record_recv_burst queue_os ''mio-udp'' 2 3 [([4, 5, 6, 7, 8], peer1)])"
    "frames_hold p fs [([1, 2], peer1), ([3], peer2)]"
    by (fastforce simp: queue_recv_fits sample_burst_budget sample_reap stop_ok_def bump_peer_def total_bytes_def)
  from r(2) have "map (frame_payload p) fs = [Some [1, 2], Some [3]]"
    by (auto simp: frames_hold_def map_eq_Cons_conv)
  with r(1) show ?thesis unfolding queue_os_record by (intro exI [of _ p] exI [of _ fs] conjI)
qed

text \<open>
  C9: \<open>recv_burst\<close> answers \<open>PoolExhausted\<close> exactly when it was asked for at least one frame, the
  batch has room and every slab is out, whether or not the socket holds data; then it reports
  the pool's numbers and has touched neither the socket, nor the pool, nor the batch.
\<close>

theorem mio_recv_burst_exhausted_iff:
  assumes "pool_ok (mu_pool self) L" and "batch_ok out" and "fits_buffer (mio_recv_from sys (mu_sock self))"
  shows "mio_recv_burst sys self out mx k = Some (Err (PoolExhausted i c), rest) \<longleftrightarrow>
    0 < min mx (batch_spare out) \<and> pool_in_use (mu_pool self) = pool_capacity (mu_pool self)
    \<and> i = pool_in_use (mu_pool self) \<and> c = pool_capacity (mu_pool self) \<and> rest = (self, out, k)"
  using assms by (intro mio.exhausted_iff) (simp_all add: mio_rf_def)

theorem mio_recv_burst_exhausted_iff_witness:
  "\<forall>q. mio_recv_burst queue_os (sample_mio\<lparr>mu_pool := sample_pool\<lparr>free_list := []\<rparr>\<rparr>) (batch_with_capacity 4) 1 q =
     Some (Err (PoolExhausted 2 2), sample_mio\<lparr>mu_pool := sample_pool\<lparr>free_list := []\<rparr>\<rparr>, batch_with_capacity 4, q)"
proof -
  have full: "pool_ok (sample_pool\<lparr>free_list := []\<rparr>) {#0, 1#}"
    by (simp add: pool_ok_def sample_pool_def upt_rec)
  show ?thesis
    using mio_recv_burst_exhausted_iff [of "sample_mio\<lparr>mu_pool := sample_pool\<lparr>free_list := []\<rparr>\<rparr>" "{#0, 1#}"
        "batch_with_capacity 4" queue_os 1 _ 2 2] full
    by (simp add: queue_recv_fits batch_spare_def pool_in_use_def pool_capacity_def sample_pool_def)
qed

text \<open>
  Whatever the socket answers, \<open>recv_burst\<close> never panics on a slab index, never makes the
  batch reallocate, never adds more than \<open>min(max, spare)\<close> frames, reports on success exactly
  the number it added, and keeps every slot either free, in a live slab or in a new frame.
\<close>

theorem mio_recv_burst_safe:
  assumes "pool_ok (mu_pool self) L" and "batch_ok out" and "fits_buffer (mio_recv_from sys (mu_sock self))"
  shows "\<exists>r self' out' k' fs. mio_recv_burst sys self out mx k = Some (r, self', out', k')
    \<and> frames out' = frames out @ fs \<and> batch_cap out' = batch_cap out \<and> batch_ok out'
    \<and> length fs \<le> min (unat mx) (unat (batch_spare out))
    \<and> (\<forall>n. r = Ok n \<longrightarrow> unat n = length fs)
    \<and> pool_ok (mu_pool self') (L + mset (map frame_slot fs))"
  using assms by (intro mio.safe) (simp_all add: mio_rf_def)

theorem mio_recv_burst_safe_witness:
  "\<exists>r self' out' k'. mio_recv_burst queue_os sample_mio (batch_with_capacity 1) 100 sample_queue = Some (r, self', out', k')
     \<and> batch_cap out' = 1 \<and> length (frames out') \<le> 1"
  using mio_recv_burst_safe [of sample_mio "{#}" "batch_with_capacity 1" queue_os 100 sample_queue] sample_pool_ok
  by (fastforce simp: queue_recv_fits unat_batch_spare)

end
