(* ===== verification/Mio_Udp_Props.thy ===== *)
theory Mio_Udp_Props imports Mio_Udp begin

text \<open>
  What clients of the \<open>mio\<close> UDP transport rely on: readiness without
  a lost wake-up, and the retried sends.
\<close>

section \<open>Readiness\<close>

lemma peek_sees_ready:
  "peek_sees sys (mu_sock self) pend \<Longrightarrow> pend k \<noteq> [] \<Longrightarrow> mio_udp_ready sys self k = Some (Ok (), self, k)"
  by (simp add: mio_udp_ready_def wait_ready_pending)

lemma queue_peek_sees: "peek_sees queue_os s (\<lambda>k. k)"
proof -
  have "\<exists>d. s2_peek queue_os s 1 k = (Ok d, k)" if "k \<noteq> []" for k
    using that by (cases k) (auto simp: queue_os_def)
  then show ?thesis by (simp add: peek_sees_def)
qed

text \<open>
  C18: No wake-up is lost after a partial drain. When more datagrams are queued than a burst may
  take (by \<open>max\<close>, by the batch or by the free slabs, none included), the \<open>ready\<close> after the burst
  returns at once without polling, although the edge-triggered poll would not fire again.
\<close>

theorem mio_ready_after_partial_burst:
  assumes "pool_ok (mu_pool self) L" and "batch_ok out"
    and "udp_queue sys (mio_recv_from sys (mu_sock self)) pend" and "peek_sees sys (mu_sock self) pend"
    and "burst_budget (mu_pool self) out mx < length (pend k)"
  shows "\<exists>r self' out' k'. mio_recv_burst sys self out mx k = Some (r, self', out', k')
    \<and> mio_udp_ready sys self' k' = Some (Ok (), self', k')"
proof -
  have "udp_queue sys (mio_rf sys self) pend" using assms(3) by (simp add: mio_rf_def)
  from mio.leaves_queued [OF assms(1,2) this assms(5)] obtain r p lp out' k' where
    b: "mio_recv_burst sys self out mx k = Some (r, mio_update p lp self, out', k')" "pend k' \<noteq> []" .
  have "mio_udp_ready sys (mio_update p lp self) k' = Some (Ok (), mio_update p lp self, k')"
    by (rule peek_sees_ready [where pend = pend]) (use assms(4) b(2) in simp_all)
  with b(1) show ?thesis by blast
qed

theorem mio_ready_after_partial_burst_witness:
  "\<exists>r self' out' k'. mio_recv_burst queue_os sample_mio (batch_with_capacity 4) 8 sample_queue = Some (r, self', out', k')
     \<and> mio_udp_ready queue_os self' k' = Some (Ok (), self', k')"
  by (rule mio_ready_after_partial_burst [OF _ _ _ queue_peek_sees, where L = "{#}"])
     (simp_all add: sample_pool_ok queue_recv_is_queue sample_burst_budget, simp add: sample_queue_def)

section \<open>Sends\<close>

text \<open>
  \<open>send\<close> and \<open>send_to\<close> return exactly when, after some number of attempts that would have
  blocked and a sleep of a millisecond after each, an attempt succeeds or fails with another
  error: the count or the error of that attempt is the answer, and no attempt follows it.
\<close>

theorem mio_send_iff:
  "(mio_udp_send sys self buf k = Some (r, k') \<longleftrightarrow>
      (\<exists>n k1. blocked_sends sys (mio_send_dgram sys (mu_sock self) buf) n k = Some k1
         \<and> ((\<exists>m. mio_send_dgram sys (mu_sock self) buf k1 = (Ok m, k') \<and> r = Ok m)
            \<or> (\<exists>e. mio_send_dgram sys (mu_sock self) buf k1 = (Err e, k') \<and> err_kind e \<noteq> WouldBlock \<and> r = Err (Io e)))))
   \<and> (mio_udp_send_to sys self buf a k = Some (r, k') \<longleftrightarrow>
      (\<exists>n k1. blocked_sends sys (mio_send_dgram_to sys (mu_sock self) buf a) n k = Some k1
         \<and> ((\<exists>m. mio_send_dgram_to sys (mu_sock self) buf a k1 = (Ok m, k') \<and> r = Ok m)
            \<or> (\<exists>e. mio_send_dgram_to sys (mu_sock self) buf a k1 = (Err e, k') \<and> err_kind e \<noteq> WouldBlock \<and> r = Err (Io e)))))"
  unfolding mio_udp_send_def mio_udp_send_to_def by (intro conjI send_retry_iff)

end
