(* ===== verification/Stream_Io.thy ===== *)
theory Stream_Io imports Vec_Pool Sys begin

text \<open>
  The stream read that both TCP transports perform (\<open>recv_into\<close> of \<open>crates/mio/src/tcp.rs\<close> and
  \<open>crates/tokio/src/tcp.rs\<close>) and the buffer sizes they request.
\<close>

definition peer_closed :: transport_error where
  "peer_closed = Io (io_error_new UnexpectedEof ''peer closed'')"

text \<open>One nonblocking read of at most \<open>dst.len()\<close> bytes into the front of \<open>dst\<close>.\<close>

definition stream_recv_into :: "'k os \<Rightarrow> fd \<Rightarrow> bytes \<Rightarrow> 'k \<Rightarrow> (usize, transport_error) result \<times> bytes \<times> 'k" where
  "stream_recv_into sys s dst k =
     (case s2_recv sys s (length dst) k of
        (Ok d, k') \<Rightarrow>
          (if length d = 0 then (Err peer_closed, dst, k')
           else (Ok (word_of_nat (length d)), overwrite dst d, k'))
      | (Err e, k') \<Rightarrow>
          (if err_kind e = WouldBlock then (Ok 0, dst, k') else (Err (Io e), dst, k')))"

definition apply_tcp_socket_opts ::
  "'k os \<Rightarrow> fd \<Rightarrow> recv_buf_config \<Rightarrow> send_buf_config \<Rightarrow> ('k, unit, transport_error) eff"
where
  "apply_tcp_socket_opts sys s rx tx =
     and_then (request_buffer sys (set_recv_buffer_size sys) (recv_buffer_size sys)
       ''kernel granted less SO_RCVBUF than requested on TCP'' s (so_rcvbuf rx)) (\<lambda>_.
     request_buffer sys (set_send_buffer_size sys) (send_buffer_size sys)
       ''kernel granted less SO_SNDBUF than requested on TCP'' s (so_sndbuf tx))"

text \<open>
  The documented behaviour of a nonblocking stream read: \<open>unread\<close> is what the peer has sent and
  the reader has not taken, \<open>closed\<close> whether the peer has closed its side. A read with room takes
  a nonempty prefix of the data when there is data, reports the end of the stream when there is
  none and the peer has closed, and would block otherwise; a read without room takes nothing.
\<close>

definition stream_socket :: "'k os \<Rightarrow> fd \<Rightarrow> ('k \<Rightarrow> bytes) \<Rightarrow> ('k \<Rightarrow> bool) \<Rightarrow> bool" where
  "stream_socket sys s unread closed \<longleftrightarrow>
     (\<forall>w k. case s2_recv sys s w k of
        (Ok d, k') \<Rightarrow> closed k' = closed k \<and> length d \<le> w \<and> unread k = d @ unread k'
                     \<and> (d = [] \<longrightarrow> w = 0 \<or> unread k = [] \<and> closed k)
      | (Err e, k') \<Rightarrow> closed k' = closed k \<and> unread k' = unread k
                     \<and> (err_kind e = WouldBlock \<longrightarrow> unread k = [] \<and> \<not> closed k))"

lemma stream_socketD:
  "stream_socket sys s unread closed \<Longrightarrow>
     (case s2_recv sys s w k of
        (Ok d, k') \<Rightarrow> closed k' = closed k \<and> length d \<le> w \<and> unread k = d @ unread k'
                     \<and> (d = [] \<longrightarrow> w = 0 \<or> unread k = [] \<and> closed k)
      | (Err e, k') \<Rightarrow> closed k' = closed k \<and> unread k' = unread k
                     \<and> (err_kind e = WouldBlock \<longrightarrow> unread k = [] \<and> \<not> closed k))"
  unfolding stream_socket_def by (elim allE)

text \<open>
  What a read into \<open>dst\<close> means for the caller, by its answer: a positive count is the number of
  bytes moved, in order, from the stream into the front of \<open>dst\<close>, the rest of it untouched; zero
  is an open stream with nothing to read; \<open>UnexpectedEof\<close> from a buffer with room is a stream
  that is read out and closed.
\<close>

definition read_meaning ::
  "('k \<Rightarrow> bytes) \<Rightarrow> ('k \<Rightarrow> bool) \<Rightarrow> bytes \<Rightarrow> 'k \<Rightarrow> (usize, transport_error) result \<times> bytes \<times> 'k \<Rightarrow> bool"
where
  "read_meaning unread closed dst k res \<longleftrightarrow>
     (case res of
        (Ok n, dst', k') \<Rightarrow>
          unat n \<le> length dst \<and> unread k = take (unat n) dst' @ unread k'
          \<and> drop (unat n) dst' = drop (unat n) dst \<and> length dst' = length dst
          \<and> (n = 0 \<longrightarrow> unread k = [] \<and> \<not> closed k)
      | (Err e, dst', k') \<Rightarrow> dst' = dst \<and> unread k' = unread k
          \<and> (e = peer_closed \<longrightarrow> dst = [] \<or> unread k = [] \<and> closed k))"

lemma stream_recv_meaning:
  assumes "stream_socket sys s unread closed" and "length dst < 2 ^ 64"
    and "\<And>w k e k'. s2_recv sys s w k = (Err e, k') \<Longrightarrow> err_kind e \<noteq> UnexpectedEof"
  shows "read_meaning unread closed dst k (stream_recv_into sys s dst k)"
proof -
  obtain r k' where r: "s2_recv sys s (length dst) k = (r, k')" by force
  note law = stream_socketD [OF assms(1), where w = "length dst" and k = k, unfolded r]
  show ?thesis
  proof (cases r)
    case (Ok d)
    with law have d: "length d \<le> length dst" "unread k = d @ unread k'"
      "d = [] \<longrightarrow> dst = [] \<or> unread k = [] \<and> closed k" by auto
    then have u: "unat (word_of_nat (length d) :: usize) = length d"
      using assms(2) by (intro unat_word_of_nat_id) simp
    have "(word_of_nat (length d) :: usize) = 0 \<longleftrightarrow> length d = 0" using u by (simp flip: unat_eq_0)
    then have z: "(word_of_nat (length d) :: usize) = 0 \<longleftrightarrow> d = []" by simp
    have ow: "take (length d) (overwrite dst d) = d" "drop (length d) (overwrite dst d) = drop (length d) dst"
      using d(1) by (simp_all add: overwrite_def)
    show ?thesis using r Ok d u z ow
      by (auto simp: stream_recv_into_def read_meaning_def)
  next
    case (Err e)
    with law have e: "unread k' = unread k" "err_kind e = WouldBlock \<longrightarrow> unread k = [] \<and> \<not> closed k" by auto
    have "err_kind e \<noteq> UnexpectedEof" using assms(3) r Err by blast
    then have "Io e \<noteq> peer_closed" by (auto simp: peer_closed_def)
    with r Err e show ?thesis
      by (auto simp: stream_recv_into_def read_meaning_def)
  qed
qed

end
