(* ===== verification/Stream_Source.thy ===== *)
theory Stream_Source imports Stream_Io begin

text \<open>
  The contract of \<open>StreamSource\<close> (\<open>crates/core/src/transport.rs\<close>) as a locale, and what a reader
  may conclude from it: a stream is read in order, without loss, and a reader of a stream that
  the peer has closed is told so after it has everything, instead of spinning on empty reads.
\<close>

section \<open>A reader\<close>

text \<open>
  Reads into a list of buffers, one after the other, up to the first error: the bytes that were
  marked as initialised, the error if there was one, and the source.
\<close>

fun read_buffers ::
  "('s \<Rightarrow> bytes \<Rightarrow> (usize, transport_error) result \<times> bytes \<times> 's) \<Rightarrow> bytes list \<Rightarrow> 's
     \<Rightarrow> bytes \<times> transport_error option \<times> 's"
where
  "read_buffers recv [] s = ([], None, s)"
| "read_buffers recv (dst # dsts) s =
     (case recv s dst of
        (Err e, dst', s') \<Rightarrow> ([], Some e, s')
      | (Ok n, dst', s') \<Rightarrow>
          (case read_buffers recv dsts s' of (bs, e, s'') \<Rightarrow> (take (unat n) dst' @ bs, e, s'')))"

text \<open>A buffer a reader may pass: room for a byte, and a length that fits \<open>usize\<close>.\<close>

definition has_room :: "bytes \<Rightarrow> bool" where
  "has_room dst \<longleftrightarrow> dst \<noteq> [] \<and> length dst < 2 ^ 64"

section \<open>The contract\<close>

text \<open>\<open>holds s u c\<close>: the stream of source \<open>s\<close> still carries \<open>u\<close>; \<open>c\<close> says whether the peer has closed it.\<close>

locale stream_source =
  fixes recv :: "'s \<Rightarrow> bytes \<Rightarrow> (usize, transport_error) result \<times> bytes \<times> 's"
    and holds :: "'s \<Rightarrow> bytes \<Rightarrow> bool \<Rightarrow> bool"
  assumes recv_data: "holds s u c \<Longrightarrow> u \<noteq> [] \<Longrightarrow> has_room dst \<Longrightarrow>
      \<exists>n s'. recv s dst = (Ok n, overwrite dst (take (unat n) u), s') \<and> 0 < n \<and> unat n \<le> length dst
        \<and> unat n \<le> length u \<and> holds s' (drop (unat n) u) c"
    and recv_idle: "holds s [] False \<Longrightarrow> has_room dst \<Longrightarrow> \<exists>s'. recv s dst = (Ok 0, dst, s') \<and> holds s' [] False"
    and recv_end: "holds s [] True \<Longrightarrow> has_room dst \<Longrightarrow> \<exists>s'. recv s dst = (Err peer_closed, dst, s') \<and> holds s' [] True"
begin

lemma recv_step:
  assumes "holds s u c" and "has_room dst"
  obtains (data) n s' where "recv s dst = (Ok n, overwrite dst (take (unat n) u), s')" "0 < n"
      "unat n \<le> length u" "take (unat n) (overwrite dst (take (unat n) u)) = take (unat n) u" "holds s' (drop (unat n) u) c"
  | (idle) s' where "u = []" "\<not> c" "recv s dst = (Ok 0, dst, s')" "holds s' [] False"
  | (end_of_stream) s' where "u = []" "c" "recv s dst = (Err peer_closed, dst, s')" "holds s' [] True"
proof (cases "u = []")
  case False
  from recv_data [OF assms(1) False assms(2)] obtain n s' where
    r: "recv s dst = (Ok n, overwrite dst (take (unat n) u), s')" "0 < n" "unat n \<le> length dst" "unat n \<le> length u"
    "holds s' (drop (unat n) u) c" by blast
  have "take (unat n) (overwrite dst (take (unat n) u)) = take (unat n) u"
    using take_overwrite [of "take (unat n) u" dst] r(3,4) by simp
  with r show ?thesis by (intro data)
next
  case True
  with assms recv_idle [of s dst] recv_end [of s dst] idle end_of_stream show ?thesis by (cases c) auto
qed

lemma reads_in_order:
  assumes "holds s u c" and "list_all has_room dsts"
  shows "\<exists>m e s'. read_buffers recv dsts s = (take m u, e, s') \<and> m \<le> length u \<and> holds s' (drop m u) c
    \<and> (e = None \<or> (e = Some peer_closed \<and> c \<and> m = length u))
    \<and> (c \<and> length u < length dsts \<longrightarrow> e = Some peer_closed)
    \<and> (length u \<le> length dsts \<longrightarrow> m = length u)"
  using assms
proof (induction dsts arbitrary: s u)
  case Nil
  then show ?case by (intro exI [of _ 0] exI [of _ None] exI [of _ s]) auto
next
  case (Cons dst dsts)
  from Cons.prems(2) have room: "has_room dst" "list_all has_room dsts" by simp_all
  from Cons.prems(1) room(1) show ?case
  proof (cases rule: recv_step)
    case (data n s')
    from Cons.IH [OF data(5) room(2)] obtain m e s'' where
      r: "read_buffers recv dsts s' = (take m (drop (unat n) u), e, s'')" "m \<le> length (drop (unat n) u)"
      "holds s'' (drop m (drop (unat n) u)) c" "e = None \<or> e = Some peer_closed \<and> c \<and> m = length (drop (unat n) u)"
      "c \<and> length (drop (unat n) u) < length dsts \<longrightarrow> e = Some peer_closed"
      "length (drop (unat n) u) \<le> length dsts \<longrightarrow> m = length (drop (unat n) u)" by blast
    have pos: "0 < unat n" using data(2) by (simp add: word_less_nat_alt)
    have "take (unat n) u @ take m (drop (unat n) u) = take (unat n + m) u" by (simp add: take_add)
    with r data pos show ?thesis
      by (intro exI [of _ "unat n + m"] exI [of _ e] exI [of _ s'']) (auto simp: add.commute)
  next
    case (idle s')
    have "holds s' u c" using idle by simp
    from Cons.IH [OF this room(2)] show ?thesis using idle by auto
  next
    case (end_of_stream s')
    then show ?thesis by (intro exI [of _ 0] exI [of _ "Some peer_closed"] exI [of _ s']) auto
  qed
qed

end

section \<open>The read of the backends\<close>

text \<open>A stream without faults: the only error of a read is that it would block.\<close>

definition reliable_stream :: "'k os \<Rightarrow> fd \<Rightarrow> bool" where
  "reliable_stream sys s \<longleftrightarrow> (\<forall>w k e k'. s2_recv sys s w k = (Err e, k') \<longrightarrow> err_kind e = WouldBlock)"

definition stream_holds :: "'k os \<Rightarrow> fd \<Rightarrow> 'k \<Rightarrow> bytes \<Rightarrow> bool \<Rightarrow> bool" where
  "stream_holds sys s k u c \<longleftrightarrow>
     reliable_stream sys s \<and> (\<exists>unread closed. stream_socket sys s unread closed \<and> unread k = u \<and> closed k = c)"

lemma stream_law_recv:
  assumes "reliable_stream sys s" and "stream_socket sys s unread closed" and "has_room dst"
  shows "\<exists>k'. closed k' = closed k
    \<and> (unread k \<noteq> [] \<longrightarrow> (\<exists>n. stream_recv_into sys s dst k = (Ok n, overwrite dst (take (unat n) (unread k)), k') \<and> 0 < n
            \<and> unat n \<le> length dst \<and> unat n \<le> length (unread k) \<and> unread k' = drop (unat n) (unread k)))
    \<and> (unread k = [] \<longrightarrow> stream_recv_into sys s dst k = (if closed k then Err peer_closed else Ok 0, dst, k') \<and> unread k' = [])"
proof -
  obtain r k' where r: "s2_recv sys s (length dst) k = (r, k')" by force
  note sock = stream_socketD [OF assms(2), where w = "length dst" and k = k, unfolded r]
  show ?thesis
  proof (cases r)
    case (Ok d)
    with sock have d: "closed k' = closed k" "length d \<le> length dst" "unread k = d @ unread k'"
      "d = [] \<longrightarrow> dst = [] \<or> unread k = [] \<and> closed k" by auto
    have len: "unat (word_of_nat (length d) :: usize) = length d"
      using d(2) assms(3) by (intro unat_word_of_nat_id) (simp add: has_room_def)
    show ?thesis
    proof (cases "d = []")
      case True
      with d assms(3) have "unread k = []" "closed k" "unread k' = []" by (auto simp: has_room_def)
      with r Ok True d(1) show ?thesis by (intro exI [of _ k']) (simp add: stream_recv_into_def)
    next
      case False
      then have "0 < (word_of_nat (length d) :: usize)" using len by (simp add: word_less_nat_alt)
      with r Ok False len d show ?thesis
        by (intro exI [of _ k']) (auto simp: stream_recv_into_def intro!: exI [of _ "word_of_nat (length d)"])
    qed
  next
    case (Err e)
    have would: "err_kind e = WouldBlock" using assms(1) r Err unfolding reliable_stream_def by blast
    with sock Err have "unread k = []" "\<not> closed k" "unread k' = []" "closed k' = closed k" by auto
    with r Err would show ?thesis by (intro exI [of _ k']) (simp add: stream_recv_into_def)
  qed
qed

lemma stream_holds_recv:
  assumes "stream_holds sys s k u c" and "has_room dst"
  shows "\<exists>k'. (u \<noteq> [] \<longrightarrow> (\<exists>n. stream_recv_into sys s dst k = (Ok n, overwrite dst (take (unat n) u), k') \<and> 0 < n
            \<and> unat n \<le> length dst \<and> unat n \<le> length u \<and> stream_holds sys s k' (drop (unat n) u) c))
    \<and> (u = [] \<longrightarrow> stream_recv_into sys s dst k = (if c then Err peer_closed else Ok 0, dst, k') \<and> stream_holds sys s k' [] c)"
proof -
  from assms(1) obtain unread closed where law: "reliable_stream sys s" "stream_socket sys s unread closed"
    "unread k = u" "closed k = c" by (auto simp: stream_holds_def)
  have hold: "stream_holds sys s k' u' c" if "unread k' = u'" "closed k' = c" for k' u'
    using law(1,2) that unfolding stream_holds_def by blast
  from stream_law_recv [OF law(1,2) assms(2), of k, unfolded law(3,4)] obtain k' where k': "closed k' = c"
    "u \<noteq> [] \<longrightarrow> (\<exists>n. stream_recv_into sys s dst k = (Ok n, overwrite dst (take (unat n) u), k') \<and> 0 < n
       \<and> unat n \<le> length dst \<and> unat n \<le> length u \<and> unread k' = drop (unat n) u)"
    "u = [] \<longrightarrow> stream_recv_into sys s dst k = (if c then Err peer_closed else Ok 0, dst, k') \<and> unread k' = []" by blast
  show ?thesis
    by (rule exI [of _ k'], intro conjI impI) (use k' hold in blast)+
qed

text \<open>A read of an open stream and what the reader takes of it: something when there is input.\<close>

lemma stream_reads_open:
  assumes "reliable_stream sys s" and "stream_socket sys s unread (\<lambda>_. False)" and "has_room dst"
  shows "\<exists>n dst' k'. stream_recv_into sys s dst k = (Ok n, dst', k') \<and> take (unat n) dst' = take (unat n) (unread k)
    \<and> unread k' = drop (unat n) (unread k) \<and> (unread k \<noteq> [] \<longrightarrow> 0 < n)"
proof (cases "unread k = []")
  case True
  with stream_law_recv [OF assms, of k] show ?thesis by auto
next
  case False
  with stream_law_recv [OF assms, of k] obtain n k' where r:
    "stream_recv_into sys s dst k = (Ok n, overwrite dst (take (unat n) (unread k)), k')" "0 < n"
    "unat n \<le> length dst" "unat n \<le> length (unread k)" "unread k' = drop (unat n) (unread k)" by blast
  with take_overwrite [of "take (unat n) (unread k)" dst] show ?thesis by auto
qed

definition stream_reads ::
  "('s \<Rightarrow> bytes \<Rightarrow> (usize, transport_error) result \<times> bytes \<times> 's) \<Rightarrow> bytes \<Rightarrow> 's \<Rightarrow> (bytes \<times> 's) option"
where
  "stream_reads recv dst s =
     (case recv s dst of
        (Ok n, dst', s') \<Rightarrow> Some (take (unat n) dst', s')
      | (Err e, dst', s') \<Rightarrow> None)"

end
