(* ===== verification/Mio_Tcp.thy ===== *)
theory Mio_Tcp imports Stream_Source Mio_Udp begin

text \<open>
  The TCP transport of the \<open>mio\<close> backend (\<open>crates/mio/src/tcp.rs\<close>): \<open>connect\<close> with the bounded
  wait for the handshake, \<open>recv_into\<close>, \<open>ready\<close> and the looped \<open>send\<close>.
\<close>

section \<open>State\<close>

record mio_tcp =
  mt_stream :: fd
  mt_poll :: poll_id
  mt_events :: "event list"
  mt_pool :: vec_pool
  mt_peer :: socket_addr

definition TCP_TOKEN :: nat where "TCP_TOKEN = 1"

section \<open>Connect\<close>

definition any_writable :: "nat \<Rightarrow> event list \<Rightarrow> bool" where
  "any_writable tok evs \<longleftrightarrow> list_ex (\<lambda>ev. ev_token ev = tok \<and> ev_writable ev) evs"

definition timed_out :: transport_error where
  "timed_out = Io (io_error_new TimedOut ''tcp connect timed out'')"

definition connect_round ::
  "'k os \<Rightarrow> poll_id \<Rightarrow> fd \<Rightarrow> nat \<Rightarrow> event list \<times> 'k \<Rightarrow> (event list \<times> 'k, 'k wait_result) flow"
where
  "connect_round sys p s deadline st =
     (case poll_wait sys p (Some 100) (snd st) of
        None \<Rightarrow> Break None
      | Some (Err e, k') \<Rightarrow> Break (Some (Err (Io e), [], k'))
      | Some (Ok evs, k') \<Rightarrow>
          (if any_writable TCP_TOKEN evs
           then case take_error sys s k' of
                  (Err e, k'') \<Rightarrow> Break (Some (Err (Io e), evs, k''))
                | (Ok (Some e), k'') \<Rightarrow> Break (Some (Err (Io e), evs, k''))
                | (Ok None, k'') \<Rightarrow> Break (Some (Ok (), evs, k''))
           else case instant_now sys k' of
                  (t, k'') \<Rightarrow>
                    (if deadline \<le> t then Break (Some (Err timed_out, evs, k''))
                     else Continue (evs, k''))))"

definition wait_connect :: "'k os \<Rightarrow> mio_tcp \<Rightarrow> 'k \<Rightarrow> ((unit, transport_error) result \<times> mio_tcp \<times> 'k) option" where
  "wait_connect sys self k =
     (case instant_now sys k of
        (t0, k0) \<Rightarrow>
          (case run_blocking (connect_round sys (mt_poll self) (mt_stream self) (t0 + 5000)) (mt_events self, k0) of
             None \<Rightarrow> None
           | Some (r, evs, k') \<Rightarrow> Some (r, self\<lparr>mt_events := evs\<rparr>, k')))"

definition mio_tcp_setup ::
  "'k os \<Rightarrow> bind_config \<Rightarrow> recv_buf_config \<Rightarrow> send_buf_config \<Rightarrow> affinity_config
     \<Rightarrow> ('k, fd \<times> poll_id, transport_error) eff"
where
  "mio_tcp_setup sys bind rx tx affinity =
     and_then (warn_affinity sys affinity ''mio-tcp'') (\<lambda>_.
     and_then (bind_err (bc_addr bind) (mio_tcp_connect sys (bc_addr bind))) (\<lambda>s.
     and_then (apply_tcp_socket_opts sys s rx tx) (\<lambda>_.
     and_then (io_err (poll_new sys)) (\<lambda>p.
     and_then (io_err (register sys p s TCP_TOKEN [Readable, Writable])) (\<lambda>_.
     pure (s, p))))))"

text \<open>\<open>None\<close>: the pool cannot be built (a panic), or a poll with a timeout never returns.\<close>

definition mio_tcp_connect_to ::
  "'k os \<Rightarrow> bind_config \<Rightarrow> recv_buf_config \<Rightarrow> send_buf_config \<Rightarrow> ring_config \<Rightarrow> affinity_config
     \<Rightarrow> 'k \<Rightarrow> ((mio_tcp, transport_error) result \<times> 'k) option"
where
  "mio_tcp_connect_to sys bind rx tx ring affinity k =
     (case mio_tcp_setup sys bind rx tx affinity k of
        (Err e, k') \<Rightarrow> Some (Err e, k')
      | (Ok (s, p), k') \<Rightarrow>
          (case build_pool (slab_count ring) (rc_slab_size ring) of
             None \<Rightarrow> None
           | Some pool \<Rightarrow>
               (case wait_connect sys \<lparr>mt_stream = s, mt_poll = p, mt_events = [], mt_pool = pool,
                                      mt_peer = bc_addr bind\<rparr> k' of
                  None \<Rightarrow> None
                | Some (Err e, inst, k'') \<Rightarrow> Some (Err e, k'')
                | Some (Ok _, inst, k'') \<Rightarrow>
                    (case peer_addr_of sys (mt_stream inst) k'' of
                       (Ok a, k3) \<Rightarrow> Some (Ok (inst\<lparr>mt_peer := a\<rparr>), k3)
                     | (Err _, k3) \<Rightarrow> Some (Ok inst, k3)))))"

section \<open>Receive, readiness, send\<close>

definition mio_recv_into :: "'k os \<Rightarrow> mio_tcp \<Rightarrow> bytes \<Rightarrow> 'k \<Rightarrow> (usize, transport_error) result \<times> bytes \<times> 'k" where
  "mio_recv_into sys self dst k = stream_recv_into sys (mt_stream self) dst k"

text \<open>The transport with its world as a source of the stream contract.\<close>

definition mio_stream_recv ::
  "'k os \<times> mio_tcp \<times> 'k \<Rightarrow> bytes \<Rightarrow> (usize, transport_error) result \<times> bytes \<times> ('k os \<times> mio_tcp \<times> 'k)"
where
  "mio_stream_recv s dst =
     (case s of (sys, self, k) \<Rightarrow> case mio_recv_into sys self dst k of (r, dst', k') \<Rightarrow> (r, dst', (sys, self, k')))"

interpretation mio_stream: stream_source mio_stream_recv "\<lambda>(sys, self, k). stream_holds sys (mt_stream self) k"
proof (unfold_locales, goal_cases)
  case (1 s u c dst)
  obtain sys self k where s: "s = (sys, self, k)" by (cases s)
  with 1 stream_holds_recv [of sys "mt_stream self" k u c dst] show ?case
    by (auto simp: mio_stream_recv_def mio_recv_into_def)
next
  case (2 s dst)
  obtain sys self k where s: "s = (sys, self, k)" by (cases s)
  with 2 stream_holds_recv [of sys "mt_stream self" k "[]" False dst] show ?case
    by (auto simp: mio_stream_recv_def mio_recv_into_def)
next
  case (3 s dst)
  obtain sys self k where s: "s = (sys, self, k)" by (cases s)
  with 3 stream_holds_recv [of sys "mt_stream self" k "[]" True dst] show ?case
    by (auto simp: mio_stream_recv_def mio_recv_into_def)
qed

definition mio_tcp_ready ::
  "'k os \<Rightarrow> mio_tcp \<Rightarrow> 'k \<Rightarrow> ((unit, transport_error) result \<times> mio_tcp \<times> 'k) option"
where
  "mio_tcp_ready sys self k =
     (case wait_ready sys (mt_stream self) (mt_poll self) TCP_TOKEN (mt_events self) k of
        None \<Rightarrow> None
      | Some (r, evs, k') \<Rightarrow> Some (r, self\<lparr>mt_events := evs\<rparr>, k'))"

definition write_zero :: transport_error where
  "write_zero = Io (io_error_new WriteZero ''write returned zero'')"

definition send_loop_round ::
  "'k os \<Rightarrow> mio_tcp \<Rightarrow> bytes \<Rightarrow> usize \<times> event list \<times> 'k
     \<Rightarrow> (usize \<times> event list \<times> 'k, 'k wait_result) flow"
where
  "send_loop_round sys self buf st =
     (case st of (off, evs, k) \<Rightarrow>
        if \<not> unat off < length buf then Break (Some (Ok (), evs, k))
        else case mio_tcp_write sys (mt_stream self) (drop (unat off) buf) k of
          (Ok n, k') \<Rightarrow>
            (if n = 0 then Break (Some (Err write_zero, evs, k')) else Continue (off + n, evs, k'))
        | (Err e, k') \<Rightarrow>
            (if err_kind e = WouldBlock
             then case poll_wait sys (mt_poll self) (Some 50) k' of
                    None \<Rightarrow> Break None
                  | Some (Err e', k'') \<Rightarrow> Break (Some (Err (Io e'), [], k''))
                  | Some (Ok evs', k'') \<Rightarrow> Continue (off, evs', k'')
             else Break (Some (Err (Io e), evs, k'))))"

definition mio_tcp_send ::
  "'k os \<Rightarrow> mio_tcp \<Rightarrow> bytes \<Rightarrow> 'k \<Rightarrow> ((unit, transport_error) result \<times> mio_tcp \<times> 'k) option"
where
  "mio_tcp_send sys self buf k =
     (case run_blocking (send_loop_round sys self buf) (0, mt_events self, k) of
        None \<Rightarrow> None
      | Some (r, evs, k') \<Rightarrow> Some (r, self\<lparr>mt_events := evs\<rparr>, k'))"

section \<open>Properties of send\<close>

text \<open>
  The documented behaviour of a stream's \<open>write\<close>: \<open>wrote\<close> is what the stream has accepted so
  far. A write accepts a prefix of its argument and tells its length; a failed write accepts
  nothing, and polling does not write.
\<close>

definition tcp_sink :: "'k os \<Rightarrow> fd \<Rightarrow> ('k \<Rightarrow> bytes) \<Rightarrow> bool" where
  "tcp_sink sys s wrote \<longleftrightarrow>
     (\<forall>d k n k'. mio_tcp_write sys s d k = (Ok n, k') \<longrightarrow> unat n \<le> length d \<and> wrote k' = wrote k @ take (unat n) d)
   \<and> (\<forall>d k e k'. mio_tcp_write sys s d k = (Err e, k') \<longrightarrow> wrote k' = wrote k)
   \<and> (\<forall>p t k r k'. poll_wait sys p t k = Some (r, k') \<longrightarrow> wrote k' = wrote k)"

lemma tcp_sinkD:
  assumes "tcp_sink sys s wrote"
  shows "mio_tcp_write sys s d k = (Ok n, k') \<Longrightarrow> unat n \<le> length d \<and> wrote k' = wrote k @ take (unat n) d"
    and "mio_tcp_write sys s d k = (Err e, k') \<Longrightarrow> wrote k' = wrote k"
    and "poll_wait sys p t k = Some (r, k') \<Longrightarrow> wrote k' = wrote k"
  using assms unfolding tcp_sink_def by blast+

definition sent_prefix :: "('k \<Rightarrow> bytes) \<Rightarrow> 'k \<Rightarrow> bytes \<Rightarrow> usize \<times> event list \<times> 'k \<Rightarrow> bool" where
  "sent_prefix wrote k0 buf st \<longleftrightarrow>
     (case st of (off, evs, k) \<Rightarrow> unat off \<le> length buf \<and> wrote k = wrote k0 @ take (unat off) buf)"

lemma send_advance:
  fixes off n :: usize
  assumes "unat off < length buf" and "unat n \<le> length (drop (unat off) buf)" and "length buf < 2 ^ 64"
  shows "unat (off + n) = unat off + unat n"
    and "take (unat off) buf @ take (unat n) (drop (unat off) buf) = take (unat (off + n)) buf"
proof -
  have "unat off + unat n < 2 ^ 64" using assms by simp
  then show u: "unat (off + n) = unat off + unat n" by (simp add: unat_word_ariths)
  show "take (unat off) buf @ take (unat n) (drop (unat off) buf) = take (unat (off + n)) buf"
    by (simp add: u take_add)
qed

lemma send_round_continue:
  assumes "tcp_sink sys (mt_stream self) wrote" and "length buf < 2 ^ 64"
    and "sent_prefix wrote k0 buf (off, evs, k)"
    and "send_loop_round sys self buf (off, evs, k) = Continue (off', evs', k')"
  shows "sent_prefix wrote k0 buf (off', evs', k')"
    and "(\<exists>n. mio_tcp_write sys (mt_stream self) (drop (unat off) buf) k = (Ok n, k') \<and> n \<noteq> 0
            \<and> unat off' = unat off + unat n \<and> unat off < length buf \<and> unat off' \<le> length buf)
       \<or> (\<exists>e k1. mio_tcp_write sys (mt_stream self) (drop (unat off) buf) k = (Err e, k1) \<and> err_kind e = WouldBlock
            \<and> poll_wait sys (mt_poll self) (Some 50) k1 = Some (Ok evs', k') \<and> off' = off)"
proof -
  from assms(3) have I: "unat off \<le> length buf" "wrote k = wrote k0 @ take (unat off) buf"
    by (simp_all add: sent_prefix_def)
  from assms(4) have lt: "unat off < length buf" by (auto simp: send_loop_round_def split: if_splits)
  obtain r k1 where w: "mio_tcp_write sys (mt_stream self) (drop (unat off) buf) k = (r, k1)" by force
  have both: "sent_prefix wrote k0 buf (off', evs', k') \<and>
      ((\<exists>n. r = Ok n \<and> k1 = k' \<and> n \<noteq> 0 \<and> unat off' = unat off + unat n \<and> unat off' \<le> length buf)
       \<or> (\<exists>e. r = Err e \<and> err_kind e = WouldBlock
            \<and> poll_wait sys (mt_poll self) (Some 50) k1 = Some (Ok evs', k') \<and> off' = off))"
  proof (cases r)
    case (Ok n)
    with assms(4) w lt have c: "n \<noteq> 0" "off' = off + n" "k' = k1"
      by (auto simp: send_loop_round_def split: if_splits)
    from tcp_sinkD(1) [OF assms(1)] w Ok
    have n: "unat n \<le> length (drop (unat off) buf)" "wrote k1 = wrote k @ take (unat n) (drop (unat off) buf)" by blast+
    from send_advance [OF lt n(1) assms(2)] n I c Ok show ?thesis by (simp add: sent_prefix_def)
  next
    case (Err e)
    with assms(4) w lt have c: "err_kind e = WouldBlock" "off' = off"
      "poll_wait sys (mt_poll self) (Some 50) k1 = Some (Ok evs', k')"
      by (auto simp: send_loop_round_def split: if_splits option.splits prod.splits result.splits)
    have "wrote k' = wrote k1" by (rule tcp_sinkD(3) [OF assms(1) c(3)])
    moreover have "wrote k1 = wrote k" using tcp_sinkD(2) [OF assms(1)] w Err by blast
    ultimately show ?thesis using I c Err by (simp add: sent_prefix_def)
  qed
  then show "sent_prefix wrote k0 buf (off', evs', k')" by blast
  show "(\<exists>n. mio_tcp_write sys (mt_stream self) (drop (unat off) buf) k = (Ok n, k') \<and> n \<noteq> 0
            \<and> unat off' = unat off + unat n \<and> unat off < length buf \<and> unat off' \<le> length buf)
       \<or> (\<exists>e k1. mio_tcp_write sys (mt_stream self) (drop (unat off) buf) k = (Err e, k1) \<and> err_kind e = WouldBlock
            \<and> poll_wait sys (mt_poll self) (Some 50) k1 = Some (Ok evs', k') \<and> off' = off)"
    using both w lt by blast
qed

lemma send_round_break:
  assumes "tcp_sink sys (mt_stream self) wrote" and "sent_prefix wrote k0 buf (off, evs, k)"
    and "send_loop_round sys self buf (off, evs, k) = Break (Some (r, evs', k'))"
  shows "\<exists>m \<le> length buf. wrote k' = wrote k0 @ take m buf \<and> (r = Ok () \<longleftrightarrow> m = length buf)"
proof (cases "unat off < length buf")
  case False
  with assms(2,3) show ?thesis by (auto simp: send_loop_round_def sent_prefix_def)
next
  case True
  obtain x k1 where w: "mio_tcp_write sys (mt_stream self) (drop (unat off) buf) k = (x, k1)" by force
  have "wrote k' = wrote k \<and> r \<noteq> Ok ()"
  proof (cases x)
    case (Ok n)
    with assms(3) w True have "n = 0" "k' = k1" "r = Err write_zero"
      by (auto simp: send_loop_round_def split: if_splits)
    with tcp_sinkD(1) [OF assms(1)] w Ok show ?thesis by fastforce
  next
    case (Err e)
    with tcp_sinkD(2) [OF assms(1)] w have "wrote k1 = wrote k" by blast
    with assms(3) w True Err tcp_sinkD(3) [OF assms(1)] show ?thesis
      by (auto simp: send_loop_round_def split: if_splits option.splits prod.splits result.splits)
  qed
  with assms(2) True show ?thesis
    by (intro exI [of _ "unat off"]) (simp add: sent_prefix_def)
qed

text \<open>
  C19: \<open>send\<close> on the \<open>mio\<close> stream writes the caller's bytes in order and without gaps or repeats:
  when it returns \<open>Ok\<close>, the stream has accepted exactly the whole buffer; when it returns an
  error, exactly a proper prefix of it, however the writes were split and however often the
  socket would have blocked.
\<close>

theorem mio_tcp_send_delivers:
  assumes "tcp_sink sys (mt_stream self) wrote" and "length buf < 2 ^ 64"
    and "mio_tcp_send sys self buf k = Some (r, self', k')"
  shows "\<exists>m \<le> length buf. wrote k' = wrote k @ take m buf \<and> (r = Ok () \<longleftrightarrow> m = length buf)"
proof -
  from assms(3) obtain evs where
    run: "run_blocking (send_loop_round sys self buf) (0, mt_events self, k) = Some (r, evs, k')"
    by (auto simp: mio_tcp_send_def split: option.splits)
  have "case (r, evs, k') of (r, evs, k') \<Rightarrow>
      \<exists>m \<le> length buf. wrote k' = wrote k @ take m buf \<and> (r = Ok () \<longleftrightarrow> m = length buf)"
  proof (rule run_blocking_invariant [where I = "sent_prefix wrote k buf", OF run])
    show "sent_prefix wrote k buf (0, mt_events self, k)" by (simp add: sent_prefix_def)
  next
    fix s s' assume "sent_prefix wrote k buf s" "send_loop_round sys self buf s = Continue s'"
    then show "sent_prefix wrote k buf s'"
      by (cases s, cases s') (use send_round_continue(1) [OF assms(1,2)] in blast)
  next
    fix s x assume "sent_prefix wrote k buf s" "send_loop_round sys self buf s = Break (Some x)"
    then show "case x of (r, evs, k') \<Rightarrow>
        \<exists>m \<le> length buf. wrote k' = wrote k @ take m buf \<and> (r = Ok () \<longleftrightarrow> m = length buf)"
      by (cases s, cases x) (use send_round_break [OF assms(1)] in fastforce)
  qed
  then show ?thesis by simp
qed

lemma sink_os_sink: "tcp_sink sink_os s snd"
  unfolding tcp_sink_def by (auto dest: sink_write_law)

definition sample_tcp :: mio_tcp where
  "sample_tcp = \<lparr>mt_stream = 5, mt_poll = 4, mt_events = [], mt_pool = sample_pool,
     mt_peer = SocketAddrV4 2130706433 4243\<rparr>"

lemma sample_send:
  "mio_tcp_send sink_os sample_tcp [1, 2, 3] (1, []) = Some (Ok (), sample_tcp, (0, [1, 2, 3]))"
  by (simp add: mio_tcp_send_def send_loop_round_def sink_write_def would_block_def loop_steps sample_tcp_def)

theorem mio_tcp_send_delivers_witness:
  "mio_tcp_send sink_os sample_tcp [1, 2, 3] (1, []) = Some (Ok (), sample_tcp, (0, [1, 2, 3]))
    \<and> (\<exists>m \<le> length [1, 2, 3 :: u8]. snd (0 :: nat, [1, 2, 3 :: u8]) = snd (1 :: nat, []) @ take m [1, 2, 3])"
proof -
  have len: "length [1, 2, 3 :: u8] < 2 ^ 64" by simp
  from mio_tcp_send_delivers [OF sink_os_sink len sample_send] sample_send show ?thesis by blast
qed

text \<open>
  C25: \<open>send\<close> returns whenever the socket cannot block for ever: if the timed poll returns and every
  would-block uses up one of finitely many stalls, the loop ends (each accepted write shortens
  what is left, since a write of zero bytes is an error).
\<close>

theorem mio_tcp_send_returns:
  fixes stalls :: "'k \<Rightarrow> nat"
  assumes "tcp_sink sys (mt_stream self) wrote" and "length buf < 2 ^ 64"
    and "\<And>d k n k'. mio_tcp_write sys (mt_stream self) d k = (Ok n, k') \<Longrightarrow> stalls k' \<le> stalls k"
    and "\<And>d k e k'. mio_tcp_write sys (mt_stream self) d k = (Err e, k') \<Longrightarrow> err_kind e = WouldBlock \<Longrightarrow>
      \<exists>r k''. poll_wait sys (mt_poll self) (Some 50) k' = Some (r, k'') \<and> stalls k'' < stalls k"
  shows "\<exists>r self' k'. mio_tcp_send sys self buf k = Some (r, self', k')"
proof -
  let ?m = "\<lambda>(off, evs, k). (length buf - unat (off :: usize)) + stalls k"
  have "\<exists>r. run_blocking (send_loop_round sys self buf) (0, mt_events self, k) = Some r"
  proof (rule run_blocking_terminates [where I = "sent_prefix wrote k buf" and m = ?m])
    show "sent_prefix wrote k buf (0, mt_events self, k)" by (simp add: sent_prefix_def)
  next
    fix s s' assume s: "sent_prefix wrote k buf s" "send_loop_round sys self buf s = Continue s'"
    obtain off evs k1 off' evs' k2 where eq: "s = (off, evs, k1)" "s' = (off', evs', k2)"
      by (metis prod_cases3)
    note c = send_round_continue [OF assms(1,2) s [unfolded eq]]
    from c(2) have "?m s' < ?m s"
    proof (elim disjE exE conjE)
      fix n assume n: "mio_tcp_write sys (mt_stream self) (drop (unat off) buf) k1 = (Ok n, k2)" "n \<noteq> 0"
        "unat off' = unat off + unat n" "unat off < length buf" "unat off' \<le> length buf"
      from assms(3) [OF n(1)] have "stalls k2 \<le> stalls k1" .
      moreover have "0 < unat n" using n(2) by (simp add: unat_gt_0)
      ultimately show ?thesis using n(3-5) by (simp add: eq)
    next
      fix e k3 assume e: "mio_tcp_write sys (mt_stream self) (drop (unat off) buf) k1 = (Err e, k3)"
        "err_kind e = WouldBlock" "poll_wait sys (mt_poll self) (Some 50) k3 = Some (Ok evs', k2)" "off' = off"
      from assms(4) [OF e(1,2)] e(3) have "stalls k2 < stalls k1" by auto
      then show ?thesis by (simp add: eq e(4))
    qed
    with c(1) show "sent_prefix wrote k buf s' \<and> ?m s' < ?m s" by (simp add: eq)
  next
    fix s assume "sent_prefix wrote k buf s"
    obtain off evs k1 where eq: "s = (off, evs, k1)" by (metis prod_cases3)
    show "send_loop_round sys self buf s \<noteq> Break None"
      using assms(4) [of "drop (unat off) buf" k1]
      by (force simp: send_loop_round_def eq split: if_splits option.splits prod.splits result.splits)
  qed
  then show ?thesis by (auto simp: mio_tcp_send_def)
qed

theorem mio_tcp_send_returns_witness:
  "\<exists>r self' k'. mio_tcp_send sink_os sample_tcp [1, 2, 3] (7, []) = Some (r, self', k')"
  by (rule mio_tcp_send_returns [OF sink_os_sink, where stalls = fst]) (auto dest: sink_write_law)

section \<open>Properties of connect\<close>

text \<open>
  The behaviour of the clock and the timed poll that bounds the wait. The clock never goes back; a
  poll with a timeout returns, at most \<open>slack\<close> milliseconds later, and so does the query of the
  pending error. A poll may return at once, because of an event. The ones that bring no writable
  event of the socket take time, \<open>m\<close> counting how many may still end before the clock's next tick:
  events of other kinds do not keep waking the thread without end while the clock stands still.
\<close>

definition timed_polls :: "'k os \<Rightarrow> poll_id \<Rightarrow> fd \<Rightarrow> ('k \<Rightarrow> nat) \<Rightarrow> ('k \<Rightarrow> nat) \<Rightarrow> nat \<Rightarrow> nat \<Rightarrow> bool" where
  "timed_polls sys p s now m B slack \<longleftrightarrow>
     (\<forall>k. instant_now sys k = (now k, k)) \<and> (\<forall>k. m k \<le> B)
   \<and> (\<forall>k. \<exists>r k'. poll_wait sys p (Some 100) k = Some (r, k') \<and> now k \<le> now k' \<and> now k' \<le> now k + slack
        \<and> (\<forall>evs. r = Ok evs \<and> (\<forall>ev \<in> set evs. ev_token ev = TCP_TOKEN \<longrightarrow> \<not> ev_writable ev) \<longrightarrow> later now m k k'))
   \<and> (\<forall>k r k'. take_error sys s k = (r, k') \<longrightarrow> now k \<le> now k' \<and> now k' \<le> now k + slack)"

lemma timed_polls_poll:
  assumes "timed_polls sys p s now m B slack"
  obtains r k' where "poll_wait sys p (Some 100) k = Some (r, k')" "now k \<le> now k'" "now k' \<le> now k + slack"
    "\<And>evs. r = Ok evs \<Longrightarrow> \<not> any_writable TCP_TOKEN evs \<Longrightarrow> later now m k k'"
  using assms unfolding timed_polls_def any_writable_def list_ex_iff by blast

lemma timed_polls_clock: "timed_polls sys p s now m B slack \<Longrightarrow> instant_now sys k = (now k, k) \<and> m k \<le> B"
  unfolding timed_polls_def by blast

text \<open>A round either comes nearer to the deadline or ends the wait within two calls.\<close>

lemma connect_round_timed:
  assumes "timed_polls sys p s now m B slack" and "start \<le> now k" and "now k - start < 5000"
  shows "(\<exists>evs' k'. connect_round sys p s (start + 5000) (evs, k) = Continue (evs', k') \<and> start \<le> now k'
        \<and> now k' - start < 5000 \<and> (start + 5000 - now k') * Suc B + m k' < (start + 5000 - now k) * Suc B + m k)
    \<or> (\<exists>r evs' k'. connect_round sys p s (start + 5000) (evs, k) = Break (Some (r, evs', k'))
        \<and> now k' \<le> start + 5000 + 2 * slack)"
proof -
  obtain r k1 where p: "poll_wait sys p (Some 100) k = Some (r, k1)" "now k \<le> now k1" "now k1 \<le> now k + slack"
    "\<And>evs. r = Ok evs \<Longrightarrow> \<not> any_writable TCP_TOKEN evs \<Longrightarrow> later now m k k1"
    by (rule timed_polls_poll [OF assms(1), where k = k]) (rule that)
  have soon: "now k1 \<le> start + 5000 + slack" using p(3) assms(3) by simp
  note clock = timed_polls_clock [OF assms(1)]
  show ?thesis
  proof (cases r)
    case (Err e)
    with p(1) soon show ?thesis by (simp add: connect_round_def)
  next
    case (Ok evs1)
    show ?thesis
    proof (cases "any_writable TCP_TOKEN evs1")
      case True
      obtain x k2 where t: "take_error sys s k1 = (x, k2)" by force
      with assms(1) have "now k2 \<le> now k1 + slack" unfolding timed_polls_def by blast
      with soon have "now k2 \<le> start + 5000 + 2 * slack" by simp
      with p(1) Ok True t show ?thesis
        by (auto simp: connect_round_def split: result.splits option.splits)
    next
      case False
      note near = later_decreases [OF p(4) [OF Ok False] conjunct2 [OF clock] assms(2,3)]
      show ?thesis
      proof (cases "start + 5000 \<le> now k1")
        case True
        with p(1) Ok False clock soon show ?thesis by (simp add: connect_round_def)
      next
        case early: False
        with p(1) Ok False clock near show ?thesis by (simp add: connect_round_def)
      qed
    qed
  qed
qed

text \<open>
  C26: The wait for the handshake is bounded: over timed polls that behave as documented, waking
  up early or late, \<open>wait_connect\<close> returns, no later than five seconds and two calls after it began.
\<close>

theorem wait_connect_bounded:
  assumes "timed_polls sys (mt_poll self) (mt_stream self) now m B slack"
  shows "\<exists>r self' k'. wait_connect sys self k = Some (r, self', k') \<and> now k' \<le> now k + 5000 + 2 * slack"
proof -
  let ?body = "connect_round sys (mt_poll self) (mt_stream self) (now k + 5000)"
  let ?I = "\<lambda>st :: event list \<times> 'a. now k \<le> now (snd st) \<and> now (snd st) - now k < 5000"
  let ?m = "\<lambda>st :: event list \<times> 'a. (now k + 5000 - now (snd st)) * Suc B + m (snd st)"
  have round: "(\<exists>st'. ?body st = Continue st' \<and> ?I st' \<and> ?m st' < ?m st)
      \<or> (\<exists>x. ?body st = Break (Some x) \<and> now (snd (snd x)) \<le> now k + 5000 + 2 * slack)" if I: "?I st" for st
  proof -
    obtain evs k1 where st: "st = (evs, k1)" by (cases st)
    from I have "now k \<le> now k1" "now k1 - now k < 5000" by (simp_all add: st)
    from connect_round_timed [OF assms this, of evs] show ?thesis
    proof
      assume "\<exists>evs' k'. ?body (evs, k1) = Continue (evs', k') \<and> now k \<le> now k' \<and> now k' - now k < 5000
        \<and> (now k + 5000 - now k') * Suc B + m k' < (now k + 5000 - now k1) * Suc B + m k1"
      then show ?thesis unfolding st by (intro disjI1) (simp add: split_paired_Ex)
    next
      assume "\<exists>r evs' k'. ?body (evs, k1) = Break (Some (r, evs', k')) \<and> now k' \<le> now k + 5000 + 2 * slack"
      then show ?thesis unfolding st by (intro disjI2) (simp add: split_paired_Ex)
    qed
  qed
  have I0: "?I (mt_events self, k)" by simp
  have "\<exists>x. run_blocking ?body (mt_events self, k) = Some x"
    by (rule run_blocking_terminates [where I = ?I and m = ?m, OF I0]) (use round in fastforce)+
  then obtain r evs k' where x: "run_blocking ?body (mt_events self, k) = Some (r, evs, k')" by auto
  have "now (snd (snd (r, evs, k'))) \<le> now k + 5000 + 2 * slack"
    by (rule run_blocking_invariant [where I = ?I, OF x I0]) (use round in fastforce)+
  with x timed_polls_clock [OF assms, of k] show ?thesis by (simp add: wait_connect_def)
qed

text \<open>
  A world of a clock and a number of early wake-ups: while there are some, a poll returns at once
  with a readable event; otherwise it waits the whole timeout and reports nothing.
\<close>

definition clock_os :: "(nat \<times> nat) os" where
  "clock_os = quiet_os\<lparr>instant_now := (\<lambda>k. (fst k, k)),
     poll_wait := (\<lambda>_ t k. Some (if snd k = 0
       then (Ok [], (fst k + (case t of None \<Rightarrow> 1 | Some ms \<Rightarrow> ms), 3))
       else (Ok [\<lparr>ev_token = 1, ev_readable = True, ev_writable = False\<rparr>], (fst k, min 3 (snd k) - 1))))\<rparr>"

text \<open>A world in which the handshake is done: every poll returns at once with a writable event.\<close>

definition connected_os :: "unit os" where
  "connected_os = quiet_os\<lparr>poll_wait := (\<lambda>_ _ k. Some (Ok [\<lparr>ev_token = 1, ev_readable = False, ev_writable = True\<rparr>], k))\<rparr>"

theorem wait_connect_bounded_witness:
  "(\<exists>r self' k'. wait_connect clock_os sample_tcp (7, 2) = Some (r, self', k') \<and> fst k' \<le> 5207)
    \<and> (\<exists>r self'. wait_connect connected_os sample_tcp () = Some (r, self', ()))"
proof (rule conjI)
  have "timed_polls clock_os (mt_poll sample_tcp) (mt_stream sample_tcp) fst (\<lambda>k. min 3 (snd k)) 3 100"
    by (auto simp: timed_polls_def clock_os_def quiet_os_def pure_def later_def)
  from wait_connect_bounded [OF this, of "(7, 2)"]
  show "\<exists>r self' k'. wait_connect clock_os sample_tcp (7, 2) = Some (r, self', k') \<and> fst k' \<le> 5207" by simp
  have "timed_polls connected_os (mt_poll sample_tcp) (mt_stream sample_tcp) (\<lambda>_. 0) (\<lambda>_. 0) 0 0"
    by (auto simp: timed_polls_def connected_os_def quiet_os_def pure_def TCP_TOKEN_def)
  from wait_connect_bounded [OF this, of "()"] show "\<exists>r self'. wait_connect connected_os sample_tcp () = Some (r, self', ())" by simp
qed

text \<open>
  C20: \<open>wait_connect\<close> succeeds only on a writable event of the TCP token, and only when the socket's
  pending error was then asked for and there was none; it reports the time-out only when the
  clock has reached the deadline.
\<close>

theorem wait_connect_sound:
  assumes "wait_connect sys self k = Some (r, self', k')"
  shows "case r of
      Ok _ \<Rightarrow> any_writable TCP_TOKEN (mt_events self') \<and> (\<exists>k1. take_error sys (mt_stream self) k1 = (Ok None, k'))
    | Err e \<Rightarrow>
        (\<exists>e' k1. e = Io e' \<and> poll_wait sys (mt_poll self) (Some 100) k1 = Some (Err e', k'))
      \<or> (\<exists>e' k1. e = Io e' \<and> any_writable TCP_TOKEN (mt_events self')
           \<and> take_error sys (mt_stream self) k1 \<in> {(Err e', k'), (Ok (Some e'), k')})
      \<or> (\<exists>t k1. e = timed_out \<and> instant_now sys k1 = (t, k') \<and> fst (instant_now sys k) + 5000 \<le> t)"
proof -
  obtain t0 k0 where t: "instant_now sys k = (t0, k0)" by force
  let ?body = "connect_round sys (mt_poll self) (mt_stream self) (t0 + 5000)"
  from assms t obtain evs where run: "run_blocking ?body (mt_events self, k0) = Some (r, evs, k')"
    and ev: "mt_events self' = evs"
    by (auto simp: wait_connect_def split: option.splits)
  then obtain n st where b: "?body st = Break (Some (r, evs, k'))" by (auto simp: run_blocking_returns_iff)
  then show ?thesis unfolding ev
    by (auto simp: connect_round_def t split: option.splits prod.splits result.splits if_splits)
qed

lemma sample_wait_connect:
  "wait_connect connected_os sample_tcp () =
     Some (Ok (), sample_tcp\<lparr>mt_events := [\<lparr>ev_token = 1, ev_readable = False, ev_writable = True\<rparr>]\<rparr>, ())"
  by (simp add: wait_connect_def connect_round_def connected_os_def quiet_os_def any_writable_def TCP_TOKEN_def
      pure_def loop_steps)

theorem wait_connect_sound_witness:
  "\<exists>self'. wait_connect connected_os sample_tcp () = Some (Ok (), self', ())
     \<and> any_writable TCP_TOKEN (mt_events self') \<and> (\<exists>k1. take_error connected_os 5 k1 = (Ok None, ()))"
  using wait_connect_sound [OF sample_wait_connect] sample_wait_connect by (auto simp: sample_tcp_def)

end
