(* ===== verification/Mio_Transport.thy ===== *)
theory Mio_Transport imports Mio_Udp Mio_Tcp begin

text \<open>
  The public enum of the \<open>mio\<close> backend (\<open>crates/mio/src/lib.rs\<close>) and its trait implementations:
  each dispatches to the variant, and the receive or datagram operations of the wrong shape are
  refused as unsupported. An \<open>async fn\<close> that never awaits is its body.
\<close>

datatype mio_transport = MioUdp mio_udp | MioTcp mio_tcp

fun mio_name :: "mio_transport \<Rightarrow> string" where
  "mio_name (MioUdp _) = ''mio-udp''"
| "mio_name (MioTcp _) = ''mio-tcp''"

fun mio_send :: "'k os \<Rightarrow> mio_transport \<Rightarrow> bytes \<Rightarrow> 'k \<Rightarrow> ((unit, transport_error) result \<times> mio_transport \<times> 'k) option" where
  "mio_send sys (MioUdp u) buf k =
     map_option (\<lambda>(r, k'). (map_ok (\<lambda>_. ()) r, MioUdp u, k')) (mio_udp_send sys u buf k)"
| "mio_send sys (MioTcp t) buf k =
     map_option (\<lambda>(r, t', k'). (r, MioTcp t', k')) (mio_tcp_send sys t buf k)"

fun mio_transport_recv_burst ::
  "'k os \<Rightarrow> mio_transport \<Rightarrow> udp_frame frame_batch \<Rightarrow> usize \<Rightarrow> 'k
     \<Rightarrow> ((usize, transport_error) result \<times> mio_transport \<times> udp_frame frame_batch \<times> 'k) option"
where
  "mio_transport_recv_burst sys (MioUdp u) out mx k =
     map_option (\<lambda>(r, u', out', k'). (r, MioUdp u', out', k')) (mio_recv_burst sys u out mx k)"
| "mio_transport_recv_burst sys (MioTcp t) out mx k =
     Some (Err (Unsupported ''mio-tcp'' ''recv_burst is datagram-only; use recv_into''), MioTcp t, out, k)"

fun mio_transport_recv_into ::
  "'k os \<Rightarrow> mio_transport \<Rightarrow> bytes \<Rightarrow> 'k \<Rightarrow> (usize, transport_error) result \<times> bytes \<times> 'k"
where
  "mio_transport_recv_into sys (MioTcp t) dst k = mio_recv_into sys t dst k"
| "mio_transport_recv_into sys (MioUdp u) dst k =
     (Err (Unsupported ''mio-udp'' ''recv_into is stream-only; use recv_burst''), dst, k)"

fun mio_ready :: "'k os \<Rightarrow> mio_transport \<Rightarrow> 'k \<Rightarrow> ((unit, transport_error) result \<times> mio_transport \<times> 'k) option" where
  "mio_ready sys (MioUdp u) k = map_option (\<lambda>(r, u', k'). (r, MioUdp u', k')) (mio_udp_ready sys u k)"
| "mio_ready sys (MioTcp t) k = map_option (\<lambda>(r, t', k'). (r, MioTcp t', k')) (mio_tcp_ready sys t k)"

fun mio_pool :: "mio_transport \<Rightarrow> vec_pool" where
  "mio_pool (MioUdp u) = mu_pool u"
| "mio_pool (MioTcp t) = mt_pool t"

definition mio_bind_udp ::
  "'k os \<Rightarrow> bind_config \<Rightarrow> recv_buf_config \<Rightarrow> send_buf_config \<Rightarrow> ring_config \<Rightarrow> batch_config \<Rightarrow> affinity_config
     \<Rightarrow> 'k \<Rightarrow> ((mio_transport, transport_error) result \<times> 'k) option"
where
  "mio_bind_udp sys bind rx tx ring batch affinity k =
     map_option (\<lambda>(r, k'). (map_ok MioUdp r, k')) (mio_udp_bind sys bind rx tx ring batch affinity k)"

definition mio_connect_tcp ::
  "'k os \<Rightarrow> bind_config \<Rightarrow> recv_buf_config \<Rightarrow> send_buf_config \<Rightarrow> ring_config \<Rightarrow> affinity_config
     \<Rightarrow> 'k \<Rightarrow> ((mio_transport, transport_error) result \<times> 'k) option"
where
  "mio_connect_tcp sys bind rx tx ring affinity k =
     map_option (\<lambda>(r, k'). (map_ok MioTcp r, k')) (mio_tcp_connect_to sys bind rx tx ring affinity k)"

fun mio_transport_join_multicast ::
  "'k os \<Rightarrow> mio_transport \<Rightarrow> ip_addr \<Rightarrow> multicast_interface \<Rightarrow> ('k, unit, transport_error) eff"
where
  "mio_transport_join_multicast sys (MioUdp u) grp iface = mio_join_multicast sys u grp iface"
| "mio_transport_join_multicast sys (MioTcp t) grp iface =
     fail (Unsupported ''mio-tcp'' ''multicast join unsupported on TCP'')"

fun mio_send_to ::
  "'k os \<Rightarrow> mio_transport \<Rightarrow> bytes \<Rightarrow> socket_addr \<Rightarrow> 'k \<Rightarrow> ((unit, transport_error) result \<times> 'k) option"
where
  "mio_send_to sys (MioUdp u) buf a k =
     map_option (\<lambda>(r, k'). (map_ok (\<lambda>_. ()) r, k')) (mio_udp_send_to sys u buf a k)"
| "mio_send_to sys (MioTcp t) buf a k =
     Some (Err (Unsupported ''mio-tcp'' ''send_to unsupported on TCP''), k)"

end
