(* ===== verification/Tokio_Wait.thy ===== *)
theory Tokio_Wait imports Sys begin

text \<open>
  Waiting in the \<open>tokio\<close> backend: \<open>readable\<close> of \<open>crates/tokio/src/udp.rs\<close> and \<open>tcp.rs\<close>
  awaits the reactor and then confirms the wake with a probe run through \<open>try_io\<close>, so that a
  stale readiness bit is cleared and awaited again. The two files differ in the probe.
\<close>

type_synonym 'k await_result = "((unit, transport_error) result \<times> 'k) option"

definition await_round ::
  "'k os \<Rightarrow> fd \<Rightarrow> ('k, unit, io_error) eff \<Rightarrow> 'k \<Rightarrow> ('k, 'k await_result) flow"
where
  "await_round sys s probe k =
     (case tk_readable sys s k of
        None \<Rightarrow> Break None
      | Some (Err e, k') \<Rightarrow> Break (Some (Err (Io e), k'))
      | Some (Ok _, k') \<Rightarrow>
          (case tk_try_io sys s Readable probe k' of
             (Ok _, k'') \<Rightarrow> Break (Some (Ok (), k''))
           | (Err e, k'') \<Rightarrow>
               (if err_kind e = WouldBlock then Continue k'' else Break (Some (Err (Io e), k'')))))"

definition await_readable :: "'k os \<Rightarrow> fd \<Rightarrow> ('k, unit, io_error) eff \<Rightarrow> 'k \<Rightarrow> 'k await_result" where
  "await_readable sys s probe k = run_blocking (await_round sys s probe) k"

text \<open>The world after \<open>n\<close> wakes that turned out stale.\<close>

fun stale_wakes :: "'k os \<Rightarrow> fd \<Rightarrow> ('k, unit, io_error) eff \<Rightarrow> nat \<Rightarrow> 'k \<Rightarrow> 'k option" where
  "stale_wakes sys s probe 0 k = Some k"
| "stale_wakes sys s probe (Suc n) k =
     (case tk_readable sys s k of
        Some (Ok _, k') \<Rightarrow>
          (case tk_try_io sys s Readable probe k' of
             (Err e, k'') \<Rightarrow> (if err_kind e = WouldBlock then stale_wakes sys s probe n k'' else None)
           | _ \<Rightarrow> None)
      | _ \<Rightarrow> None)"

lemma await_rounds: "rounds (await_round sys s probe) n k = stale_wakes sys s probe n k"
  by (induction n arbitrary: k) (auto simp: await_round_def split: option.splits prod.splits result.splits)

lemma await_returns_iff:
  "await_readable sys s probe k = Some (r, k') \<longleftrightarrow>
     (\<exists>n k1. stale_wakes sys s probe n k = Some k1 \<and>
        ((\<exists>e. tk_readable sys s k1 = Some (Err e, k') \<and> r = Err (Io e))
         \<or> (\<exists>k2. tk_readable sys s k1 = Some (Ok (), k2)
              \<and> ((tk_try_io sys s Readable probe k2 = (Ok (), k') \<and> r = Ok ())
                 \<or> (\<exists>e. tk_try_io sys s Readable probe k2 = (Err e, k') \<and> err_kind e \<noteq> WouldBlock \<and> r = Err (Io e))))))"
  unfolding await_readable_def run_blocking_returns_iff await_rounds
  by (rule ex_cong1, rule ex_cong1)
     (auto simp: await_round_def split: option.splits prod.splits result.splits if_splits)

lemma await_diverges:
  assumes "I k"
    and "\<And>k. I k \<Longrightarrow> tk_readable sys s k = None
      \<or> (\<exists>k' e k''. tk_readable sys s k = Some (Ok (), k') \<and> tk_try_io sys s Readable probe k' = (Err e, k'')
           \<and> err_kind e = WouldBlock \<and> I k'')"
  shows "await_readable sys s probe k = None"
  unfolding await_readable_def
proof (rule run_blocking_diverges [where I = I, OF assms(1)])
  fix k assume "I k"
  from assms(2) [OF this] show "await_round sys s probe k = Break None
      \<or> (\<exists>s'. await_round sys s probe k = Continue s' \<and> I s')"
    by (auto simp: await_round_def)
qed

text \<open>
  The documented behaviour of \<open>try_io\<close>: \<open>ready\<close> is the cached readiness bit. Without the bit
  the operation is not run and the call would block; an operation that would block clears it.
\<close>

definition try_io_contract :: "'k os \<Rightarrow> fd \<Rightarrow> ('k \<Rightarrow> bool) \<Rightarrow> ('k \<Rightarrow> 'k) \<Rightarrow> bool" where
  "try_io_contract sys s ready clear \<longleftrightarrow>
     (\<forall>call k. if ready k
        then tk_try_io sys s Readable call k =
          (case call k of
             (Ok u, k') \<Rightarrow> (Ok u, k')
           | (Err e, k') \<Rightarrow> (Err e, if err_kind e = WouldBlock then clear k' else k'))
        else \<exists>e. tk_try_io sys s Readable call k = (Err e, k) \<and> err_kind e = WouldBlock)"

lemma try_io_Ok:
  "try_io_contract sys s ready clear \<Longrightarrow> tk_try_io sys s Readable call k = (Ok (), k') \<Longrightarrow>
     ready k \<and> call k = (Ok (), k')"
  unfolding try_io_contract_def
  by (drule spec [where x = call], drule spec [where x = k])
     (auto split: if_splits prod.splits result.splits)

end
