(* ===== verification/Tokio_Udp.thy ===== *)
theory Tokio_Udp imports Slab_Backend Sample_World Tokio_Wait begin

text \<open>
  The UDP transport of the \<open>tokio\<close> backend (\<open>crates/tokio/src/udp.rs\<close>): \<open>bind_sync\<close> with all its
  socket options, \<open>recv_burst\<close> through \<open>socket2\<close>, \<open>readable\<close>, the sends and multicast.
\<close>

section \<open>State\<close>

record tokio_udp =
  tu_sock :: fd
  tu_pool :: vec_pool
  tu_batch_recv_size :: u32
  tu_last_peer :: "socket_addr option"

definition TOKIO_UDP_BACKEND :: string where "TOKIO_UDP_BACKEND = ''tokio-udp''"

section \<open>Bind\<close>

definition tokio_warn_affinity :: "'k os \<Rightarrow> affinity_config \<Rightarrow> string \<Rightarrow> ('k, unit, 'e) eff" where
  "tokio_warn_affinity sys a backend =
     only_if (io_cpu a \<noteq> None \<or> sqpoll_cpu a \<noteq> None)
       (act (warn sys [(''backend'', backend)]
          ''CPU affinity requested but tokio manages its own worker threads; ignoring''))"

definition create_socket :: "'k os \<Rightarrow> socket_addr \<Rightarrow> ('k, fd, transport_error) eff" where
  "create_socket sys a = io_err (socket_dgram sys (if is_ipv4 a then DomainIPV4 else DomainIPV6))"

text \<open>A raw \<open>setsockopt\<close> whose failure is only logged.\<close>

definition setsockopt_or_warn ::
  "'k os \<Rightarrow> fd \<Rightarrow> string \<Rightarrow> int \<Rightarrow> (string \<times> string) list \<Rightarrow> string \<Rightarrow> ('k, unit, 'e) eff"
where
  "setsockopt_or_warn sys s opt v flds msg =
     (\<lambda>k. case setsockopt sys s opt v k of
        (rc, k') \<Rightarrow>
          (Ok (), if rc \<noteq> 0 then warn sys (flds @ [(''error'', err_text (last_os_error sys k'))]) msg k' else k'))"

definition apply_busy_poll :: "'k os \<Rightarrow> fd \<Rightarrow> recv_buf_config \<Rightarrow> ('k, unit, transport_error) eff" where
  "apply_busy_poll sys s rx =
     (if platform sys = Linux
      then case so_busy_poll_us rx of
             None \<Rightarrow> pure ()
           | Some us \<Rightarrow> setsockopt_or_warn sys s ''SO_BUSY_POLL'' (sint us) [(''requested'', show_nat (unat us))]
                          ''SO_BUSY_POLL setsockopt failed''
      else only_if (so_busy_poll_us rx \<noteq> None)
             (act (warn sys [] ''SO_BUSY_POLL requested but only supported on Linux'')))"

definition apply_rxq_ovfl :: "'k os \<Rightarrow> fd \<Rightarrow> recv_buf_config \<Rightarrow> ('k, unit, transport_error) eff" where
  "apply_rxq_ovfl sys s rx =
     (if platform sys = Linux
      then if \<not> so_rxq_ovfl rx then pure ()
           else setsockopt_or_warn sys s ''SO_RXQ_OVFL'' 1 [] ''SO_RXQ_OVFL setsockopt failed''
      else only_if (so_rxq_ovfl rx)
             (act (warn sys [] ''SO_RXQ_OVFL requested but only supported on Linux'')))"

fun show_timestamp_mode :: "timestamp_mode \<Rightarrow> string" where
  "show_timestamp_mode TsNone = ''None''"
| "show_timestamp_mode KernelSw = ''KernelSw''"
| "show_timestamp_mode HardwareRx = ''HardwareRx''"

definition apply_timestamping :: "'k os \<Rightarrow> recv_buf_config \<Rightarrow> ('k, unit, transport_error) eff" where
  "apply_timestamping sys rx =
     (if so_timestamping rx = TsNone then pure ()
      else act (warn sys [(''mode'', show_timestamp_mode (so_timestamping rx))]
             ''timestamping requested but recvmsg ancillary path not yet wired''))"

definition tokio_apply_socket_opts ::
  "'k os \<Rightarrow> fd \<Rightarrow> bind_config \<Rightarrow> recv_buf_config \<Rightarrow> send_buf_config \<Rightarrow> ('k, unit, transport_error) eff"
where
  "tokio_apply_socket_opts sys s bind rx tx =
     and_then (only_if (reuse_addr bind) (io_err (set_reuse_address sys s True))) (\<lambda>_.
     and_then (only_if (platform sys \<noteq> Windows \<and> reuse_port bind) (io_err (set_reuse_port sys s True))) (\<lambda>_.
     and_then (request_buffer sys (set_recv_buffer_size sys) (recv_buffer_size sys)
       ''kernel granted less SO_RCVBUF than requested'' s (so_rcvbuf rx)) (\<lambda>_.
     and_then (request_buffer sys (set_send_buffer_size sys) (send_buffer_size sys)
       ''kernel granted less SO_SNDBUF than requested'' s (so_sndbuf tx)) (\<lambda>_.
     and_then (apply_busy_poll sys s rx) (\<lambda>_.
     and_then (apply_rxq_ovfl sys s rx) (\<lambda>_.
     apply_timestamping sys rx))))))"

definition tokio_udp_setup ::
  "'k os \<Rightarrow> bind_config \<Rightarrow> recv_buf_config \<Rightarrow> send_buf_config \<Rightarrow> affinity_config \<Rightarrow> ('k, fd, transport_error) eff"
where
  "tokio_udp_setup sys bind rx tx affinity =
     and_then (tokio_warn_affinity sys affinity ''tokio-udp'') (\<lambda>_.
     and_then (create_socket sys (bc_addr bind)) (\<lambda>s.
     and_then (tokio_apply_socket_opts sys s bind rx tx) (\<lambda>_.
     and_then (io_err (set_nonblocking sys s True)) (\<lambda>_.
     and_then (bind_err (bc_addr bind) (bind_addr sys s (bc_addr bind))) (\<lambda>_.
     and_then (io_err (tk_from_std sys s)) (\<lambda>_.
     pure s))))))"

definition tokio_udp_bind ::
  "'k os \<Rightarrow> bind_config \<Rightarrow> recv_buf_config \<Rightarrow> send_buf_config \<Rightarrow> ring_config \<Rightarrow> batch_config \<Rightarrow> affinity_config
     \<Rightarrow> 'k \<Rightarrow> ((tokio_udp, transport_error) result \<times> 'k) option"
where
  "tokio_udp_bind sys bind rx tx ring batch affinity k =
     (case tokio_udp_setup sys bind rx tx affinity k of
        (Err e, k') \<Rightarrow> Some (Err e, k')
      | (Ok s, k') \<Rightarrow>
          (case build_pool (slab_count ring) (rc_slab_size ring) of
             None \<Rightarrow> None
           | Some pool \<Rightarrow>
               Some (Ok \<lparr>tu_sock = s, tu_pool = pool, tu_batch_recv_size = recv_size batch,
                         tu_last_peer = None\<rparr>, k')))"

section \<open>Receive\<close>

type_synonym 'k tokio_burst =
  "((nat \<times> usize, transport_error) result \<times> tokio_udp \<times> udp_frame frame_batch \<times> 'k) option"

text \<open>
  The loop of \<open>recv_burst\<close>. A peer address that does not resolve is logged and replaced by the
  unspecified address.
\<close>

function tokio_recv_loop ::
  "'k os \<Rightarrow> nat \<Rightarrow> nat \<Rightarrow> usize \<Rightarrow> tokio_udp \<Rightarrow> udp_frame frame_batch \<Rightarrow> 'k \<Rightarrow> 'k tokio_burst"
where
  "tokio_recv_loop sys cap n tot self out k =
     (if \<not> n < cap then Some (Ok (n, tot), self, out, k)
      else case acquire_slab (tu_pool self) (slab_size (tu_pool self)) of
        (None, pool) \<Rightarrow>
          (if n = 0 then Some (Err (PoolExhausted (pool_in_use pool) (pool_capacity pool)), self\<lparr>tu_pool := pool\<rparr>, out, k)
           else Some (Ok (n, tot), self\<lparr>tu_pool := pool\<rparr>, out, k))
      | (Some slab, pool) \<Rightarrow>
          (case buf_mut pool slab of
             None \<Rightarrow> None
           | Some dst \<Rightarrow>
               (case s2_recv_from sys (tu_sock self) (length dst) k of
                  (Ok (d, from_addr), k') \<Rightarrow>
                    (let (peer, k'') =
                       (case from_addr of
                          Some a \<Rightarrow> (a, k')
                        | None \<Rightarrow> (unspecified_peer,
                            warn sys [] ''recv_from: peer addr resolution failed, using unspecified'' k'))
                     in case write_buf pool slab d of
                       None \<Rightarrow> None
                     | Some pool' \<Rightarrow>
                         tokio_recv_loop sys cap (Suc n) (tot + word_of_nat (length d))
                           (self\<lparr>tu_pool := pool', tu_last_peer := Some peer\<rparr>)
                           (batch_push \<lparr>uf_slab = set_len slab (word_of_nat (length d)), uf_peer = peer\<rparr> out) k'')
                | (Err e, k') \<Rightarrow>
                    (if err_kind e = WouldBlock
                     then Some (Ok (n, tot), self\<lparr>tu_pool := drop_slab slab pool\<rparr>, out, k')
                     else Some (Err (Io e), self\<lparr>tu_pool := drop_slab slab pool\<rparr>, out, k')))))"
  by pat_completeness auto
termination by (relation "measure (\<lambda>(sys, cap, n, tot, self, out, k). cap - n)") auto

declare tokio_recv_loop.simps [simp del]

definition tokio_recv_burst ::
  "'k os \<Rightarrow> tokio_udp \<Rightarrow> udp_frame frame_batch \<Rightarrow> usize \<Rightarrow> 'k
     \<Rightarrow> ((usize, transport_error) result \<times> tokio_udp \<times> udp_frame frame_batch \<times> 'k) option"
where
  "tokio_recv_burst sys self out mx k =
     (let cap = min mx (batch_spare out) in
      case tokio_recv_loop sys (unat cap) 0 0 self out k of
        None \<Rightarrow> None
      | Some (Err e, self', out', k') \<Rightarrow> Some (Err e, self', out', k')
      | Some (Ok (n, tot), self', out', k') \<Rightarrow>
          Some (Ok (word_of_nat n), self', out',
                record_recv_burst sys TOKIO_UDP_BACKEND (word_of_nat n) tot k'))"

section \<open>Readiness, sends, multicast\<close>

definition tokio_udp_peek_ready :: "'k os \<Rightarrow> fd \<Rightarrow> ('k, unit, io_error) eff" where
  "tokio_udp_peek_ready sys s k =
     (case s2_peek sys s 1 k of
        (Ok _, k') \<Rightarrow> (Ok (), k')
      | (Err e, k') \<Rightarrow>
          (if platform sys = Windows \<and> raw_os_error e = Some 10040 then (Ok (), k') else (Err e, k')))"

definition tokio_udp_readable :: "'k os \<Rightarrow> tokio_udp \<Rightarrow> 'k \<Rightarrow> 'k await_result" where
  "tokio_udp_readable sys self k = await_readable sys (tu_sock self) (tokio_udp_peek_ready sys (tu_sock self)) k"

definition tokio_udp_send :: "'k os \<Rightarrow> tokio_udp \<Rightarrow> bytes \<Rightarrow> 'k \<Rightarrow> ((usize, transport_error) result \<times> 'k) option" where
  "tokio_udp_send sys self buf k =
     map_option (\<lambda>(r, k'). (map_err Io r, k')) (tk_send_dgram sys (tu_sock self) buf k)"

definition tokio_udp_send_to ::
  "'k os \<Rightarrow> tokio_udp \<Rightarrow> bytes \<Rightarrow> socket_addr \<Rightarrow> 'k \<Rightarrow> ((usize, transport_error) result \<times> 'k) option"
where
  "tokio_udp_send_to sys self buf a k =
     map_option (\<lambda>(r, k'). (map_err Io r, k')) (tk_send_dgram_to sys (tu_sock self) buf a k)"

definition tokio_join_multicast ::
  "'k os \<Rightarrow> tokio_udp \<Rightarrow> ip_addr \<Rightarrow> multicast_interface \<Rightarrow> ('k, unit, transport_error) eff"
where
  "tokio_join_multicast sys self grp iface =
     (case grp of
        V4 m \<Rightarrow> io_err (join_multicast_v4 sys (tu_sock self) m
                          (case mi_v4 iface of None \<Rightarrow> ipv4_unspecified | Some i \<Rightarrow> i))
      | V6 m \<Rightarrow> io_err (join_multicast_v6 sys (tu_sock self) m
                          (case v6_scope_id iface of None \<Rightarrow> 0 | Some sc \<Rightarrow> sc)))"

definition tokio_local_addr :: "'k os \<Rightarrow> tokio_udp \<Rightarrow> ('k, socket_addr, transport_error) eff" where
  "tokio_local_addr sys self = io_err (local_addr_of sys (tu_sock self))"

section \<open>The loop is the reference loop\<close>

definition tokio_rf :: "'k os \<Rightarrow> tokio_udp \<Rightarrow> 'k recv_call" where
  "tokio_rf sys self w k =
     (case s2_recv_from sys (tu_sock self) w k of
        (Ok (d, Some a), k') \<Rightarrow> (Ok (d, a), k')
      | (Ok (d, None), k') \<Rightarrow>
          (Ok (d, unspecified_peer), warn sys [] ''recv_from: peer addr resolution failed, using unspecified'' k')
      | (Err e, k') \<Rightarrow> (Err e, k'))"

definition tokio_unpack :: "tokio_udp \<Rightarrow> 'k burst_result \<Rightarrow> 'k tokio_burst" where
  "tokio_unpack self = map_option (\<lambda>(r, p, lp, out, k). (r, self\<lparr>tu_pool := p, tu_last_peer := lp\<rparr>, out, k))"

lemma tokio_recv_loop_burst:
  "tokio_recv_loop sys cap n tot self out k =
     tokio_unpack self (burst (tokio_rf sys self) (cap - n) n tot (tu_pool self) (tu_last_peer self) out k)"
proof (induction sys cap n tot self out k rule: tokio_recv_loop.induct)
  case (1 sys cap n tot self out k)
  show ?case
  proof (cases "n < cap")
    case False
    then show ?thesis by (simp add: tokio_recv_loop.simps [of sys cap n] tokio_unpack_def)
  next
    case True
    then have m: "cap - n = Suc (cap - Suc n)" by simp
    show ?thesis using True 1
      unfolding m by (subst tokio_recv_loop.simps)
        (auto simp: burst.simps(2) tokio_unpack_def tokio_rf_def [abs_def] split: prod.split option.split result.split)
  qed
qed

lemma tokio_recv_burst_call:
  "tokio_recv_burst sys self out mx k =
     map_option (\<lambda>(r, p, lp, out, k). (r, self\<lparr>tu_pool := p, tu_last_peer := lp\<rparr>, out, k))
       (burst_call sys TOKIO_UDP_BACKEND (tokio_rf sys self) (tu_pool self) (tu_last_peer self) out mx k)"
  by (simp add: tokio_recv_burst_def burst_call_def tokio_recv_loop_burst tokio_unpack_def Let_def
      split: option.split prod.split result.split del: unat_min_word)

abbreviation tokio_update :: "vec_pool \<Rightarrow> socket_addr option \<Rightarrow> tokio_udp \<Rightarrow> tokio_udp" where
  "tokio_update p lp self \<equiv> self\<lparr>tu_pool := p, tu_last_peer := lp\<rparr>"

interpretation tokio: slab_backend tokio_recv_burst TOKIO_UDP_BACKEND tokio_rf tu_pool
  "\<lambda>p self. self\<lparr>tu_pool := p\<rparr>" tu_last_peer tokio_update
  by unfold_locales (simp_all add: tokio_recv_burst_call tokio_rf_def fun_eq_iff)

abbreviation tokio_ops :: "(('k, tokio_udp) backend_source, udp_frame, vec_pool, vec_slab) datagram_ops" where
  "tokio_ops \<equiv> backend_ops tokio_recv_burst tu_pool (\<lambda>p self. self\<lparr>tu_pool := p\<rparr>)"

section \<open>Properties\<close>

definition sample_tokio :: tokio_udp where
  "sample_tokio = \<lparr>tu_sock = 3, tu_pool = sample_pool, tu_batch_recv_size = 0, tu_last_peer = None\<rparr>"

lemma sample_tokio_pool [simp]: "tu_pool sample_tokio = sample_pool" "tu_last_peer sample_tokio = None"
  by (simp_all add: sample_tokio_def)

lemma tokio_rf_queue_os [simp]: "tokio_rf queue_os self = queue_recv"
proof (intro ext)
  fix w k show "tokio_rf queue_os self w k = queue_recv w k"
    by (cases k) (auto simp: tokio_rf_def queue_os_def split: prod.splits)
qed

text \<open>The documented behaviour of \<open>socket2\<close>'s \<open>recv_from\<close>: no more bytes than the buffer holds.\<close>

definition s2_fits :: "'k os \<Rightarrow> fd \<Rightarrow> bool" where
  "s2_fits sys s \<longleftrightarrow> (\<forall>w k d a k'. s2_recv_from sys s w k = (Ok (d, a), k') \<longrightarrow> length d \<le> w)"

lemma s2_fits_rf: "s2_fits sys (tu_sock self) \<Longrightarrow> fits_buffer (tokio_rf sys self)"
  unfolding fits_buffer_def
proof (intro allI impI)
  fix w k d a k'
  assume fit: "s2_fits sys (tu_sock self)" and r: "tokio_rf sys self w k = (Ok (d, a), k')"
  obtain x k1 where x: "s2_recv_from sys (tu_sock self) w k = (x, k1)" by force
  from r x obtain from_addr where "x = Ok (d, from_addr)"
    by (cases x) (auto simp: tokio_rf_def split: option.splits)
  with fit x show "length d \<le> w" unfolding s2_fits_def by blast
qed

lemma s2_fits_queue_os: "s2_fits queue_os s"
proof -
  have "s2_fits queue_os (tu_sock (sample_tokio\<lparr>tu_sock := s\<rparr>))"
    unfolding s2_fits_def
  proof (intro allI impI)
    fix w k d a k'
    assume "s2_recv_from queue_os (tu_sock (sample_tokio\<lparr>tu_sock := s\<rparr>)) w k = (Ok (d, a), k')"
    then show "length d \<le> w" by (cases k) (auto simp: queue_os_def split: prod.splits)
  qed
  then show ?thesis by simp
qed

text \<open>
  An unresolved sender becomes the unspecified address.
\<close>

lemma tokio_rf_unresolved:
  "s2_recv_from sys (tu_sock self) w k = (Ok (d, None), k') \<Longrightarrow> fst (tokio_rf sys self w k) = Ok (d, SocketAddrV4 0 0)"
  by (simp add: tokio_rf_def unspecified_peer_def ipv4_unspecified_def)

text \<open>
  C2: The tokio \<open>recv_burst\<close> takes the datagrams that \<open>socket2\<close>'s \<open>recv_from\<close> yields within the
  budget of \<open>max\<close>, batch and pool; each becomes a frame with its bytes and its sender, and a
  sender that does not resolve is logged and reported as the unspecified address without losing
  the datagram. \<open>WouldBlock\<close> ends the burst as a success; another error is returned with the
  earlier frames left in the batch and nothing counted.
\<close>

theorem tokio_recv_burst_reaps:
  assumes "pool_ok (tu_pool self) L" and "batch_ok out" and "s2_fits sys (tu_sock self)"
    and "free_list (tu_pool self) \<noteq> [] \<or> min mx (batch_spare out) = 0"
    and "reap (tokio_rf sys self) (unat (slab_size (tu_pool self))) (burst_budget (tu_pool self) out mx) k = (ds, e, k')"
  shows "\<exists>p fs. tokio_recv_burst sys self out mx k =
      Some (if stop_ok e then Ok (word_of_nat (length ds)) else Err (Io (the e)),
            self\<lparr>tu_pool := p, tu_last_peer := bump_peer (tu_last_peer self) ds\<rparr>,
            out\<lparr>frames := frames out @ fs\<rparr>,
            if stop_ok e then record_recv_burst sys ''tokio-udp'' (word_of_nat (length ds)) (total_bytes ds) k' else k')
    \<and> frames_hold p fs ds \<and> pool_ok p (L + mset (map frame_slot fs))
    \<and> (\<forall>sl. slab_index sl \<in># L \<longrightarrow> slab_as_ref p sl = slab_as_ref (tu_pool self) sl)"
  unfolding TOKIO_UDP_BACKEND_def [symmetric]
  by (rule tokio.reaps [OF assms(1,2) s2_fits_rf [OF assms(3)] assms(4,5)])

theorem tokio_recv_burst_reaps_witness:
  "\<exists>p fs. tokio_recv_burst queue_os sample_tokio (batch_with_capacity 4) 8 sample_queue =
      Some (Ok 2, sample_tokio\<lparr>tu_pool := p, tu_last_peer := Some peer2\<rparr>,
            batch_with_capacity 4\<lparr>frames := fs\<rparr>, [([4, 5, 6, 7, 8], peer1)])"
proof -
  have free: "free_list (tu_pool sample_tokio) \<noteq> [] \<or> min 8 (batch_spare (batch_with_capacity 4 :: udp_frame frame_batch)) = 0"
    by (simp add: sample_pool_def)
  have reap: "reap (tokio_rf queue_os sample_tokio) (unat (slab_size (tu_pool sample_tokio)))
      (burst_budget (tu_pool sample_tokio) (batch_with_capacity 4) 8) sample_queue
    = ([([1, 2], peer1), ([3], peer2)], None, [([4, 5, 6, 7, 8], peer1)])"
    using sample_reap by (simp add: sample_burst_budget)
  from tokio_recv_burst_reaps [OF _ batch_ok_new s2_fits_queue_os free reap, of "{#}"] sample_pool_ok
  show ?thesis
    by (fastforce simp: stop_ok_def bump_peer_def)
qed

text \<open>
  C23: The tokio \<open>recv_burst\<close> answers \<open>PoolExhausted\<close> exactly when at least one frame was asked for,
  the batch has room and every slab is out; the socket is not looked at, so the answer is the
  same when no data is pending, and nothing has changed.
\<close>

theorem tokio_recv_burst_exhausted_iff:
  assumes "pool_ok (tu_pool self) L" and "batch_ok out" and "s2_fits sys (tu_sock self)"
  shows "tokio_recv_burst sys self out mx k = Some (Err (PoolExhausted i c), rest) \<longleftrightarrow>
    0 < min mx (batch_spare out) \<and> pool_in_use (tu_pool self) = pool_capacity (tu_pool self)
    \<and> i = pool_in_use (tu_pool self) \<and> c = pool_capacity (tu_pool self) \<and> rest = (self, out, k)"
  by (rule tokio.exhausted_iff [OF assms(1,2) s2_fits_rf [OF assms(3)]])

theorem tokio_recv_burst_exhausted_iff_witness:
  "tokio_recv_burst queue_os (sample_tokio\<lparr>tu_pool := sample_pool\<lparr>free_list := []\<rparr>\<rparr>) (batch_with_capacity 4) 1 [] =
     Some (Err (PoolExhausted 2 2), sample_tokio\<lparr>tu_pool := sample_pool\<lparr>free_list := []\<rparr>\<rparr>, batch_with_capacity 4, [])"
proof -
  have full: "pool_ok (sample_pool\<lparr>free_list := []\<rparr>) {#0, 1#}"
    by (simp add: pool_ok_def sample_pool_def upt_rec)
  show ?thesis
    using tokio_recv_burst_exhausted_iff [of "sample_tokio\<lparr>tu_pool := sample_pool\<lparr>free_list := []\<rparr>\<rparr>" "{#0, 1#}"
        "batch_with_capacity 4" queue_os 1 "[]" 2 2] full
    by (simp add: s2_fits_queue_os batch_spare_def pool_in_use_def pool_capacity_def sample_pool_def)
qed

section \<open>Readiness\<close>

text \<open>
  \<open>readable\<close> resolves with success only when the peek found a datagram in that very state: with
  \<open>try_io\<close> as documented, a stale readiness bit never ends the wait. And it does resolve after any
  number of stale wakes as soon as a wake finds the bit set and data queued.
\<close>

theorem tokio_readable_confirms:
  assumes "try_io_contract sys (tu_sock self) cached clear"
  shows "tokio_udp_readable sys self k = Some (Ok (), k') \<longleftrightarrow>
    (\<exists>n k1 k2. stale_wakes sys (tu_sock self) (tokio_udp_peek_ready sys (tu_sock self)) n k = Some k1
       \<and> tk_readable sys (tu_sock self) k1 = Some (Ok (), k2) \<and> cached k2
       \<and> tokio_udp_peek_ready sys (tu_sock self) k2 = (Ok (), k'))"
proof -
  have "tk_try_io sys (tu_sock self) Readable call k2 = (Ok (), k') \<longleftrightarrow> cached k2 \<and> call k2 = (Ok (), k')" for call k2
  proof
    assume "tk_try_io sys (tu_sock self) Readable call k2 = (Ok (), k')"
    with assms show "cached k2 \<and> call k2 = (Ok (), k')" by (rule try_io_Ok)
  next
    assume c: "cached k2 \<and> call k2 = (Ok (), k')"
    with assms [unfolded try_io_contract_def, rule_format, of k2 call]
    show "tk_try_io sys (tu_sock self) Readable call k2 = (Ok (), k')" by simp
  qed
  then show ?thesis by (auto simp: tokio_udp_readable_def await_returns_iff)
qed

theorem tokio_readable_confirms_witness:
  "tokio_udp_readable queue_os sample_tokio sample_queue = Some (Ok (), sample_queue)"
proof -
  have c: "try_io_contract queue_os (tu_sock sample_tokio) (\<lambda>k. True) (\<lambda>k. k)"
    by (auto simp: try_io_contract_def queue_os_def split: prod.splits result.splits)
  show ?thesis
    unfolding tokio_readable_confirms [OF c]
    by (rule exI [of _ 0]) (simp add: queue_os_def tokio_udp_peek_ready_def sample_queue_def)
qed

end
