(* ===== verification/Tokio_Tcp.thy ===== *)
theory Tokio_Tcp imports Stream_Source Tokio_Udp begin

text \<open>
  The TCP transport of the \<open>tokio\<close> backend (\<open>crates/tokio/src/tcp.rs\<close>).
\<close>

record tokio_tcp =
  tt_stream :: fd
  tt_pool :: vec_pool
  tt_peer :: socket_addr

text \<open>The file has its own copy of the socket options of the \<open>mio\<close> backend.\<close>

definition tokio_apply_tcp_socket_opts ::
  "'k os \<Rightarrow> fd \<Rightarrow> recv_buf_config \<Rightarrow> send_buf_config \<Rightarrow> ('k, unit, transport_error) eff"
where
  "tokio_apply_tcp_socket_opts sys s rx tx =
     and_then (request_buffer sys (set_recv_buffer_size sys) (recv_buffer_size sys)
       ''kernel granted less SO_RCVBUF than requested on TCP'' s (so_rcvbuf rx)) (\<lambda>_.
     request_buffer sys (set_send_buffer_size sys) (send_buffer_size sys)
       ''kernel granted less SO_SNDBUF than requested on TCP'' s (so_sndbuf tx))"

lemma tokio_apply_tcp_socket_opts_eq: "tokio_apply_tcp_socket_opts = apply_tcp_socket_opts"
  by (intro ext) (simp add: tokio_apply_tcp_socket_opts_def apply_tcp_socket_opts_def)

definition tokio_tcp_setup ::
  "'k os \<Rightarrow> recv_buf_config \<Rightarrow> send_buf_config \<Rightarrow> fd \<Rightarrow> ('k, socket_addr, transport_error) eff"
where
  "tokio_tcp_setup sys rx tx s =
     and_then (io_err (peer_addr_of sys s)) (\<lambda>peer.
     and_then (tokio_apply_tcp_socket_opts sys s rx tx) (\<lambda>_.
     pure peer))"

text \<open>\<open>None\<close>: the connect never completes, or the pool cannot be built (a panic).\<close>

definition tokio_tcp_connect_to ::
  "'k os \<Rightarrow> bind_config \<Rightarrow> recv_buf_config \<Rightarrow> send_buf_config \<Rightarrow> ring_config \<Rightarrow> affinity_config
     \<Rightarrow> 'k \<Rightarrow> ((tokio_tcp, transport_error) result \<times> 'k) option"
where
  "tokio_tcp_connect_to sys bind rx tx ring affinity k =
     (case tokio_warn_affinity sys affinity ''tokio-tcp'' k of
        (Err e, k1) \<Rightarrow> Some (Err e, k1)
      | (Ok _, k1) \<Rightarrow>
          (case tk_tcp_connect sys (bc_addr bind) k1 of
             None \<Rightarrow> None
           | Some (Err e, k2) \<Rightarrow> Some (Err (BindFailed (show_addr (bc_addr bind)) (err_text e)), k2)
           | Some (Ok s, k2) \<Rightarrow>
               (case tokio_tcp_setup sys rx tx s k2 of
                  (Err e, k3) \<Rightarrow> Some (Err e, k3)
                | (Ok peer, k3) \<Rightarrow>
                    (case build_pool (slab_count ring) (rc_slab_size ring) of
                       None \<Rightarrow> None
                     | Some pool \<Rightarrow> Some (Ok \<lparr>tt_stream = s, tt_pool = pool, tt_peer = peer\<rparr>, k3)))))"

definition tokio_recv_into :: "'k os \<Rightarrow> tokio_tcp \<Rightarrow> bytes \<Rightarrow> 'k \<Rightarrow> (usize, transport_error) result \<times> bytes \<times> 'k" where
  "tokio_recv_into sys self dst k = stream_recv_into sys (tt_stream self) dst k"

text \<open>The transport with its world as a source of the stream contract.\<close>

definition tokio_stream_recv ::
  "'k os \<times> tokio_tcp \<times> 'k \<Rightarrow> bytes \<Rightarrow> (usize, transport_error) result \<times> bytes \<times> ('k os \<times> tokio_tcp \<times> 'k)"
where
  "tokio_stream_recv s dst =
     (case s of (sys, self, k) \<Rightarrow> case tokio_recv_into sys self dst k of (r, dst', k') \<Rightarrow> (r, dst', (sys, self, k')))"

interpretation tokio_stream: stream_source tokio_stream_recv "\<lambda>(sys, self, k). stream_holds sys (tt_stream self) k"
proof (unfold_locales, goal_cases)
  case (1 s u c dst)
  obtain sys self k where s: "s = (sys, self, k)" by (cases s)
  with 1 stream_holds_recv [of sys "tt_stream self" k u c dst] show ?case
    by (auto simp: tokio_stream_recv_def tokio_recv_into_def)
next
  case (2 s dst)
  obtain sys self k where s: "s = (sys, self, k)" by (cases s)
  with 2 stream_holds_recv [of sys "tt_stream self" k "[]" False dst] show ?case
    by (auto simp: tokio_stream_recv_def tokio_recv_into_def)
next
  case (3 s dst)
  obtain sys self k where s: "s = (sys, self, k)" by (cases s)
  with 3 stream_holds_recv [of sys "tt_stream self" k "[]" True dst] show ?case
    by (auto simp: tokio_stream_recv_def tokio_recv_into_def)
qed

definition tokio_tcp_peek_ready :: "'k os \<Rightarrow> fd \<Rightarrow> ('k, unit, io_error) eff" where
  "tokio_tcp_peek_ready sys s k = (case s2_peek sys s 1 k of (r, k') \<Rightarrow> (map_ok (\<lambda>_. ()) r, k'))"

definition tokio_tcp_readable :: "'k os \<Rightarrow> tokio_tcp \<Rightarrow> 'k \<Rightarrow> 'k await_result" where
  "tokio_tcp_readable sys self k = await_readable sys (tt_stream self) (tokio_tcp_peek_ready sys (tt_stream self)) k"

definition tokio_tcp_send :: "'k os \<Rightarrow> tokio_tcp \<Rightarrow> bytes \<Rightarrow> 'k \<Rightarrow> ((unit, transport_error) result \<times> 'k) option" where
  "tokio_tcp_send sys self buf k =
     map_option (\<lambda>(r, k'). (map_err Io r, k')) (tk_write_all sys (tt_stream self) buf k)"

text \<open>A stream over the sample pool.\<close>

definition sample_tokio_tcp :: tokio_tcp where
  "sample_tokio_tcp = \<lparr>tt_stream = 5, tt_pool = sample_pool, tt_peer = SocketAddrV4 2130706433 4243\<rparr>"

end
