(* ===== verification/Tokio_Transport.thy ===== *)
theory Tokio_Transport imports Tokio_Udp Tokio_Tcp begin

text \<open>
  The public enum of the \<open>tokio\<close> backend (\<open>crates/tokio/src/lib.rs\<close>) and its trait
  implementations.
\<close>

datatype tokio_transport = TokioUdp tokio_udp | TokioTcp tokio_tcp

fun tokio_name :: "tokio_transport \<Rightarrow> string" where
  "tokio_name (TokioUdp _) = ''tokio-udp''"
| "tokio_name (TokioTcp _) = ''tokio-tcp''"

fun tokio_send :: "'k os \<Rightarrow> tokio_transport \<Rightarrow> bytes \<Rightarrow> 'k \<Rightarrow> ((unit, transport_error) result \<times> 'k) option" where
  "tokio_send sys (TokioUdp u) buf k =
     map_option (\<lambda>(r, k'). (map_ok (\<lambda>_. ()) r, k')) (tokio_udp_send sys u buf k)"
| "tokio_send sys (TokioTcp t) buf k = tokio_tcp_send sys t buf k"

fun tokio_transport_recv_burst ::
  "'k os \<Rightarrow> tokio_transport \<Rightarrow> udp_frame frame_batch \<Rightarrow> usize \<Rightarrow> 'k
     \<Rightarrow> ((usize, transport_error) result \<times> tokio_transport \<times> udp_frame frame_batch \<times> 'k) option"
where
  "tokio_transport_recv_burst sys (TokioUdp u) out mx k =
     map_option (\<lambda>(r, u', out', k'). (r, TokioUdp u', out', k')) (tokio_recv_burst sys u out mx k)"
| "tokio_transport_recv_burst sys (TokioTcp t) out mx k =
     Some (Err (Unsupported ''tokio-tcp'' ''recv_burst is datagram-only; use recv_into''), TokioTcp t, out, k)"

fun tokio_transport_recv_into ::
  "'k os \<Rightarrow> tokio_transport \<Rightarrow> bytes \<Rightarrow> 'k \<Rightarrow> (usize, transport_error) result \<times> bytes \<times> 'k"
where
  "tokio_transport_recv_into sys (TokioTcp t) dst k = tokio_recv_into sys t dst k"
| "tokio_transport_recv_into sys (TokioUdp u) dst k =
     (Err (Unsupported ''tokio-udp'' ''recv_into is stream-only; use recv_burst''), dst, k)"

fun tokio_ready :: "'k os \<Rightarrow> tokio_transport \<Rightarrow> 'k \<Rightarrow> 'k await_result" where
  "tokio_ready sys (TokioUdp u) k = tokio_udp_readable sys u k"
| "tokio_ready sys (TokioTcp t) k = tokio_tcp_readable sys t k"

fun tokio_pool :: "tokio_transport \<Rightarrow> vec_pool" where
  "tokio_pool (TokioUdp u) = tu_pool u"
| "tokio_pool (TokioTcp t) = tt_pool t"

definition tokio_bind_udp ::
  "'k os \<Rightarrow> bind_config \<Rightarrow> recv_buf_config \<Rightarrow> send_buf_config \<Rightarrow> ring_config \<Rightarrow> batch_config \<Rightarrow> affinity_config
     \<Rightarrow> 'k \<Rightarrow> ((tokio_transport, transport_error) result \<times> 'k) option"
where
  "tokio_bind_udp sys bind rx tx ring batch affinity k =
     map_option (\<lambda>(r, k'). (map_ok TokioUdp r, k')) (tokio_udp_bind sys bind rx tx ring batch affinity k)"

definition tokio_connect_tcp ::
  "'k os \<Rightarrow> bind_config \<Rightarrow> recv_buf_config \<Rightarrow> send_buf_config \<Rightarrow> ring_config \<Rightarrow> affinity_config
     \<Rightarrow> 'k \<Rightarrow> ((tokio_transport, transport_error) result \<times> 'k) option"
where
  "tokio_connect_tcp sys bind rx tx ring affinity k =
     map_option (\<lambda>(r, k'). (map_ok TokioTcp r, k')) (tokio_tcp_connect_to sys bind rx tx ring affinity k)"

fun tokio_transport_join_multicast ::
  "'k os \<Rightarrow> tokio_transport \<Rightarrow> ip_addr \<Rightarrow> multicast_interface \<Rightarrow> ('k, unit, transport_error) eff"
where
  "tokio_transport_join_multicast sys (TokioUdp u) grp iface = tokio_join_multicast sys u grp iface"
| "tokio_transport_join_multicast sys (TokioTcp t) grp iface =
     fail (Unsupported ''tokio-tcp'' ''multicast join unsupported on TCP'')"

fun tokio_send_to ::
  "'k os \<Rightarrow> tokio_transport \<Rightarrow> bytes \<Rightarrow> socket_addr \<Rightarrow> 'k \<Rightarrow> ((unit, transport_error) result \<times> 'k) option"
where
  "tokio_send_to sys (TokioUdp u) buf a k =
     map_option (\<lambda>(r, k'). (map_ok (\<lambda>_. ()) r, k')) (tokio_udp_send_to sys u buf a k)"
| "tokio_send_to sys (TokioTcp t) buf a k =
     Some (Err (Unsupported ''tokio-tcp'' ''send_to unsupported on TCP''), k)"

end
