(* ===== verification/Bind_Plan.thy ===== *)
theory Bind_Plan imports Mio_Transport Tokio_Transport begin

text \<open>
  Which calls binding and connecting make on the system, in which order, and what each failure
  turns into. A recording system logs the calls with their arguments and fails those it is told to
  fail; a plan is the list of calls with the meaning of their failure; the set-up of each backend
  is shown to follow its plan for every configuration and every pattern of failures, and the wait
  for the handshake of a \<open>mio\<close> connect to make the calls it is meant to make, whatever the polls answer.
\<close>

section \<open>Recording the calls\<close>

datatype call =
    CSocket domain | CReuseAddr fd bool | CReusePort fd bool
  | CSetRcvbuf fd usize | CGetRcvbuf fd | CSetSndbuf fd usize | CGetSndbuf fd
  | CSetsockopt fd string int | CNonblocking fd bool | CBind fd socket_addr
  | CLocalAddr fd | CPollNew | CRegister poll_id fd nat "interest list" | CFromStd fd
  | CConnect socket_addr | CPeerAddr fd | CPoll poll_id "nat option" | CTakeError fd

definition log_call :: "(call \<Rightarrow> io_error option) \<Rightarrow> call \<Rightarrow> 'a \<Rightarrow> (call list, 'a, io_error) eff" where
  "log_call fails c v = (\<lambda>k. (case fails c of None \<Rightarrow> Ok v | Some e \<Rightarrow> Err e, k @ [c]))"

definition recorder :: "platform \<Rightarrow> (call \<Rightarrow> io_error option) \<Rightarrow> call list os" where
  "recorder pf fails = quiet_os\<lparr>
     platform := pf,
     socket_dgram := (\<lambda>d. log_call fails (CSocket d) 3),
     set_reuse_address := (\<lambda>s b. log_call fails (CReuseAddr s b) ()),
     set_reuse_port := (\<lambda>s b. log_call fails (CReusePort s b) ()),
     set_recv_buffer_size := (\<lambda>s n. log_call fails (CSetRcvbuf s n) ()),
     recv_buffer_size := (\<lambda>s. log_call fails (CGetRcvbuf s) 212992),
     set_send_buffer_size := (\<lambda>s n. log_call fails (CSetSndbuf s n) ()),
     send_buffer_size := (\<lambda>s. log_call fails (CGetSndbuf s) 212992),
     set_nonblocking := (\<lambda>s b. log_call fails (CNonblocking s b) ()),
     bind_addr := (\<lambda>s a. log_call fails (CBind s a) ()),
     local_addr_of := (\<lambda>s. log_call fails (CLocalAddr s) (SocketAddrV4 2130706433 4242)),
     peer_addr_of := (\<lambda>s. log_call fails (CPeerAddr s) (SocketAddrV4 2130706433 4243)),
     poll_new := log_call fails CPollNew 4,
     register := (\<lambda>p s tok i. log_call fails (CRegister p s tok i) ()),
     mio_tcp_connect := (\<lambda>a. log_call fails (CConnect a) 5),
     tk_from_std := (\<lambda>s. log_call fails (CFromStd s) ()),
     tk_tcp_connect := (\<lambda>a k. Some (log_call fails (CConnect a) 5 k)),
     setsockopt := (\<lambda>s opt v k. (if fails (CSetsockopt s opt v) = None then 0 else -1, k @ [CSetsockopt s opt v]))\<rparr>"

section \<open>Plans\<close>

text \<open>A failure either ends the set-up with an error or is only logged.\<close>

datatype severity = Fatal "io_error \<Rightarrow> transport_error" | Logged

type_synonym plan = "(call \<times> severity) list"

fun run_plan :: "(call \<Rightarrow> io_error option) \<Rightarrow> plan \<Rightarrow> call list \<Rightarrow> transport_error option \<times> call list" where
  "run_plan fails [] log = (None, log)"
| "run_plan fails ((c, sev) # rest) log =
     (case (fails c, sev) of
        (Some e, Fatal f) \<Rightarrow> (Some (f e), log @ [c])
      | _ \<Rightarrow> run_plan fails rest (log @ [c]))"

definition follows ::
  "(call \<Rightarrow> io_error option) \<Rightarrow> (call list, 'a, transport_error) eff \<Rightarrow> plan \<Rightarrow> 'a \<Rightarrow> bool"
where
  "follows fails m plan v \<longleftrightarrow>
     (\<forall>log. m log = (case run_plan fails plan log of
        (Some e, log') \<Rightarrow> (Err e, log')
      | (None, log') \<Rightarrow> (Ok v, log')))"

lemma run_plan_append:
  "run_plan fails (p @ q) log = (case run_plan fails p log of
     (Some e, log') \<Rightarrow> (Some e, log')
   | (None, log') \<Rightarrow> run_plan fails q log')"
  by (induction fails p log rule: run_plan.induct) (auto split: option.split severity.split)

named_theorems plan_rules \<open>set-ups that follow their plans\<close>

lemma follows_pure [plan_rules]: "follows fails (pure v) [] v"
  by (simp add: follows_def pure_def)

lemma follows_and_then:
  "follows fails m p v \<Longrightarrow> follows fails (f v) q w \<Longrightarrow> follows fails (and_then m f) (p @ q) w"
  by (simp add: follows_def and_then_def run_plan_append split: prod.split option.split)

lemma follows_only_if:
  "(b \<Longrightarrow> follows fails m p ()) \<Longrightarrow> follows fails (only_if b m) (if b then p else []) ()"
  by (simp add: follows_def only_if_def pure_def)

lemma only_if_const: "only_if True m = m" "only_if False m = pure ()"
  by (simp_all add: only_if_def)

lemma follows_act [plan_rules]: "(\<And>k. f k = k) \<Longrightarrow> follows fails (act f) [] ()"
  by (simp add: follows_def act_def)

lemma follows_io [plan_rules]: "follows fails (io_err (log_call fails c v)) [(c, Fatal Io)] v"
  by (simp add: follows_def eff_err_def log_call_def split: option.split)

abbreviation bind_failed :: "socket_addr \<Rightarrow> io_error \<Rightarrow> transport_error" where
  "bind_failed a \<equiv> (\<lambda>e. BindFailed (show_addr a) (err_text e))"

lemma follows_bind [plan_rules]:
  "follows fails (bind_err a (log_call fails c v)) [(c, Fatal (bind_failed a))] v"
  by (simp add: follows_def bind_err_def eff_err_def log_call_def split: option.split)

lemma recorder_calls [simp]:
  "platform (recorder pf fails) = pf"
  "socket_dgram (recorder pf fails) = (\<lambda>d. log_call fails (CSocket d) 3)"
  "set_reuse_address (recorder pf fails) = (\<lambda>s b. log_call fails (CReuseAddr s b) ())"
  "set_reuse_port (recorder pf fails) = (\<lambda>s b. log_call fails (CReusePort s b) ())"
  "set_recv_buffer_size (recorder pf fails) = (\<lambda>s n. log_call fails (CSetRcvbuf s n) ())"
  "recv_buffer_size (recorder pf fails) = (\<lambda>s. log_call fails (CGetRcvbuf s) 212992)"
  "set_send_buffer_size (recorder pf fails) = (\<lambda>s n. log_call fails (CSetSndbuf s n) ())"
  "send_buffer_size (recorder pf fails) = (\<lambda>s. log_call fails (CGetSndbuf s) 212992)"
  "set_nonblocking (recorder pf fails) = (\<lambda>s b. log_call fails (CNonblocking s b) ())"
  "bind_addr (recorder pf fails) = (\<lambda>s a. log_call fails (CBind s a) ())"
  "local_addr_of (recorder pf fails) = (\<lambda>s. log_call fails (CLocalAddr s) (SocketAddrV4 2130706433 4242))"
  "peer_addr_of (recorder pf fails) = (\<lambda>s. log_call fails (CPeerAddr s) (SocketAddrV4 2130706433 4243))"
  "poll_new (recorder pf fails) = log_call fails CPollNew 4"
  "register (recorder pf fails) = (\<lambda>p s tok i. log_call fails (CRegister p s tok i) ())"
  "mio_tcp_connect (recorder pf fails) = (\<lambda>a. log_call fails (CConnect a) 5)"
  "tk_from_std (recorder pf fails) = (\<lambda>s. log_call fails (CFromStd s) ())"
  "tk_tcp_connect (recorder pf fails) = (\<lambda>a k. Some (log_call fails (CConnect a) 5 k))"
  "setsockopt (recorder pf fails) =
     (\<lambda>s opt v k. (if fails (CSetsockopt s opt v) = None then 0 else -1, k @ [CSetsockopt s opt v]))"
  "warn (recorder pf fails) flds msg k = k"
  by (simp_all add: recorder_def quiet_os_def)

text \<open>A buffer request: set the size, then read back what was granted.\<close>

definition buffer_plan :: "(usize \<Rightarrow> call) \<Rightarrow> call \<Rightarrow> u32 option \<Rightarrow> plan" where
  "buffer_plan setc getc req =
     (case req of None \<Rightarrow> [] | Some r \<Rightarrow> [(setc (ucast r), Fatal Io), (getc, Fatal Io)])"

lemma follows_buffer [plan_rules]:
  assumes "\<And>n. setter s n = log_call fails (setc n) ()" and "getter s = log_call fails getc g"
  shows "follows fails (request_buffer (recorder pf fails) setter getter msg s req) (buffer_plan setc getc req) ()"
proof (cases req)
  case None
  then show ?thesis by (simp add: request_buffer_def buffer_plan_def follows_pure)
next
  case (Some r)
  then show ?thesis
    by (simp add: follows_def request_buffer_def buffer_plan_def assms and_then_def eff_err_def log_call_def
        only_if_def act_def pure_def split: option.split)
qed

section \<open>The plans of the backends\<close>

definition common_opts_plan :: "platform \<Rightarrow> fd \<Rightarrow> bind_config \<Rightarrow> recv_buf_config \<Rightarrow> send_buf_config \<Rightarrow> plan" where
  "common_opts_plan pf s bind rx tx =
     (if reuse_addr bind then [(CReuseAddr s True, Fatal Io)] else [])
   @ (if pf \<noteq> Windows \<and> reuse_port bind then [(CReusePort s True, Fatal Io)] else [])
   @ buffer_plan (CSetRcvbuf s) (CGetRcvbuf s) (so_rcvbuf rx)
   @ buffer_plan (CSetSndbuf s) (CGetSndbuf s) (so_sndbuf tx)"

definition mio_bind_plan :: "platform \<Rightarrow> bind_config \<Rightarrow> recv_buf_config \<Rightarrow> send_buf_config \<Rightarrow> plan" where
  "mio_bind_plan pf bind rx tx =
     [(CSocket (domain_for_address (bc_addr bind)), Fatal (bind_failed (bc_addr bind)))]
   @ common_opts_plan pf 3 bind rx tx
   @ [(CNonblocking 3 True, Fatal Io), (CBind 3 (bc_addr bind), Fatal (bind_failed (bc_addr bind))),
      (CLocalAddr 3, Fatal Io), (CPollNew, Fatal Io), (CRegister 4 3 0 [Readable], Fatal Io)]"

definition linux_opts_plan :: "platform \<Rightarrow> fd \<Rightarrow> recv_buf_config \<Rightarrow> plan" where
  "linux_opts_plan pf s rx =
     (if pf = Linux
      then (case so_busy_poll_us rx of None \<Rightarrow> [] | Some us \<Rightarrow> [(CSetsockopt s ''SO_BUSY_POLL'' (sint us), Logged)])
         @ (if so_rxq_ovfl rx then [(CSetsockopt s ''SO_RXQ_OVFL'' 1, Logged)] else [])
      else [])"

definition tokio_bind_plan :: "platform \<Rightarrow> bind_config \<Rightarrow> recv_buf_config \<Rightarrow> send_buf_config \<Rightarrow> plan" where
  "tokio_bind_plan pf bind rx tx =
     [(CSocket (domain_for_address (bc_addr bind)), Fatal Io)]
   @ common_opts_plan pf 3 bind rx tx @ linux_opts_plan pf 3 rx
   @ [(CNonblocking 3 True, Fatal Io), (CBind 3 (bc_addr bind), Fatal (bind_failed (bc_addr bind))), (CFromStd 3, Fatal Io)]"

lemma follows_mio_opts:
  "follows fails (mio_apply_socket_opts (recorder pf fails) s bind rx tx) (common_opts_plan pf s bind rx tx) ()"
  unfolding mio_apply_socket_opts_def common_opts_plan_def recorder_calls
  by (rule follows_and_then, rule follows_only_if, rule follows_io,
      rule follows_and_then, rule follows_only_if, rule follows_io,
      rule follows_and_then, rule follows_buffer, rule refl, rule refl,
      rule follows_buffer, rule refl, rule refl)

lemma follows_warn_affinity:
  "follows fails (warn_affinity (recorder pf fails) a b) [] ()"
  "follows fails (tokio_warn_affinity (recorder pf fails) a b) [] ()"
  by (simp_all add: warn_affinity_def tokio_warn_affinity_def follows_def only_if_def act_def pure_def)

lemma follows_setsockopt:
  "follows fails (setsockopt_or_warn (recorder pf fails) s opt v flds msg) [(CSetsockopt s opt v, Logged)] ()"
  by (simp add: follows_def setsockopt_or_warn_def split: option.split)

lemma follows_tokio_opts:
  "follows fails (tokio_apply_socket_opts (recorder pf fails) s bind rx tx)
     (common_opts_plan pf s bind rx tx @ linux_opts_plan pf s rx) ()"
proof -
  have poll: "follows fails (apply_busy_poll (recorder pf fails) s rx)
      (if pf = Linux then (case so_busy_poll_us rx of None \<Rightarrow> [] | Some us \<Rightarrow> [(CSetsockopt s ''SO_BUSY_POLL'' (sint us), Logged)]) else []) ()"
    by (cases "so_busy_poll_us rx")
       (simp_all add: apply_busy_poll_def follows_pure follows_setsockopt only_if_const follows_act)
  have ovfl: "follows fails (apply_rxq_ovfl (recorder pf fails) s rx)
      (if pf = Linux then (if so_rxq_ovfl rx then [(CSetsockopt s ''SO_RXQ_OVFL'' 1, Logged)] else []) else []) ()"
    by (cases "so_rxq_ovfl rx")
       (simp_all add: apply_rxq_ovfl_def follows_pure follows_setsockopt only_if_const follows_act)
  have stamp: "follows fails (apply_timestamping (recorder pf fails) rx) [] ()"
    by (simp add: apply_timestamping_def follows_pure follows_act)
  have plan: "common_opts_plan pf s bind rx tx @ linux_opts_plan pf s rx =
      (if reuse_addr bind then [(CReuseAddr s True, Fatal Io)] else [])
    @ (if pf \<noteq> Windows \<and> reuse_port bind then [(CReusePort s True, Fatal Io)] else [])
    @ buffer_plan (CSetRcvbuf s) (CGetRcvbuf s) (so_rcvbuf rx)
    @ buffer_plan (CSetSndbuf s) (CGetSndbuf s) (so_sndbuf tx)
    @ (if pf = Linux then (case so_busy_poll_us rx of None \<Rightarrow> [] | Some us \<Rightarrow> [(CSetsockopt s ''SO_BUSY_POLL'' (sint us), Logged)]) else [])
    @ (if pf = Linux then (if so_rxq_ovfl rx then [(CSetsockopt s ''SO_RXQ_OVFL'' 1, Logged)] else []) else [])
    @ []"
    by (simp add: common_opts_plan_def linux_opts_plan_def)
  show ?thesis
    unfolding tokio_apply_socket_opts_def plan recorder_calls
    by (rule follows_and_then, rule follows_only_if, rule follows_io,
      rule follows_and_then, rule follows_only_if, rule follows_io,
      rule follows_and_then, rule follows_buffer, rule refl, rule refl,
      rule follows_and_then, rule follows_buffer, rule refl, rule refl,
      rule follows_and_then, rule poll, rule follows_and_then, rule ovfl, rule stamp)
qed

lemma follows_mio_setup:
  "follows fails (mio_udp_setup (recorder pf fails) bind rx tx affinity) (mio_bind_plan pf bind rx tx)
     (3, SocketAddrV4 2130706433 4242, 4)"
proof -
  have plan: "mio_bind_plan pf bind rx tx = []
     @ [(CSocket (domain_for_address (bc_addr bind)), Fatal (bind_failed (bc_addr bind)))]
     @ common_opts_plan pf 3 bind rx tx
     @ [(CNonblocking 3 True, Fatal Io)] @ [(CBind 3 (bc_addr bind), Fatal (bind_failed (bc_addr bind)))]
     @ [(CLocalAddr 3, Fatal Io)] @ [(CPollNew, Fatal Io)] @ [(CRegister 4 3 0 [Readable], Fatal Io)] @ []"
    by (simp add: mio_bind_plan_def)
  show ?thesis
    unfolding plan mio_udp_setup_def UDP_TOKEN_def recorder_calls
    by (rule follows_and_then, rule follows_warn_affinity, rule follows_and_then, rule follows_bind,
      rule follows_and_then, rule follows_mio_opts, rule follows_and_then, rule follows_io,
      rule follows_and_then, rule follows_bind, rule follows_and_then, rule follows_io,
      rule follows_and_then, rule follows_io, rule follows_and_then, rule follows_io, rule follows_pure)
qed

lemma follows_tokio_setup:
  "follows fails (tokio_udp_setup (recorder pf fails) bind rx tx affinity) (tokio_bind_plan pf bind rx tx) 3"
proof -
  have plan: "tokio_bind_plan pf bind rx tx = []
     @ [(CSocket (domain_for_address (bc_addr bind)), Fatal Io)]
     @ (common_opts_plan pf 3 bind rx tx @ linux_opts_plan pf 3 rx)
     @ [(CNonblocking 3 True, Fatal Io)] @ [(CBind 3 (bc_addr bind), Fatal (bind_failed (bc_addr bind)))]
     @ [(CFromStd 3, Fatal Io)] @ []"
    by (simp add: tokio_bind_plan_def)
  show ?thesis
    unfolding plan tokio_udp_setup_def create_socket_def domain_for_address_def recorder_calls
    by (rule follows_and_then, rule follows_warn_affinity, rule follows_and_then, rule follows_io,
      rule follows_and_then, rule follows_tokio_opts, rule follows_and_then, rule follows_io,
      rule follows_and_then, rule follows_bind, rule follows_and_then, rule follows_io, rule follows_pure)
qed

section \<open>Properties\<close>

text \<open>
  C28: Binding the \<open>mio\<close> UDP transport makes exactly the calls of its plan, in order, up to the first
  failure: the options the configuration asks for, each once and all before the address is
  bound, then non-blocking mode, bind, local address, poll and registration. A failed socket or
  bind is reported as \<open>BindFailed\<close> with the address, any other failure as \<open>Io\<close>; a transport whose
  set-up succeeded has a fresh pool of the configured shape, or binding panics when the pool
  cannot be built.
\<close>

theorem mio_bind_follows_plan:
  "mio_udp_bind (recorder pf fails) bind rx tx ring batch affinity [] =
     (case run_plan fails (mio_bind_plan pf bind rx tx) [] of
        (Some e, log) \<Rightarrow> Some (Err e, log)
      | (None, log) \<Rightarrow>
          map_option (\<lambda>p. (Ok \<lparr>mu_sock = 3, mu_poll = 4, mu_events = [], mu_pool = p,
              mu_batch_recv_size = recv_size batch, mu_last_peer = None,
              mu_local = SocketAddrV4 2130706433 4242\<rparr>, log))
            (build_pool (slab_count ring) (rc_slab_size ring)))"
  using follows_mio_setup [of fails pf bind rx tx affinity]
  by (simp add: follows_def mio_udp_bind_def split: prod.split option.split)

text \<open>
  C29: Binding the tokio UDP transport makes exactly the calls of its plan: the common options, on
  Linux busy polling and the overflow counter where they are configured, whose failure is only
  logged, then non-blocking mode, bind and the hand-over to the runtime. Only a failed bind is
  \<open>BindFailed\<close>; a socket that cannot be created is an \<open>Io\<close> error here.
\<close>

theorem tokio_bind_follows_plan:
  "tokio_udp_bind (recorder pf fails) bind rx tx ring batch affinity [] =
     (case run_plan fails (tokio_bind_plan pf bind rx tx) [] of
        (Some e, log) \<Rightarrow> Some (Err e, log)
      | (None, log) \<Rightarrow>
          map_option (\<lambda>p. (Ok \<lparr>tu_sock = 3, tu_pool = p, tu_batch_recv_size = recv_size batch,
              tu_last_peer = None\<rparr>, log))
            (build_pool (slab_count ring) (rc_slab_size ring)))"
  using follows_tokio_setup [of fails pf bind rx tx affinity]
  by (simp add: follows_def tokio_udp_bind_def split: prod.split option.split)

text \<open>The plans of connecting a stream, up to the handshake on \<open>mio\<close>.\<close>

definition tcp_opts_plan :: "recv_buf_config \<Rightarrow> send_buf_config \<Rightarrow> plan" where
  "tcp_opts_plan rx tx = buffer_plan (CSetRcvbuf 5) (CGetRcvbuf 5) (so_rcvbuf rx)
     @ buffer_plan (CSetSndbuf 5) (CGetSndbuf 5) (so_sndbuf tx)"

lemma follows_tcp_opts:
  "follows fails (apply_tcp_socket_opts (recorder pf fails) 5 rx tx) (tcp_opts_plan rx tx) ()"
  unfolding apply_tcp_socket_opts_def tcp_opts_plan_def recorder_calls
  by (rule follows_and_then, rule follows_buffer, rule refl, rule refl, rule follows_buffer, rule refl, rule refl)

definition mio_connect_plan :: "bind_config \<Rightarrow> recv_buf_config \<Rightarrow> send_buf_config \<Rightarrow> plan" where
  "mio_connect_plan bind rx tx =
     [(CConnect (bc_addr bind), Fatal (bind_failed (bc_addr bind)))] @ tcp_opts_plan rx tx
   @ [(CPollNew, Fatal Io), (CRegister 4 5 1 [Readable, Writable], Fatal Io)]"

definition tokio_connect_plan :: "bind_config \<Rightarrow> recv_buf_config \<Rightarrow> send_buf_config \<Rightarrow> plan" where
  "tokio_connect_plan bind rx tx =
     [(CConnect (bc_addr bind), Fatal (bind_failed (bc_addr bind))), (CPeerAddr 5, Fatal Io)] @ tcp_opts_plan rx tx"

lemma follows_mio_tcp_setup:
  "follows fails (mio_tcp_setup (recorder pf fails) bind rx tx affinity) (mio_connect_plan bind rx tx) (5, 4)"
proof -
  have plan: "mio_connect_plan bind rx tx = []
     @ [(CConnect (bc_addr bind), Fatal (bind_failed (bc_addr bind)))] @ tcp_opts_plan rx tx
     @ [(CPollNew, Fatal Io)] @ [(CRegister 4 5 1 [Readable, Writable], Fatal Io)] @ []"
    by (simp add: mio_connect_plan_def)
  show ?thesis
    unfolding plan mio_tcp_setup_def TCP_TOKEN_def recorder_calls
    by (rule follows_and_then, rule follows_warn_affinity, rule follows_and_then, rule follows_bind,
      rule follows_and_then, rule follows_tcp_opts, rule follows_and_then, rule follows_io,
      rule follows_and_then, rule follows_io, rule follows_pure)
qed

lemma follows_tokio_tcp_setup:
  "follows fails (tokio_tcp_setup (recorder pf fails) rx tx 5) ((CPeerAddr 5, Fatal Io) # tcp_opts_plan rx tx)
     (SocketAddrV4 2130706433 4243)"
proof -
  have plan: "(CPeerAddr 5, Fatal Io) # tcp_opts_plan rx tx = [(CPeerAddr 5, Fatal Io)] @ tcp_opts_plan rx tx @ []"
    by simp
  show ?thesis
    unfolding plan tokio_tcp_setup_def tokio_apply_tcp_socket_opts_eq recorder_calls
    by (rule follows_and_then, rule follows_io, rule follows_and_then, rule follows_tcp_opts, rule follows_pure)
qed

section \<open>The handshake\<close>

text \<open>
  The recorder with a scripted handshake: the polls are logged with their timeouts and answer one
  after the other what \<open>hs\<close> says, each after its whole timeout, which is what the clock shows;
  \<open>pending\<close> is the error the socket reports when it is asked for one.
\<close>

definition poll_count :: "call list \<Rightarrow> nat" where
  "poll_count log = length (filter (\<lambda>c. case c of CPoll p t \<Rightarrow> True | _ \<Rightarrow> False) log)"

definition polled_ms :: "call list \<Rightarrow> nat" where
  "polled_ms log = sum_list (map (\<lambda>c. case c of CPoll p (Some t) \<Rightarrow> t | _ \<Rightarrow> 0) log)"

lemma poll_log [simp]:
  "poll_count (log @ [c]) = poll_count log + (case c of CPoll p t \<Rightarrow> 1 | _ \<Rightarrow> 0)"
  "polled_ms (log @ [c]) = polled_ms log + (case c of CPoll p (Some t) \<Rightarrow> t | _ \<Rightarrow> 0)"
  by (simp_all add: poll_count_def polled_ms_def split: call.split)

definition handshake_recorder ::
  "platform \<Rightarrow> (call \<Rightarrow> io_error option) \<Rightarrow> (nat \<Rightarrow> (event list, io_error) result) \<Rightarrow> io_error option \<Rightarrow> call list os"
where
  "handshake_recorder pf fails hs pending = (recorder pf fails)\<lparr>
     poll_wait := (\<lambda>p t log. Some (hs (poll_count log), log @ [CPoll p t])),
     instant_now := (\<lambda>log. (polled_ms log, log)),
     take_error := (\<lambda>s. log_call fails (CTakeError s) pending)\<rparr>"

lemma handshake_calls [simp]:
  "poll_wait (handshake_recorder pf fails hs pending) = (\<lambda>p t log. Some (hs (poll_count log), log @ [CPoll p t]))"
  "instant_now (handshake_recorder pf fails hs pending) = (\<lambda>log. (polled_ms log, log))"
  "take_error (handshake_recorder pf fails hs pending) = (\<lambda>s. log_call fails (CTakeError s) pending)"
  "peer_addr_of (handshake_recorder pf fails hs pending) = peer_addr_of (recorder pf fails)"
  by (simp_all add: handshake_recorder_def)

lemma handshake_setup:
  "mio_tcp_setup (handshake_recorder pf fails hs pending) = mio_tcp_setup (recorder pf fails)"
  by (intro ext) (simp add: mio_tcp_setup_def handshake_recorder_def warn_affinity_def apply_tcp_socket_opts_def request_buffer_def
      cong: option.case_cong)

text \<open>
  The handshake as it is meant to go, when the log is \<open>log\<close>, the next poll is the \<open>c\<close>-th and the
  deadline is \<open>m\<close> polls away: the first poll that fails or brings a writable event of the stream's
  token decides. In the second case the socket is asked for its pending error, and only when there
  is none the handshake has succeeded. Without such a poll it has timed out.
\<close>

definition decides :: "(event list, io_error) result \<Rightarrow> bool" where
  "decides r = (case r of Err e \<Rightarrow> True | Ok evs \<Rightarrow> \<exists>ev \<in> set evs. ev_token ev = 1 \<and> ev_writable ev)"

definition handshake ::
  "(call \<Rightarrow> io_error option) \<Rightarrow> (nat \<Rightarrow> (event list, io_error) result) \<Rightarrow> io_error option \<Rightarrow> nat \<Rightarrow> nat \<Rightarrow> call list
     \<Rightarrow> (event list, transport_error) result \<times> call list"
where
  "handshake fails hs pending c m log =
     (case find (decides \<circ> hs) [c..<c + m] of
        None \<Rightarrow> (Err timed_out, log @ replicate m (CPoll 4 (Some 100)))
      | Some i \<Rightarrow>
          (let log' = log @ replicate (Suc (i - c)) (CPoll 4 (Some 100)) in
           case hs i of
             Err e \<Rightarrow> (Err (Io e), log')
           | Ok evs \<Rightarrow>
               (case fails (CTakeError 5) of
                  Some e \<Rightarrow> (Err (Io e), log' @ [CTakeError 5])
                | None \<Rightarrow>
                    (case pending of
                       Some e \<Rightarrow> (Err (Io e), log' @ [CTakeError 5])
                     | None \<Rightarrow> (Ok evs, log' @ [CTakeError 5])))))"

lemma handshake_decided:
  assumes "decides (hs c)" and "0 < m"
  shows "handshake fails hs pending c m log =
    (let log' = log @ [CPoll 4 (Some 100)] in
     case hs c of
       Err e \<Rightarrow> (Err (Io e), log')
     | Ok evs \<Rightarrow>
         (case fails (CTakeError 5) of
            Some e \<Rightarrow> (Err (Io e), log' @ [CTakeError 5])
          | None \<Rightarrow>
              (case pending of
                 Some e \<Rightarrow> (Err (Io e), log' @ [CTakeError 5])
               | None \<Rightarrow> (Ok evs, log' @ [CTakeError 5]))))"
  using assms by (simp add: handshake_def upt_conv_Cons)

lemma handshake_undecided:
  assumes "\<not> decides (hs c)"
  shows "handshake fails hs pending c (Suc m) log = handshake fails hs pending (Suc c) m (log @ [CPoll 4 (Some 100)])"
proof -
  have find: "find (decides \<circ> hs) [c..<c + Suc m] = find (decides \<circ> hs) [Suc c..<Suc c + m]"
    using assms by (simp add: upt_conv_Cons del: upt_Suc)
  have "c < i" if "find (decides \<circ> hs) [Suc c..<Suc c + m] = Some i" for i
    using that nth_mem by (force simp: find_Some_iff simp del: upt_Suc)
  then have "Suc (i - c) = Suc (Suc (i - Suc c))" if "find (decides \<circ> hs) [Suc c..<Suc c + m] = Some i" for i
    using that by (simp add: Suc_diff_Suc)
  then show ?thesis unfolding handshake_def find
    by (simp add: Let_def split: option.split)
qed

lemma handshake_zero: "handshake fails hs pending c 0 log = (Err timed_out, log)"
  by (simp add: handshake_def)

lemma handshake_loop:
  assumes "0 < m" and "polled_ms log + 100 * m = d"
  shows "\<exists>evs'. run_blocking (connect_round (handshake_recorder pf fails hs pending) 4 5 d) (evs, log) =
      (case handshake fails hs pending (poll_count log) m log of (r, log') \<Rightarrow> Some (map_ok (\<lambda>_. ()) r, evs', log'))
    \<and> (\<forall>es. fst (handshake fails hs pending (poll_count log) m log) = Ok es \<longrightarrow> evs' = es)"
  using assms
proof (induction m arbitrary: evs log)
  case 0
  then show ?case by simp
next
  case (Suc m)
  let ?body = "connect_round (handshake_recorder pf fails hs pending) 4 5 d"
  show ?case
  proof (cases "decides (hs (poll_count log))")
    case True
    then show ?thesis unfolding handshake_decided [where hs = hs and c = "poll_count log", OF True zero_less_Suc]
      by (auto simp: decides_def connect_round_def any_writable_def list_ex_iff TCP_TOKEN_def loop_steps log_call_def Let_def
          split: result.splits option.splits)
  next
    case False
    then obtain evs1 where e: "hs (poll_count log) = Ok evs1" "\<not> any_writable TCP_TOKEN evs1"
      by (auto simp: decides_def any_writable_def list_ex_iff TCP_TOKEN_def split: result.splits)
    let ?log = "log @ [CPoll 4 (Some 100)]"
    note und = handshake_undecided [where hs = hs and c = "poll_count log" and m = m and log = log, OF False]
    show ?thesis
    proof (cases "m = 0")
      case True
      with e Suc.prems have "?body (evs, log) = Break (Some (Err timed_out, evs1, ?log))" by (simp add: connect_round_def)
      moreover have "handshake fails hs pending (poll_count log) (Suc m) log = (Err timed_out, ?log)"
        using und by (simp add: True handshake_zero)
      ultimately show ?thesis by (simp add: loop_steps)
    next
      case more: False
      with e Suc.prems have "?body (evs, log) = Continue (evs1, ?log)" by (simp add: connect_round_def)
      moreover have "0 < m" "polled_ms ?log + 100 * m = d" "poll_count ?log = Suc (poll_count log)" using more Suc.prems by simp_all
      ultimately show ?thesis using Suc.IH [of ?log evs1] by (simp add: und loop_steps)
    qed
  qed
qed

lemma run_plan_silent:
  "list_all (\<lambda>(c, sev). case c of CPoll p t \<Rightarrow> False | _ \<Rightarrow> True) plan \<Longrightarrow>
     poll_count (snd (run_plan fails plan log)) = poll_count log \<and> polled_ms (snd (run_plan fails plan log)) = polled_ms log"
proof (induction fails plan log rule: run_plan.induct)
  case (2 fails c sev rest log)
  then have "poll_count (log @ [c]) = poll_count log" "polled_ms (log @ [c]) = polled_ms log"
    by (auto split: call.splits option.splits)
  with 2 show ?case by (simp split: option.split severity.split)
qed simp

lemma mio_connect_silent:
  "list_all (\<lambda>(c, sev). case c of CPoll p t \<Rightarrow> False | _ \<Rightarrow> True) (mio_connect_plan bind rx tx)"
  by (simp add: mio_connect_plan_def tcp_opts_plan_def buffer_plan_def split: option.split)

lemma mio_wait_handshake:
  assumes "poll_count log = 0" and "polled_ms log = 0" and "mt_poll self = 4" and "mt_stream self = 5"
  shows "\<exists>evs'. wait_connect (handshake_recorder pf fails hs pending) self log =
      (case handshake fails hs pending 0 50 log of (r, log') \<Rightarrow> Some (map_ok (\<lambda>_. ()) r, self\<lparr>mt_events := evs'\<rparr>, log'))
    \<and> (\<forall>es. fst (handshake fails hs pending 0 50 log) = Ok es \<longrightarrow> evs' = es)"
  using handshake_loop [of 50 log "polled_ms log + 5000" pf fails hs pending "mt_events self"] assms
  by (auto simp: wait_connect_def split: prod.split)

text \<open>
  C30: Connecting a stream makes exactly the calls of its plan, in order, up to the first failure:
  connect, whose failure is \<open>BindFailed\<close> with the address, the requested buffer sizes, and on
  \<open>mio\<close> a poll registered for both directions, on tokio the peer address before the buffer sizes.
  The pool is built from the ring only after all succeeded. On \<open>mio\<close> the handshake follows, over a
  pool that could be built: polls of 100 ms, fifty at most, up to the first that fails or brings a
  writable event of the stream, whose pending error is then asked for; its failure is the outcome,
  and after its success the transport has the peer address the socket reports, or the configured
  one when it reports none.
\<close>

theorem tcp_connect_follows_plan:
  "mio_tcp_connect_to (handshake_recorder pf fails hs pending) bind rx tx ring affinity [] =
     (case run_plan fails (mio_connect_plan bind rx tx) [] of
        (Some e, log) \<Rightarrow> Some (Err e, log)
      | (None, log) \<Rightarrow>
          (case build_pool (slab_count ring) (rc_slab_size ring) of
             None \<Rightarrow> None
           | Some p \<Rightarrow>
               (case handshake fails hs pending 0 50 log of
                  (Err e, log') \<Rightarrow> Some (Err e, log')
                | (Ok evs, log') \<Rightarrow>
                    Some (Ok \<lparr>mt_stream = 5, mt_poll = 4, mt_events = evs, mt_pool = p,
                        mt_peer = (if fails (CPeerAddr 5) = None then SocketAddrV4 2130706433 4243 else bc_addr bind)\<rparr>,
                      log' @ [CPeerAddr 5]))))
   \<and> tokio_tcp_connect_to (recorder pf fails) bind rx tx ring affinity [] =
     (case run_plan fails (tokio_connect_plan bind rx tx) [] of
        (Some e, log) \<Rightarrow> Some (Err e, log)
      | (None, log) \<Rightarrow>
          map_option (\<lambda>p. (Ok \<lparr>tt_stream = 5, tt_pool = p, tt_peer = SocketAddrV4 2130706433 4243\<rparr>, log))
            (build_pool (slab_count ring) (rc_slab_size ring)))"
proof (rule conjI)
  obtain f log where plan: "run_plan fails (mio_connect_plan bind rx tx) [] = (f, log)" by force
  have made: "mio_tcp_setup (handshake_recorder pf fails hs pending) bind rx tx affinity [] =
      (case f of Some e \<Rightarrow> (Err e, log) | None \<Rightarrow> (Ok (5, 4), log))"
    using follows_mio_tcp_setup [of fails pf bind rx tx affinity] plan by (simp add: follows_def handshake_setup)
  have silent: "poll_count log = 0" "polled_ms log = 0"
    using run_plan_silent [OF mio_connect_silent [of bind rx tx], where log = "[]" and fails = fails] plan by (simp_all add: poll_count_def polled_ms_def)
  let ?self = "\<lambda>p. \<lparr>mt_stream = 5, mt_poll = 4, mt_events = [], mt_pool = p, mt_peer = bc_addr bind\<rparr>"
  obtain r log' where h: "handshake fails hs pending 0 50 log = (r, log')" by force
  have wait: "\<exists>evs'. wait_connect (handshake_recorder pf fails hs pending) (?self p) log =
      Some (map_ok (\<lambda>_. ()) r, (?self p)\<lparr>mt_events := evs'\<rparr>, log') \<and> (\<forall>es. r = Ok es \<longrightarrow> evs' = es)" for p
    using mio_wait_handshake [OF silent, of "?self p" pf fails hs pending] h by simp
  show "mio_tcp_connect_to (handshake_recorder pf fails hs pending) bind rx tx ring affinity [] =
     (case run_plan fails (mio_connect_plan bind rx tx) [] of
        (Some e, log) \<Rightarrow> Some (Err e, log)
      | (None, log) \<Rightarrow>
          (case build_pool (slab_count ring) (rc_slab_size ring) of
             None \<Rightarrow> None
           | Some p \<Rightarrow>
               (case handshake fails hs pending 0 50 log of
                  (Err e, log') \<Rightarrow> Some (Err e, log')
                | (Ok evs, log') \<Rightarrow>
                    Some (Ok \<lparr>mt_stream = 5, mt_poll = 4, mt_events = evs, mt_pool = p,
                        mt_peer = (if fails (CPeerAddr 5) = None then SocketAddrV4 2130706433 4243 else bc_addr bind)\<rparr>,
                      log' @ [CPeerAddr 5]))))"
  proof (cases "f = None")
    case False
    then show ?thesis using made plan by (auto simp: mio_tcp_connect_to_def)
  next
    case ok: True
    show ?thesis
    proof (cases "build_pool (slab_count ring) (rc_slab_size ring)")
      case None
      then show ?thesis using made plan ok by (simp add: mio_tcp_connect_to_def)
    next
      case (Some p)
      from wait [of p] obtain evs' where "wait_connect (handshake_recorder pf fails hs pending) (?self p) log =
        Some (map_ok (\<lambda>_. ()) r, (?self p)\<lparr>mt_events := evs'\<rparr>, log')" "\<forall>es. r = Ok es \<longrightarrow> evs' = es" by blast
      then show ?thesis using made plan ok Some h
        by (cases r) (simp_all add: mio_tcp_connect_to_def log_call_def split: option.split)
    qed
  qed
  have warn: "tokio_warn_affinity (recorder pf fails) affinity ''tokio-tcp'' k = (Ok (), k)" for k
    by (simp add: tokio_warn_affinity_def only_if_def act_def pure_def)
  have steps: "tokio_tcp_setup (recorder pf fails) rx tx 5 k =
      (case run_plan fails ((CPeerAddr 5, Fatal Io) # tcp_opts_plan rx tx) k of
        (Some e, log) \<Rightarrow> (Err e, log)
      | (None, log) \<Rightarrow> (Ok (SocketAddrV4 2130706433 4243), log))" for k
    using follows_tokio_tcp_setup [of fails pf rx tx] by (simp add: follows_def)
  show "tokio_tcp_connect_to (recorder pf fails) bind rx tx ring affinity [] =
     (case run_plan fails (tokio_connect_plan bind rx tx) [] of
        (Some e, log) \<Rightarrow> Some (Err e, log)
      | (None, log) \<Rightarrow>
          map_option (\<lambda>p. (Ok \<lparr>tt_stream = 5, tt_pool = p, tt_peer = SocketAddrV4 2130706433 4243\<rparr>, log))
            (build_pool (slab_count ring) (rc_slab_size ring)))"
    by (cases "fails (CConnect (bc_addr bind))")
       (simp_all add: tokio_tcp_connect_to_def warn steps log_call_def tokio_connect_plan_def
         split: prod.split option.split del: run_plan.simps(2), simp_all)
qed

end
