(* ===== verification/Mock_Source.thy ===== *)
theory Mock_Source imports Datagram_Source Vec_Pool begin

text \<open>
  The reference source of the conformance suite (the \<open>tests\<close> module of
  \<open>crates/core/src/testing/conformance.rs\<close>): a pool that only counts and a source that hands out
  queued vectors. It keeps the same two contracts as the backends. At the end, the example source
  in the documentation of \<open>DatagramSource\<close>.
\<close>

section \<open>The counting pool\<close>

record mock_pool =
  mp_capacity :: usize
  mp_in_use :: usize

datatype mock_slab = MockSlab

definition mock_acquire :: "mock_pool \<Rightarrow> usize \<Rightarrow> mock_slab option \<times> mock_pool" where
  "mock_acquire p n =
     (let prev = mp_in_use p; p' = p\<lparr>mp_in_use := prev + 1\<rparr> in
      if mp_capacity p \<le> prev then (None, p'\<lparr>mp_in_use := mp_in_use p' - 1\<rparr>)
      else (Some MockSlab, p'))"

definition mock_release :: "mock_slab \<Rightarrow> mock_pool \<Rightarrow> mock_pool" where
  "mock_release sl p = p\<lparr>mp_in_use := mp_in_use p - 1\<rparr>"

definition mock_pool_inv :: "mock_pool \<Rightarrow> unit multiset \<Rightarrow> bool" where
  "mock_pool_inv p L \<longleftrightarrow> unat (mp_in_use p) = size L \<and> size L \<le> unat (mp_capacity p)"

lemma mock_acquire_refused: "mp_capacity p \<le> mp_in_use p \<Longrightarrow> mock_acquire p n = (None, p)"
  by (simp add: mock_acquire_def Let_def)

lemma mock_acquire_granted:
  "\<not> mp_capacity p \<le> mp_in_use p \<Longrightarrow> mock_acquire p n = (Some MockSlab, p\<lparr>mp_in_use := mp_in_use p + 1\<rparr>)"
  by (simp add: mock_acquire_def Let_def)

lemma mock_inv_acquire:
  assumes "mock_pool_inv p L" and "size L < unat (mp_capacity p)"
  shows "mock_acquire p n = (Some MockSlab, p\<lparr>mp_in_use := mp_in_use p + 1\<rparr>)
    \<and> mock_pool_inv (p\<lparr>mp_in_use := mp_in_use p + 1\<rparr>) (add_mset () L)"
proof -
  have lt: "unat (mp_in_use p) < unat (mp_capacity p)" using assms by (simp add: mock_pool_inv_def)
  have "unat (mp_in_use p) + 1 < 2 ^ 64" using lt unat_usize_less [of "mp_capacity p"] by linarith
  then have "unat (mp_in_use p + 1) = unat (mp_in_use p) + 1" by (simp add: unat_word_ariths)
  with assms lt mock_acquire_granted [of p n] show ?thesis
    by (simp add: mock_pool_inv_def word_le_nat_alt)
qed

lemma mock_inv_release:
  assumes "mock_pool_inv p L" and "() \<in># L"
  shows "mock_pool_inv (mock_release sl p) (L - {#()#})"
proof -
  have pos: "0 < size L" using assms(2) by (simp add: nonempty_has_size [symmetric]) auto
  with assms(1) have "1 \<le> unat (mp_in_use p)" by (simp add: mock_pool_inv_def)
  then have "unat (mp_in_use p - 1) = unat (mp_in_use p) - 1" by (simp add: unat_sub word_le_nat_alt)
  moreover have "size (L - {#()#}) = size L - 1" using assms(2) by (rule size_Diff_singleton)
  moreover have "size L \<le> unat (mp_capacity p)" "unat (mp_in_use p) = size L"
    using assms(1) by (simp_all add: mock_pool_inv_def)
  ultimately show ?thesis using pos by (simp add: mock_pool_inv_def mock_release_def)
qed

interpretation mp: buffer_pool mock_acquire mock_release mp_capacity mp_in_use "\<lambda>p n. True" "\<lambda>sl. ()" mock_pool_inv
proof unfold_locales
  fix p L n assume "mock_pool_inv p L" "size L < unat (mp_capacity p)"
  from mock_inv_acquire [OF this] show "\<exists>sl p'. mock_acquire p n = (Some sl, p') \<and> mock_pool_inv p' (add_mset () L)
      \<and> mp_capacity p' = mp_capacity p \<and> (\<lambda>n :: usize. True) = (\<lambda>n. True)" by force
next
  fix p L n assume "mock_pool_inv p L" "\<not> True \<or> size L = unat (mp_capacity p)"
  then show "mock_acquire p n = (None, p)"
    by (intro mock_acquire_refused) (simp add: mock_pool_inv_def word_le_nat_alt)
next
  fix p L and sl :: mock_slab assume "mock_pool_inv p L" "() \<in># L"
  from mock_inv_release [OF this] show "mock_pool_inv (mock_release sl p) (L - {#()#}) \<and>
      mp_capacity (mock_release sl p) = mp_capacity p \<and> (\<lambda>n :: usize. True) = (\<lambda>n. True)"
    by (simp add: mock_release_def)
qed (simp_all add: mock_pool_inv_def)

section \<open>The source\<close>

datatype mock_frame = MockFrame (mf_slab: mock_slab) (mf_bytes: bytes)

record mock_source =
  ms_pending :: "bytes list"
  ms_pool :: mock_pool

function mock_recv_loop ::
  "nat \<Rightarrow> nat \<Rightarrow> mock_source \<Rightarrow> mock_frame frame_batch
     \<Rightarrow> (nat, transport_error) result \<times> mock_source \<times> mock_frame frame_batch"
where
  "mock_recv_loop cap n s out =
     (if \<not> n < cap then (Ok n, s, out)
      else case ms_pending s of
        [] \<Rightarrow> (Ok n, s, out)
      | d # rest \<Rightarrow>
          (case mock_acquire (ms_pool s) 1 of
             (Some slab, pool) \<Rightarrow>
               mock_recv_loop cap (Suc n) (s\<lparr>ms_pending := rest, ms_pool := pool\<rparr>) (batch_push (MockFrame slab d) out)
           | (None, pool) \<Rightarrow>
               (if n = 0 then (Err (PoolExhausted (mp_in_use pool) (mp_capacity pool)), s\<lparr>ms_pool := pool\<rparr>, out)
                else (Ok n, s\<lparr>ms_pool := pool\<rparr>, out))))"
  by pat_completeness auto
termination by (relation "measure (\<lambda>(cap, n, s, out). cap - n)") auto

declare mock_recv_loop.simps [simp del]

definition mock_recv_burst ::
  "mock_source \<Rightarrow> mock_frame frame_batch \<Rightarrow> usize
     \<Rightarrow> ((usize, transport_error) result \<times> mock_source \<times> mock_frame frame_batch) option"
where
  "mock_recv_burst s out mx =
     (case mock_recv_loop (unat (min mx (batch_spare out))) 0 s out of
        (r, s', out') \<Rightarrow> Some (map_ok word_of_nat r, s', out'))"

definition mock_build :: "nat \<Rightarrow> mock_source" where
  "mock_build sent =
     \<lparr>ms_pending = map (\<lambda>i. replicate 4 (word_of_nat i)) [0..<sent],
      ms_pool = \<lparr>mp_capacity = 8, mp_in_use = 0\<rparr>\<rparr>"

definition mock_ops :: "(mock_source, mock_frame, mock_pool, mock_slab) datagram_ops" where
  "mock_ops = \<lparr>op_recv = mock_recv_burst, op_pool = ms_pool, op_set_pool = (\<lambda>p s. s\<lparr>ms_pool := p\<rparr>),
     op_slab = mf_slab, op_acquire = mock_acquire, op_release = mock_release,
     op_capacity = mp_capacity, op_in_use = mp_in_use\<rparr>"

definition mock_src :: "mock_source \<Rightarrow> unit multiset \<Rightarrow> bytes list \<Rightarrow> bool" where
  "mock_src s L ds \<longleftrightarrow> mock_pool_inv (ms_pool s) L \<and> ms_pending s = ds"

lemma mock_loop_takes:
  assumes "mock_pool_inv (ms_pool s) L" and "batch_ok out" and "cap - n \<le> unat (batch_spare out)"
    and "0 < n \<or> size L < unat (mp_capacity (ms_pool s))"
    and "m = min (cap - n) (min (unat (mp_capacity (ms_pool s)) - size L) (length (ms_pending s)))"
  shows "\<exists>s' fs. mock_recv_loop cap n s out = (Ok (n + m), s', out\<lparr>frames := frames out @ fs\<rparr>)
    \<and> map mf_bytes fs = take m (ms_pending s) \<and> mock_pool_inv (ms_pool s') (L + replicate_mset m ())
    \<and> ms_pending s' = drop m (ms_pending s) \<and> mp_capacity (ms_pool s') = mp_capacity (ms_pool s)"
  using assms
proof (induction cap n s out arbitrary: L m rule: mock_recv_loop.induct)
  case (1 cap n s out)
  show ?case
  proof (cases "n < cap \<and> ms_pending s \<noteq> [] \<and> size L < unat (mp_capacity (ms_pool s))")
    case False
    have m: "m = 0" using False 1(6) by auto
    have "mock_recv_loop cap n s out = (Ok n, s, out)"
    proof (cases "n < cap \<and> ms_pending s \<noteq> []")
      case True
      with False 1(2,5) have "0 < n" "mp_capacity (ms_pool s) \<le> mp_in_use (ms_pool s)"
        by (auto simp: mock_pool_inv_def word_le_nat_alt)
      with True show ?thesis
        by (subst mock_recv_loop.simps) (auto simp: mock_acquire_refused split: list.split)
    next
      case False
      then show ?thesis by (subst mock_recv_loop.simps) auto
    qed
    with m 1(2) show ?thesis by (intro exI [of _ s] exI [of _ "[]"]) simp
  next
    case True
    then obtain d rest where d: "ms_pending s = d # rest" by (cases "ms_pending s") auto
    let ?p = "ms_pool s\<lparr>mp_in_use := mp_in_use (ms_pool s) + 1\<rparr>"
    let ?s = "s\<lparr>ms_pending := rest, ms_pool := ?p\<rparr>"
    let ?f = "MockFrame MockSlab d"
    from mock_inv_acquire [OF 1(2), of 1] True have acq: "mock_acquire (ms_pool s) 1 = (Some MockSlab, ?p)"
      "mock_pool_inv ?p (add_mset () L)" by simp_all
    have sp: "0 < unat (batch_spare out)" using 1(4) conjunct1 [OF True] by linarith
    note push = batch_push_spare [OF 1(3) sp, of ?f]
    from batch_ok_push_spare [OF 1(3) sp, of ?f] 1(4)
    have out': "batch_ok (out\<lparr>frames := frames out @ [?f]\<rparr>)"
      "cap - Suc n \<le> unat (batch_spare (out\<lparr>frames := frames out @ [?f]\<rparr>))" by simp_all
    have m: "m = Suc (min (cap - Suc n) (min (unat (mp_capacity (ms_pool ?s)) - size (add_mset () L)) (length (ms_pending ?s))))"
    proof -
      have step: "min (a - n) (min (b - l) (Suc k)) = Suc (min (a - Suc n) (min (b - Suc l) k))"
        if "n < a" "l < b" for a b l k using that by linarith
      show ?thesis using step [of cap "size L" "unat (mp_capacity (ms_pool s))" "length rest"] True 1(6) d by simp
    qed
    let ?m = "min (cap - Suc n) (min (unat (mp_capacity (ms_pool ?s)) - size (add_mset () L)) (length (ms_pending ?s)))"
    have "\<exists>s' fs. mock_recv_loop cap (Suc n) ?s (batch_push ?f out)
        = (Ok (Suc n + ?m), s', batch_push ?f out\<lparr>frames := frames (batch_push ?f out) @ fs\<rparr>)
      \<and> map mf_bytes fs = take ?m (ms_pending ?s) \<and> mock_pool_inv (ms_pool s') (add_mset () L + replicate_mset ?m ())
      \<and> ms_pending s' = drop ?m (ms_pending ?s) \<and> mp_capacity (ms_pool s') = mp_capacity (ms_pool ?s)"
      using acq(2) out' True d push
      by (intro 1(1) [OF _ d acq(1) [symmetric] refl]) simp_all
    then obtain s' fs where r: "mock_recv_loop cap (Suc n) ?s (batch_push ?f out)
        = (Ok (Suc n + ?m), s', out\<lparr>frames := frames out @ ?f # fs\<rparr>)"
      "map mf_bytes fs = take ?m rest" "mock_pool_inv (ms_pool s') (add_mset () L + replicate_mset ?m ())"
      "ms_pending s' = drop ?m rest" "mp_capacity (ms_pool s') = mp_capacity (ms_pool s)"
      by (auto simp: push)
    have "mock_recv_loop cap n s out = mock_recv_loop cap (Suc n) ?s (batch_push ?f out)"
      using True d acq(1) by (subst mock_recv_loop.simps) simp
    with r m d show ?thesis
      by (intro exI [of _ s'] exI [of _ "?f # fs"]) simp
  qed
qed

interpretation mock: datagram_source mock_ops "\<lambda>p n. True" "\<lambda>sl. ()" mock_pool_inv
  "\<lambda>s f. Some (mf_bytes f)" mock_src
proof (unfold_locales, goal_cases)
  case (1 p L) then show ?case by (simp add: mock_ops_def mp.in_use_live)
next
  case (2 p L) then show ?case by (simp add: mock_ops_def mp.live_bound)
next
  case (3 p L n) then show ?case using mp.acquire_free [of p L n] by (simp add: mock_ops_def)
next
  case (4 p L n) then show ?case using mp.acquire_none [of p L n] by (simp add: mock_ops_def)
next
  case (5 p L sl) then show ?case using mp.release_live [of p L sl] by (simp add: mock_ops_def)
next
  case (6 s L ds) then show ?case by (simp add: mock_src_def mock_ops_def)
next
  case (7 s L ds p L') then show ?case by (simp add: mock_src_def mock_ops_def)
next
  case (8 s L ds b mx)
  then have "mp_capacity (ms_pool s) \<le> mp_in_use (ms_pool s)" "ms_pending s \<noteq> []"
    by (simp_all add: mock_src_def mock_ops_def mock_pool_inv_def word_le_nat_alt)
  moreover have "0 < unat (min mx (batch_spare b))" using 8(5) by (simp add: word_less_nat_alt)
  ultimately show ?case
    by (simp add: mock_ops_def mock_recv_burst_def)
       (subst mock_recv_loop.simps, simp add: mock_acquire_refused split: list.split)
next
  case (9 s L ds b n mx)
  let ?cap = "unat (min mx (batch_spare b))"
  have "?cap = min (unat mx) (unat (batch_spare b))" by (simp add: min_def word_le_nat_alt)
  with 9 have "mock_pool_inv (ms_pool s) L" "?cap - 0 \<le> unat (batch_spare b)"
    "0 < (0 :: nat) \<or> size L < unat (mp_capacity (ms_pool s))"
    "n = min (?cap - 0) (min (unat (mp_capacity (ms_pool s)) - size L) (length (ms_pending s)))"
    by (simp_all add: mock_src_def mock_ops_def)
  from mock_loop_takes [OF this(1) 9(2) this(2-4)] obtain s' fs where
    r: "mock_recv_loop ?cap 0 s b = (Ok n, s', b\<lparr>frames := frames b @ fs\<rparr>)"
    "map mf_bytes fs = take n (ms_pending s)" "mock_pool_inv (ms_pool s') (L + replicate_mset n ())"
    "ms_pending s' = drop n (ms_pending s)" "mp_capacity (ms_pool s') = mp_capacity (ms_pool s)" by auto
  have "length fs = length (take n (ms_pending s))" using arg_cong [OF r(2), of length] by simp
  then have len: "length fs = n" using 9(1,4) by (simp add: mock_src_def)
  then have slots: "mset (map (\<lambda>f. ()) fs) = replicate_mset n ()"
    by (simp add: map_replicate_const)
  have pay: "map (\<lambda>f. Some (mf_bytes f)) fs = map Some (take n ds)"
  proof -
    have "map (\<lambda>f. Some (mf_bytes f)) fs = map Some (map mf_bytes fs)" by simp
    also have "\<dots> = map Some (take n ds)" unfolding r(2) using 9(1) by (simp only: mock_src_def)
    finally show ?thesis .
  qed
  show ?case
    by (intro exI [of _ s'] exI [of _ fs])
       (use r slots pay 9(1) in \<open>simp add: mock_ops_def mock_recv_burst_def mock_src_def\<close>)
qed

section \<open>Properties\<close>

text \<open>
  The reference source passes its own suite: run on the mock source, the five datagram cases
  are all recorded as passed, in their order, and none as failed.
\<close>

theorem mock_passes_conformance:
  "run_datagram_source mock_ops mock_build =
    Some \<lparr>passed = [''burst_leq_max'', ''single_is_burst_of_one'', ''drains_to_ok_zero'',
      ''pool_reclaim_after_foreign_drop'', ''pool_exhausted_when_empty''], failed = []\<rparr>"
  by (rule mock.passes_suite [where ds = "\<lambda>c. ms_pending (mock_build c)"])
     (simp_all add: mock_src_def mock_build_def mock_pool_inv_def mock_ops_def)

text \<open>
  The slab pool of the backends and the counting pool of the suite cannot be told apart by
  acquiring slabs that fit and dropping them in any order: both grant and refuse the same
  acquires and report the same number in use after each step.
\<close>

theorem slab_pool_is_mock_pool:
  assumes "build_pool c w = Some p" and "list_all (\<lambda>a. case a of Acquire n \<Rightarrow> n \<le> w | DropAt _ \<Rightarrow> True) ops"
  shows "pool_trace acquire_slab drop_slab pool_in_use p [] ops =
    pool_trace mock_acquire mock_release mp_in_use \<lparr>mp_capacity = c, mp_in_use = 0\<rparr> [] ops"
proof -
  have fits: "count_trace (\<lambda>n. n \<le> w) cap held ops = count_trace (\<lambda>n. True) cap held ops" for cap held
    using assms(2) by (induction "\<lambda>n. n \<le> w" cap held ops rule: count_trace.induct) simp_all
  from build_pool_ok [OF assms(1)] vp.trace_refines_count [of p "[]" ops]
  have "pool_trace acquire_slab drop_slab pool_in_use p [] ops = count_trace (\<lambda>n. n \<le> w) (unat c) 0 ops" by simp
  also have "\<dots> = pool_trace mock_acquire mock_release mp_in_use \<lparr>mp_capacity = c, mp_in_use = 0\<rparr> [] ops"
    using mp.trace_refines_count [of "\<lparr>mp_capacity = c, mp_in_use = 0\<rparr>" "[]" ops]
    by (simp add: mock_pool_inv_def fits)
  finally show ?thesis .
qed

theorem slab_pool_is_mock_pool_witness:
  "pool_trace acquire_slab drop_slab pool_in_use sample_pool [] [Acquire 4, Acquire 1, Acquire 1, DropAt 0, Acquire 2] =
    pool_trace mock_acquire mock_release mp_in_use \<lparr>mp_capacity = 2, mp_in_use = 0\<rparr> []
      [Acquire 4, Acquire 1, Acquire 1, DropAt 0, Acquire 2]"
  by (rule slab_pool_is_mock_pool [OF build_sample]) simp

section \<open>The example of the documentation\<close>

text \<open>
  The compiled example under \<open>DatagramSource\<close> in \<open>core/src/transport.rs\<close>: a source without a
  pool whose frames own their bytes. It takes from the end of its queue, and it looks at \<open>max\<close>
  only: unlike the backends it fills the batch past \<open>spare\<close>, so that the batch reallocates.
\<close>

datatype doc_frame = DocFrame (doc_payload: bytes)

record doc_source =
  ds_pending :: "bytes list"

function doc_recv_loop :: "nat \<Rightarrow> nat \<Rightarrow> doc_source \<Rightarrow> doc_frame frame_batch \<Rightarrow> nat \<times> doc_source \<times> doc_frame frame_batch" where
  "doc_recv_loop mx n s out =
     (if \<not> n < mx then (n, s, out)
      else case vec_pop (ds_pending s) of
        Some (d, rest) \<Rightarrow> doc_recv_loop mx (Suc n) (s\<lparr>ds_pending := rest\<rparr>) (batch_push (DocFrame d) out)
      | None \<Rightarrow> (n, s, out))"
  by pat_completeness auto
termination by (relation "measure (\<lambda>(mx, n, s, out). mx - n)") auto

declare doc_recv_loop.simps [simp del]

definition doc_recv_burst ::
  "doc_source \<Rightarrow> doc_frame frame_batch \<Rightarrow> usize \<Rightarrow> (usize, transport_error) result \<times> doc_source \<times> doc_frame frame_batch"
where
  "doc_recv_burst s out mx =
     (case doc_recv_loop (unat mx) 0 s out of (n, s', out') \<Rightarrow> (Ok (word_of_nat n), s', out'))"

lemma frames_push [simp]: "frames (batch_push f b) = frames b @ [f]"
  by (simp add: batch_push_def vec_push_def)

lemma doc_recv_loop_takes:
  "doc_recv_loop mx n s out = (n', s', out') \<Longrightarrow> n \<le> mx \<Longrightarrow>
     n' = n + min (mx - n) (length (ds_pending s))
     \<and> map doc_payload (frames out') = map doc_payload (frames out) @ take (n' - n) (rev (ds_pending s))
     \<and> ds_pending s' = take (length (ds_pending s) - (n' - n)) (ds_pending s)"
proof (induction mx n s out rule: doc_recv_loop.induct)
  case (1 mx n s out)
  show ?case
  proof (cases "n < mx \<and> ds_pending s \<noteq> []")
    case True
    then obtain ds d where q: "ds_pending s = ds @ [d]" by (meson rev_exhaust)
    with True 1(2) have r: "doc_recv_loop mx (Suc n) (s\<lparr>ds_pending := ds\<rparr>) (batch_push (DocFrame d) out) = (n', s', out')"
      by (subst (asm) doc_recv_loop.simps) (simp add: vec_pop_def)
    have pop: "vec_pop (ds_pending s) = Some (d, ds)" by (simp add: q vec_pop_Some)
    have lt: "\<not> \<not> n < mx" "Suc n \<le> mx" using True by simp_all
    from 1(1) [OF lt(1) pop refl r lt(2)] have ih:
      "n' = Suc n + min (mx - Suc n) (length ds)"
      "map doc_payload (frames out') = (map doc_payload (frames out) @ [d]) @ take (n' - Suc n) (rev ds)"
      "ds_pending s' = take (length ds - (n' - Suc n)) ds" by simp_all
    have "mx - n = Suc (mx - Suc n)" using True by linarith
    then have n: "n' - n = Suc (n' - Suc n)" "min (mx - n) (Suc (length ds)) = Suc (min (mx - Suc n) (length ds))"
      using ih(1) by simp_all
    show ?thesis unfolding q n(1) using ih n(2) by simp
  next
    case False
    with 1(2,3) show ?thesis by (subst (asm) doc_recv_loop.simps) (auto simp: vec_pop_def split: if_splits)
  qed
qed

text \<open>
  A burst of the example takes the newest datagrams, the last one first, and asked for more than
  the batch has room for it makes the batch grow.
\<close>

lemma doc_burst_takes_newest:
  assumes "doc_recv_burst s out mx = (r, s', out')"
  shows "map doc_payload (frames out') = map doc_payload (frames out) @ take (unat mx) (rev (ds_pending s))"
proof -
  obtain n where l: "doc_recv_loop (unat mx) 0 s out = (n, s', out')"
    using assms by (auto simp: doc_recv_burst_def split: prod.splits)
  from doc_recv_loop_takes [OF l] show ?thesis by (simp add: min_def)
qed

lemma doc_burst_grows_batch:
  "batch_cap (snd (snd (doc_recv_burst \<lparr>ds_pending = [[1], [2]]\<rparr> (batch_with_capacity 1) 2))) = 4"
  by (simp add: doc_recv_burst_def doc_recv_loop.simps vec_pop_def batch_push_def vec_push_def grown_cap_def)

end
