(* ===== verification/Mock_Peer.thy ===== *)
theory Mock_Peer imports Net_Types "HOL-Library.Sublist" begin

text \<open>
  The scripted network peer the backends are tested against
  (\<open>crates/core/src/testing/mock_peer.rs\<close>): the MoldUDP and SoupBinTCP encoders, and the two
  interpreters that play a script over a UDP socket or an accepted TCP stream. The sockets, the
  timer and the random numbers are a record of functions on an opaque world \<open>'k\<close>; \<open>'f\<close> stands
  for \<open>f32\<close>, of which only two comparisons are used. \<open>None\<close> is an await that never completes.
\<close>

section \<open>Encoders\<close>

text \<open>\<open>to_be_bytes\<close>: the \<open>k\<close> bytes of \<open>n\<close>, the most significant one first, and back.\<close>

primrec be_bytes :: "nat \<Rightarrow> nat \<Rightarrow> bytes" where
  "be_bytes 0 n = []"
| "be_bytes (Suc k) n = be_bytes k (n div 256) @ [word_of_nat n]"

definition be_value :: "bytes \<Rightarrow> nat" where
  "be_value bs = foldl (\<lambda>acc b. acc * 256 + unat b) 0 bs"

definition MOCK_SESSION :: bytes where
  "MOCK_SESSION = map (\<lambda>c. word_of_nat (of_char c)) ''MOCKPEER01''"

definition encode_mold_data :: "u64 \<Rightarrow> bytes \<Rightarrow> bytes" where
  "encode_mold_data seq payload =
     MOCK_SESSION @ be_bytes 8 (unat seq) @ be_bytes 2 (unat (1 :: u16))
       @ be_bytes 2 (unat (word_of_nat (length payload) :: u16)) @ payload"

definition encode_mold_heartbeat :: bytes where
  "encode_mold_heartbeat = MOCK_SESSION @ be_bytes 8 (unat (0 :: u64)) @ be_bytes 2 (unat (0 :: u16))"

definition encode_soup :: "u8 \<Rightarrow> bytes \<Rightarrow> bytes" where
  "encode_soup ty payload =
     (let len = 1 + length payload in be_bytes 2 (unat (word_of_nat len :: u16)) @ [ty] @ payload)"

lemma be_bytes_length [simp]: "length (be_bytes k n) = k"
  by (induction k arbitrary: n) auto

lemma be_bytes_2: "be_bytes 2 n = [word_of_nat (n div 256), word_of_nat n]"
  by (simp add: numeral_2_eq_2)

lemma be_value_bytes: "be_value (be_bytes k n) = n mod 256 ^ k"
proof (induction k arbitrary: n)
  case 0
  then show ?case by (simp add: be_value_def)
next
  case (Suc k)
  have "be_value (be_bytes (Suc k) n) = be_value (be_bytes k (n div 256)) * 256 + n mod 256"
    by (simp add: be_value_def unat_of_nat)
  also have "\<dots> = n mod 256 ^ Suc k" by (simp add: Suc.IH mod_mult2_eq mult.commute)
  finally show ?case .
qed

lemma session_length [simp]: "length MOCK_SESSION = 10"
  by (simp add: MOCK_SESSION_def)

section \<open>The peer\<close>

record mock_run_report =
  actions_completed :: usize
  bytes_sent :: u64
  bytes_dropped_synthetic :: u64

definition mock_run_report_default :: mock_run_report where
  "mock_run_report_default = \<lparr>actions_completed = 0, bytes_sent = 0, bytes_dropped_synthetic = 0\<rparr>"

datatype mock_kind = UdpPeer socket_addr | TcpPeer socket_addr

datatype mock_action =
    SendMoldPacket u64 bytes
  | SendMoldHeartbeat
  | SendSoupPacket u8 bytes
  | ExpectClientBytes bytes
  | SleepFor nat

datatype mock_peer_error =
    PeerBind io_error
  | PeerIo io_error
  | MissingUdpTarget
  | TcpExpectShort
  | ExpectMismatch bytes bytes

type_synonym ('k, 'a) waiting = "'k \<Rightarrow> (('a, io_error) result \<times> 'k) option"

record ('f, 'k) peer_net =
  np_udp_bind :: "socket_addr \<Rightarrow> ('k, nat) waiting"
  np_recv_from :: "nat \<Rightarrow> nat \<Rightarrow> ('k, bytes \<times> socket_addr) waiting"
  np_send_to :: "nat \<Rightarrow> bytes \<Rightarrow> socket_addr \<Rightarrow> ('k, usize) waiting"
  np_listen :: "socket_addr \<Rightarrow> ('k, nat) waiting"
  np_accept :: "nat \<Rightarrow> ('k, nat \<times> socket_addr) waiting"
  np_read_exact :: "nat \<Rightarrow> nat \<Rightarrow> ('k, bytes) waiting"
  np_write_all :: "nat \<Rightarrow> bytes \<Rightarrow> ('k, unit) waiting"
  np_sleep :: "nat \<Rightarrow> 'k \<Rightarrow> 'k"
  np_random_u64 :: "u64 \<Rightarrow> u64 \<Rightarrow> 'k \<Rightarrow> u64 \<times> 'k"
  np_positive :: "'f \<Rightarrow> bool"
  np_random_below :: "'f \<Rightarrow> 'k \<Rightarrow> bool \<times> 'k"

record 'f mock_peer =
  mp_kind :: mock_kind
  mp_script :: "mock_action list"
  mp_drop_rate :: 'f
  mp_jitter :: "u64 \<times> u64"
  mp_target :: "socket_addr option"

text \<open>\<open>MockPeer::new\<close>, with the \<open>f32\<close> zero as an argument, and \<open>with_script\<close>.\<close>

definition mock_peer_new :: "'f \<Rightarrow> mock_kind \<Rightarrow> socket_addr option \<Rightarrow> 'f mock_peer" where
  "mock_peer_new zero kind target =
     \<lparr>mp_kind = kind, mp_script = [], mp_drop_rate = zero, mp_jitter = (0, 0), mp_target = target\<rparr>"

definition with_script :: "'f mock_peer \<Rightarrow> mock_action list \<Rightarrow> 'f mock_peer" where
  "with_script peer script = peer\<lparr>mp_script := script\<rparr>"

definition maybe_jitter :: "('f, 'k) peer_net \<Rightarrow> u64 \<times> u64 \<Rightarrow> 'k \<Rightarrow> nat option \<times> 'k" where
  "maybe_jitter net jitter k =
     (if snd jitter \<le> fst jitter then (None, k)
      else case np_random_u64 net (fst jitter) (snd jitter) k of (ms, k') \<Rightarrow> (Some (unat ms), k'))"

definition should_drop :: "('f, 'k) peer_net \<Rightarrow> 'f \<Rightarrow> 'k \<Rightarrow> bool \<times> 'k" where
  "should_drop net rate k = (if np_positive net rate then np_random_below net rate k else (False, k))"

text \<open>What both sends do before they write: wait for the jitter, then draw whether to drop.\<close>

definition jitter_and_draw :: "('f, 'k) peer_net \<Rightarrow> 'f \<Rightarrow> u64 \<times> u64 \<Rightarrow> 'k \<Rightarrow> bool \<times> 'k" where
  "jitter_and_draw net rate jitter k =
     (case maybe_jitter net jitter k of
        (None, k') \<Rightarrow> should_drop net rate k'
      | (Some ms, k') \<Rightarrow> should_drop net rate (np_sleep net ms k'))"

definition send_udp ::
  "('f, 'k) peer_net \<Rightarrow> nat \<Rightarrow> bytes \<Rightarrow> mock_run_report \<Rightarrow> 'f \<Rightarrow> u64 \<times> u64 \<Rightarrow> socket_addr option \<Rightarrow> 'k
     \<Rightarrow> ((mock_run_report, mock_peer_error) result \<times> 'k) option"
where
  "send_udp net sock bs report rate jitter target k =
     (case jitter_and_draw net rate jitter k of
        (True, k') \<Rightarrow>
          Some (Ok (report\<lparr>bytes_dropped_synthetic := bytes_dropped_synthetic report + word_of_nat (length bs)\<rparr>), k')
      | (False, k') \<Rightarrow>
          (case target of
             None \<Rightarrow> Some (Err MissingUdpTarget, k')
           | Some a \<Rightarrow>
               map_option (\<lambda>(r, k''). (case r of
                     Ok n \<Rightarrow> Ok (report\<lparr>bytes_sent := bytes_sent report + n\<rparr>)
                   | Err e \<Rightarrow> Err (PeerIo e), k'')) (np_send_to net sock bs a k')))"

definition send_tcp ::
  "('f, 'k) peer_net \<Rightarrow> nat \<Rightarrow> bytes \<Rightarrow> mock_run_report \<Rightarrow> 'f \<Rightarrow> u64 \<times> u64 \<Rightarrow> 'k
     \<Rightarrow> ((mock_run_report, mock_peer_error) result \<times> 'k) option"
where
  "send_tcp net stream bs report rate jitter k =
     (case jitter_and_draw net rate jitter k of
        (True, k') \<Rightarrow>
          Some (Ok (report\<lparr>bytes_dropped_synthetic := bytes_dropped_synthetic report + word_of_nat (length bs)\<rparr>), k')
      | (False, k') \<Rightarrow>
          map_option (\<lambda>(r, k''). (case r of
                Ok _ \<Rightarrow> Ok (report\<lparr>bytes_sent := bytes_sent report + word_of_nat (length bs)\<rparr>)
              | Err e \<Rightarrow> Err (PeerIo e), k'')) (np_write_all net stream bs k'))"

definition expect_udp ::
  "('f, 'k) peer_net \<Rightarrow> nat \<Rightarrow> bytes \<Rightarrow> mock_run_report \<Rightarrow> 'k
     \<Rightarrow> ((mock_run_report, mock_peer_error) result \<times> 'k) option"
where
  "expect_udp net sock expected report k =
     map_option (\<lambda>(r, k'). (case r of
           Ok (got, _) \<Rightarrow> if got \<noteq> expected then Err (ExpectMismatch expected got) else Ok report
         | Err e \<Rightarrow> Err (PeerIo e), k')) (np_recv_from net sock (64 * 1024) k)"

definition expect_tcp ::
  "('f, 'k) peer_net \<Rightarrow> nat \<Rightarrow> bytes \<Rightarrow> mock_run_report \<Rightarrow> 'k
     \<Rightarrow> ((mock_run_report, mock_peer_error) result \<times> 'k) option"
where
  "expect_tcp net stream expected report k =
     map_option (\<lambda>(r, k'). (case r of
           Ok got \<Rightarrow> if got \<noteq> expected then Err (ExpectMismatch expected got) else Ok report
         | Err e \<Rightarrow> Err TcpExpectShort, k')) (np_read_exact net stream (length expected) k)"

text \<open>
  One action, and the loop over the script, the same in \<open>run_udp\<close> and \<open>run_tcp\<close> up to the send
  and the expect: an error ends the run and loses the report.
\<close>

type_synonym 'k step_fun =
  "bytes \<Rightarrow> mock_run_report \<Rightarrow> 'k \<Rightarrow> ((mock_run_report, mock_peer_error) result \<times> 'k) option"

definition perform ::
  "('f, 'k) peer_net \<Rightarrow> 'k step_fun \<Rightarrow> 'k step_fun \<Rightarrow> mock_action \<Rightarrow> mock_run_report \<Rightarrow> 'k
     \<Rightarrow> ((mock_run_report, mock_peer_error) result \<times> 'k) option"
where
  "perform net snd_fn expect a report k =
     (case a of
        SendMoldPacket seq payload \<Rightarrow> snd_fn (encode_mold_data seq payload) report k
      | SendMoldHeartbeat \<Rightarrow> snd_fn encode_mold_heartbeat report k
      | SendSoupPacket ty payload \<Rightarrow> snd_fn (encode_soup ty payload) report k
      | ExpectClientBytes expected \<Rightarrow> expect expected report k
      | SleepFor d \<Rightarrow> Some (Ok report, np_sleep net d k))"

fun play ::
  "('f, 'k) peer_net \<Rightarrow> 'k step_fun \<Rightarrow> 'k step_fun \<Rightarrow> mock_action list \<Rightarrow> mock_run_report \<Rightarrow> 'k
     \<Rightarrow> ((mock_run_report, mock_peer_error) result \<times> 'k) option"
where
  "play net snd_fn expect [] report k = Some (Ok report, k)"
| "play net snd_fn expect (a # script) report k =
     (case perform net snd_fn expect a report k of
        None \<Rightarrow> None
      | Some (Err e, k') \<Rightarrow> Some (Err e, k')
      | Some (Ok report', k') \<Rightarrow>
          play net snd_fn expect script (report'\<lparr>actions_completed := actions_completed report' + 1\<rparr>) k')"

definition run_udp ::
  "('f, 'k) peer_net \<Rightarrow> socket_addr \<Rightarrow> mock_action list \<Rightarrow> 'f \<Rightarrow> u64 \<times> u64 \<Rightarrow> socket_addr option \<Rightarrow> 'k
     \<Rightarrow> ((mock_run_report, mock_peer_error) result \<times> 'k) option"
where
  "run_udp net bind script rate jitter target k =
     (case np_udp_bind net bind k of
        None \<Rightarrow> None
      | Some (Err e, k') \<Rightarrow> Some (Err (PeerBind e), k')
      | Some (Ok sock, k') \<Rightarrow>
          play net (\<lambda>bs report. send_udp net sock bs report rate jitter target) (expect_udp net sock)
            script mock_run_report_default k')"

definition run_tcp ::
  "('f, 'k) peer_net \<Rightarrow> socket_addr \<Rightarrow> mock_action list \<Rightarrow> 'f \<Rightarrow> u64 \<times> u64 \<Rightarrow> 'k
     \<Rightarrow> ((mock_run_report, mock_peer_error) result \<times> 'k) option"
where
  "run_tcp net bind script rate jitter k =
     (case np_listen net bind k of
        None \<Rightarrow> None
      | Some (Err e, k') \<Rightarrow> Some (Err (PeerBind e), k')
      | Some (Ok listener, k') \<Rightarrow>
          (case np_accept net listener k' of
             None \<Rightarrow> None
           | Some (Err e, k'') \<Rightarrow> Some (Err (PeerIo e), k'')
           | Some (Ok (stream, _), k'') \<Rightarrow>
               play net (\<lambda>bs report. send_tcp net stream bs report rate jitter) (expect_tcp net stream)
                 script mock_run_report_default k''))"

definition mock_peer_run ::
  "('f, 'k) peer_net \<Rightarrow> 'f mock_peer \<Rightarrow> 'k \<Rightarrow> ((mock_run_report, mock_peer_error) result \<times> 'k) option"
where
  "mock_peer_run net peer k =
     (case mp_kind peer of
        UdpPeer bind \<Rightarrow> run_udp net bind (mp_script peer) (mp_drop_rate peer) (mp_jitter peer) (mp_target peer) k
      | TcpPeer bind \<Rightarrow> run_tcp net bind (mp_script peer) (mp_drop_rate peer) (mp_jitter peer) k)"

section \<open>What the encoders put on the wire\<close>

text \<open>
  Readers of the two framings, as their specifications lay them out: a MoldUDP packet is a
  session, a sequence number, a message count and the messages, each behind its 16-bit length;
  a SoupBinTCP packet is a 16-bit length, a type byte and the payload. Left-over bytes are an error.
\<close>

fun mold_messages :: "nat \<Rightarrow> bytes \<Rightarrow> bytes list option" where
  "mold_messages 0 bs = (if bs = [] then Some [] else None)"
| "mold_messages (Suc n) bs =
     (let len = be_value (take 2 bs); rest = drop 2 bs in
      if length bs < 2 \<or> length rest < len then None
      else map_option (\<lambda>ms. take len rest # ms) (mold_messages n (drop len rest)))"

definition decode_mold :: "bytes \<Rightarrow> (nat \<times> bytes list) option" where
  "decode_mold bs =
     (if length bs < 20 \<or> take 10 bs \<noteq> MOCK_SESSION then None
      else map_option (\<lambda>ms. (be_value (take 8 (drop 10 bs)), ms))
             (mold_messages (be_value (take 2 (drop 18 bs))) (drop 20 bs)))"

definition decode_soup :: "bytes \<Rightarrow> (u8 \<times> bytes) option" where
  "decode_soup bs =
     (case drop 2 bs of
        [] \<Rightarrow> None
      | ty # payload \<Rightarrow> (if be_value (take 2 bs) = length (drop 2 bs) then Some (ty, payload) else None))"

lemma be_value_u64: "be_value (be_bytes 8 (unat (w :: u64))) = unat w"
  using unat_usize_less [of w] by (simp add: be_value_bytes)

lemma be_value_u16: "be_value (be_bytes 2 (unat (word_of_nat n :: u16))) = n mod 65536"
  by (simp add: be_value_bytes unat_of_nat)

lemma decode_mold_data:
  "decode_mold (encode_mold_data seq payload) =
     (if length payload < 65536 then Some (unat seq, [payload]) else None)"
proof -
  have one: "be_value (be_bytes 2 (Suc 0)) = Suc 0" by (simp add: be_value_bytes)
  have len: "length payload = length payload mod 65536 \<longleftrightarrow> length payload < 65536"
    by (metis mod_less mod_less_divisor zero_less_numeral)
  have "length payload mod 65536 \<le> length payload" by simp
  with len show ?thesis
    by (simp add: decode_mold_def encode_mold_data_def be_value_u64 be_value_u16 one Let_def del: be_bytes.simps)
qed

lemma decode_mold_heartbeat: "decode_mold encode_mold_heartbeat = Some (0, [])"
proof -
  have "be_value (be_bytes 2 0) = 0" "be_value (be_bytes 8 0) = 0" by (simp_all add: be_value_bytes)
  then show ?thesis by (simp add: decode_mold_def encode_mold_heartbeat_def del: be_bytes.simps)
qed

lemma decode_soup_packet:
  "decode_soup (encode_soup ty payload) = (if length payload < 65535 then Some (ty, payload) else None)"
proof -
  have mod: "m mod 65536 = m \<longleftrightarrow> m < 65536" for m :: nat
    by (metis mod_less mod_less_divisor zero_less_numeral)
  have len: "Suc (length payload) mod 65536 = Suc (length payload) \<longleftrightarrow> length payload < 65535"
    unfolding mod by linarith
  show ?thesis using be_value_u16 [of "Suc (length payload)"]
    by (simp add: decode_soup_def encode_soup_def Let_def len del: be_bytes.simps of_nat_Suc)
qed

section \<open>Running a script\<close>

definition action_wire :: "mock_action \<Rightarrow> bytes" where
  "action_wire a = (case a of
     SendMoldPacket seq payload \<Rightarrow> encode_mold_data seq payload
   | SendMoldHeartbeat \<Rightarrow> encode_mold_heartbeat
   | SendSoupPacket ty payload \<Rightarrow> encode_soup ty payload
   | _ \<Rightarrow> [])"

definition accounted :: "mock_run_report \<Rightarrow> u64" where
  "accounted r = bytes_sent r + bytes_dropped_synthetic r"

lemma send_result_Ok:
  "(case r of Ok n \<Rightarrow> f n | Err e \<Rightarrow> Err (g e)) = Ok y \<longleftrightarrow> (\<exists>n. r = Ok n \<and> f n = Ok y)"
  by (cases r) auto

lemma send_udp_accounts:
  assumes "\<And>d a k n k'. np_send_to net s d a k = Some (Ok n, k') \<Longrightarrow> n = word_of_nat (length d)"
    and "send_udp net s bs r rate jitter target k = Some (Ok r', k')"
  shows "accounted r' = accounted r + word_of_nat (length bs) \<and> actions_completed r' = actions_completed r"
  using assms(2)
  by (auto simp: send_udp_def accounted_def send_result_Ok split: prod.splits bool.splits option.splits dest: assms(1))

lemma send_tcp_accounts:
  assumes "send_tcp net s bs r rate jitter k = Some (Ok r', k')"
  shows "accounted r' = accounted r + word_of_nat (length bs) \<and> actions_completed r' = actions_completed r"
  using assms by (auto simp: send_tcp_def accounted_def send_result_Ok split: prod.splits bool.splits)

lemma expect_keeps_report:
  "expect_udp net s bs r k = Some (Ok r', k') \<Longrightarrow> r' = r"
  "expect_tcp net s bs r k = Some (Ok r', k') \<Longrightarrow> r' = r"
  by (auto simp: expect_udp_def expect_tcp_def send_result_Ok split: prod.splits if_splits)

lemma play_accounts:
  assumes snd: "\<And>bs r k r' k'. snd_fn bs r k = Some (Ok r', k') \<Longrightarrow>
      accounted r' = accounted r + word_of_nat (length bs) \<and> actions_completed r' = actions_completed r"
    and exp: "\<And>bs r k r' k'. expect bs r k = Some (Ok r', k') \<Longrightarrow> r' = r"
    and run: "play net snd_fn expect script r k = Some (Ok r', k')"
  shows "accounted r' = accounted r + word_of_nat (\<Sum>a\<leftarrow>script. length (action_wire a))
    \<and> actions_completed r' = actions_completed r + word_of_nat (length script)"
  using run
proof (induction script arbitrary: r k)
  case Nil
  then show ?case by simp
next
  case (Cons a script)
  from Cons.prems obtain r1 k1 where
    did: "perform net snd_fn expect a r k = Some (Ok r1, k1)"
    and rest: "play net snd_fn expect script (r1\<lparr>actions_completed := actions_completed r1 + 1\<rparr>) k1 = Some (Ok r', k')"
    by (auto split: option.splits prod.splits result.splits)
  from did have step: "accounted r1 = accounted r + word_of_nat (length (action_wire a))
      \<and> actions_completed r1 = actions_completed r"
    by (cases a) (auto simp: perform_def action_wire_def dest: snd exp)
  have "accounted (r1\<lparr>actions_completed := actions_completed r1 + 1\<rparr>) = accounted r1" by (simp add: accounted_def)
  with Cons.IH [OF rest] step show ?case by (simp add: algebra_simps)
qed

text \<open>
  The packets of a script, and what a run puts into a log of what was sent: those packets in
  order, some of them left out when the sends may drop. \<open>enc\<close> is how one packet shows in the log.
\<close>

definition action_packets :: "mock_action \<Rightarrow> bytes list" where
  "action_packets a = (case a of
     SendMoldPacket seq payload \<Rightarrow> [encode_mold_data seq payload]
   | SendMoldHeartbeat \<Rightarrow> [encode_mold_heartbeat]
   | SendSoupPacket ty payload \<Rightarrow> [encode_soup ty payload]
   | _ \<Rightarrow> [])"

definition script_packets :: "mock_action list \<Rightarrow> bytes list" where
  "script_packets script = concat (map action_packets script)"

lemma script_packets_simps [simp]:
  "script_packets [] = []" "script_packets (a # script) = action_packets a @ script_packets script"
  by (simp_all add: script_packets_def)

lemma play_emits:
  assumes snd: "\<And>bs r k r' k'. snd_fn bs r k = Some (Ok r', k') \<Longrightarrow>
      log k' = log k @ enc bs \<or> lossy \<and> log k' = log k"
    and exp: "\<And>bs r k r' k'. expect bs r k = Some (Ok r', k') \<Longrightarrow> log k' = log k"
    and slp: "\<And>d k. log (np_sleep net d k) = log k"
    and run: "play net snd_fn expect script r k = Some (Ok r', k')"
  obtains ds where "subseq ds (script_packets script)" "\<not> lossy \<longrightarrow> ds = script_packets script"
    "log k' = log k @ concat (map enc ds)"
proof -
  have "\<exists>ds. subseq ds (script_packets script) \<and> (\<not> lossy \<longrightarrow> ds = script_packets script)
    \<and> log k' = log k @ concat (map enc ds)"
    using run
  proof (induction script arbitrary: r k)
    case Nil
    then show ?case by (intro exI [of _ "[]"]) simp
  next
    case (Cons a script)
    from Cons.prems obtain r1 k1 where
      did: "perform net snd_fn expect a r k = Some (Ok r1, k1)"
      and rest: "play net snd_fn expect script (r1\<lparr>actions_completed := actions_completed r1 + 1\<rparr>) k1 = Some (Ok r', k')"
      by (auto split: option.splits prod.splits result.splits)
    from Cons.IH [OF rest] obtain ds where ds: "subseq ds (script_packets script)"
      "\<not> lossy \<longrightarrow> ds = script_packets script" "log k' = log k1 @ concat (map enc ds)" by blast
    from did have "log k1 = log k @ concat (map enc (action_packets a)) \<or> lossy \<and> log k1 = log k"
      by (cases a) (auto simp: perform_def action_packets_def slp dest: snd exp)
    then show ?case
    proof
      assume "log k1 = log k @ concat (map enc (action_packets a))"
      with ds show ?thesis by (intro exI [of _ "action_packets a @ ds"]) (simp add: subseq_append')
    next
      assume "lossy \<and> log k1 = log k"
      with ds show ?thesis by (intro exI [of _ ds]) (simp add: subseq_drop_many)
    qed
  qed
  with that show ?thesis by blast
qed

text \<open>
  The documented behaviour of the calls of a peer: nothing but a send enters the log. A
  successful \<open>write_all\<close> appends all its bytes to the stream, a successful \<open>send_to\<close> is one
  datagram.
\<close>

definition only_sends_log :: "('f, 'k) peer_net \<Rightarrow> ('k \<Rightarrow> 'x list) \<Rightarrow> bool" where
  "only_sends_log net log \<longleftrightarrow>
     (\<forall>s n k r k'. np_read_exact net s n k = Some (r, k') \<longrightarrow> log k' = log k)
   \<and> (\<forall>s n k r k'. np_recv_from net s n k = Some (r, k') \<longrightarrow> log k' = log k)
   \<and> (\<forall>a k r k'. np_udp_bind net a k = Some (r, k') \<longrightarrow> log k' = log k)
   \<and> (\<forall>a k r k'. np_listen net a k = Some (r, k') \<longrightarrow> log k' = log k)
   \<and> (\<forall>l k r k'. np_accept net l k = Some (r, k') \<longrightarrow> log k' = log k)
   \<and> (\<forall>d k. log (np_sleep net d k) = log k)
   \<and> (\<forall>a b k n k'. np_random_u64 net a b k = (n, k') \<longrightarrow> log k' = log k)
   \<and> (\<forall>x k b k'. np_random_below net x k = (b, k') \<longrightarrow> log k' = log k)"

definition stream_net :: "('f, 'k) peer_net \<Rightarrow> ('k \<Rightarrow> bytes) \<Rightarrow> bool" where
  "stream_net net wrote \<longleftrightarrow> only_sends_log net wrote
     \<and> (\<forall>s d k r k'. np_write_all net s d k = Some (Ok r, k') \<longrightarrow> wrote k' = wrote k @ d)"

definition datagram_net :: "('f, 'k) peer_net \<Rightarrow> ('k \<Rightarrow> bytes list) \<Rightarrow> bool" where
  "datagram_net net sent \<longleftrightarrow> only_sends_log net sent
     \<and> (\<forall>s d a k n k'. np_send_to net s d a k = Some (Ok n, k') \<longrightarrow> sent k' = sent k @ [d])"

lemma only_sends_logD:
  assumes "only_sends_log net log"
  shows "np_read_exact net s n k = Some (r1, k') \<Longrightarrow> log k' = log k"
    and "np_recv_from net s n k = Some (r2, k') \<Longrightarrow> log k' = log k"
    and "np_udp_bind net a k = Some (r3, k') \<Longrightarrow> log k' = log k"
    and "np_listen net a k = Some (r4, k') \<Longrightarrow> log k' = log k"
    and "np_accept net l k = Some (r5, k') \<Longrightarrow> log k' = log k"
    and "log (np_sleep net n k) = log k"
    and "np_random_u64 net lo hi k = (ms, k') \<Longrightarrow> log k' = log k"
    and "np_random_below net x k = (b, k') \<Longrightarrow> log k' = log k"
  using assms unfolding only_sends_log_def by metis+

lemma draw_logs_nothing:
  assumes "only_sends_log net log" and "jitter_and_draw net rate jitter k = (b, k')"
  shows "log k' = log k \<and> (b \<longrightarrow> np_positive net rate)"
  using assms(2) only_sends_logD(6-8) [OF assms(1)]
  by (auto simp: jitter_and_draw_def maybe_jitter_def should_drop_def split: if_splits prod.splits)

lemma send_tcp_logs:
  assumes "stream_net net wrote" and "send_tcp net s bs r rate jitter k = Some (Ok r', k')"
  shows "wrote k' = wrote k @ bs \<or> np_positive net rate \<and> wrote k' = wrote k"
proof -
  obtain b k1 where d: "jitter_and_draw net rate jitter k = (b, k1)" by force
  from assms(1) have law: "only_sends_log net wrote" by (simp add: stream_net_def)
  from draw_logs_nothing [OF law d] assms d show ?thesis
    by (auto simp: send_tcp_def stream_net_def send_result_Ok split: bool.splits)
qed

lemma send_udp_logs:
  assumes "datagram_net net sent" and "send_udp net s bs r rate jitter target k = Some (Ok r', k')"
  shows "sent k' = sent k @ [bs] \<or> np_positive net rate \<and> sent k' = sent k"
proof -
  obtain b k1 where d: "jitter_and_draw net rate jitter k = (b, k1)" by force
  from assms(1) have law: "only_sends_log net sent" by (simp add: datagram_net_def)
  from draw_logs_nothing [OF law d] assms d show ?thesis
    by (auto simp: send_udp_def datagram_net_def send_result_Ok split: bool.splits option.splits)
qed

text \<open>A network that keeps what was written and answers every expectation with \<open>[7]\<close>.\<close>

definition sample_net :: "(bool, bytes) peer_net" where
  "sample_net = \<lparr>np_udp_bind = (\<lambda>_ k. Some (Ok 3, k)),
     np_recv_from = (\<lambda>_ _ k. Some (Ok ([7], SocketAddrV4 2130706433 4243), k)),
     np_send_to = (\<lambda>_ d _ k. Some (Ok (word_of_nat (length d)), k @ d)),
     np_listen = (\<lambda>_ k. Some (Ok 4, k)), np_accept = (\<lambda>_ k. Some (Ok (5, SocketAddrV4 2130706433 4243), k)),
     np_read_exact = (\<lambda>_ _ k. Some (Ok [7], k)), np_write_all = (\<lambda>_ d k. Some (Ok (), k @ d)),
     np_sleep = (\<lambda>_ k. k), np_random_u64 = (\<lambda>a _ k. (a, k)), np_positive = (\<lambda>p. p),
     np_random_below = (\<lambda>_ k. (True, k))\<rparr>"

definition sample_peer :: "mock_kind \<Rightarrow> bool \<Rightarrow> bool mock_peer" where
  "sample_peer kind rate = \<lparr>mp_kind = kind,
     mp_script = [SendSoupPacket 83 [1, 2], ExpectClientBytes [7], SleepFor 5, SendSoupPacket 83 []],
     mp_drop_rate = rate, mp_jitter = (0, 0), mp_target = None\<rparr>"

lemma sample_net_stream: "stream_net sample_net (\<lambda>k. k)"
  by (simp add: stream_net_def only_sends_log_def sample_net_def)

section \<open>Properties of a run\<close>

text \<open>
  C39: A run that succeeds has accounted for its script: it completed every action, and the bytes
  it reports as sent and as dropped on purpose add up to the encoded packets of the script,
  whatever the drop rate, the jitter and the kind of peer, where a datagram is sent whole.
\<close>

theorem mock_peer_accounts:
  assumes "\<And>s d a k n k'. np_send_to net s d a k = Some (Ok n, k') \<Longrightarrow> n = word_of_nat (length d)"
    and "mock_peer_run net peer k = Some (Ok report, k')"
  shows "actions_completed report = word_of_nat (length (mp_script peer))
    \<and> bytes_sent report + bytes_dropped_synthetic report
      = word_of_nat (\<Sum>a\<leftarrow>mp_script peer. length (action_wire a))"
proof (cases "mp_kind peer")
  case (UdpPeer bind)
  with assms(2) obtain sock k1 where
    "play net (\<lambda>bs report. send_udp net sock bs report (mp_drop_rate peer) (mp_jitter peer) (mp_target peer))
       (expect_udp net sock) (mp_script peer) mock_run_report_default k1 = Some (Ok report, k')"
    by (auto simp: mock_peer_run_def run_udp_def split: option.splits prod.splits result.splits)
  then have "accounted report = accounted mock_run_report_default
        + word_of_nat (\<Sum>a\<leftarrow>mp_script peer. length (action_wire a))
      \<and> actions_completed report = actions_completed mock_run_report_default + word_of_nat (length (mp_script peer))"
    by (rule play_accounts [rotated 2])
       (rule send_udp_accounts, erule assms(1), assumption, erule expect_keeps_report(1))
  then show ?thesis by (simp add: accounted_def mock_run_report_default_def)
next
  case (TcpPeer bind)
  with assms(2) obtain stream k1 where
    "play net (\<lambda>bs report. send_tcp net stream bs report (mp_drop_rate peer) (mp_jitter peer))
       (expect_tcp net stream) (mp_script peer) mock_run_report_default k1 = Some (Ok report, k')"
    by (auto simp: mock_peer_run_def run_tcp_def split: option.splits prod.splits result.splits)
  then have "accounted report = accounted mock_run_report_default
        + word_of_nat (\<Sum>a\<leftarrow>mp_script peer. length (action_wire a))
      \<and> actions_completed report = actions_completed mock_run_report_default + word_of_nat (length (mp_script peer))"
    by (rule play_accounts [rotated 2]) (erule send_tcp_accounts, erule expect_keeps_report(2))
  then show ?thesis by (simp add: accounted_def mock_run_report_default_def)
qed

theorem mock_peer_accounts_witness:
  "mock_peer_run sample_net (sample_peer (UdpPeer (SocketAddrV4 0 0)) True) [] =
     Some (Ok \<lparr>actions_completed = 4, bytes_sent = 0, bytes_dropped_synthetic = 8\<rparr>, [])
   \<and> (4 :: usize) = word_of_nat (length (mp_script (sample_peer (UdpPeer (SocketAddrV4 0 0)) True)))"
proof -
  have run: "mock_peer_run sample_net (sample_peer (UdpPeer (SocketAddrV4 0 0)) True) [] =
     Some (Ok \<lparr>actions_completed = 4, bytes_sent = 0, bytes_dropped_synthetic = 8\<rparr>, [])"
    by (simp add: mock_peer_run_def sample_peer_def run_udp_def sample_net_def send_udp_def expect_udp_def
        jitter_and_draw_def maybe_jitter_def should_drop_def perform_def mock_run_report_default_def encode_soup_def Let_def)
  from mock_peer_accounts [OF _ this] run show ?thesis by (simp add: sample_net_def)
qed

text \<open>
  A run that succeeds has put exactly the packets of its script on the stream, or sent them as
  datagrams, encoded, in script order, whatever it waited for and read in between; without a
  drop rate all of them, with one some of them, each whole.
\<close>

lemma mock_tcp_delivers_script:
  assumes "stream_net net wrote" and "mp_kind peer = TcpPeer bind" and "mock_peer_run net peer k = Some (Ok report, k')"
  obtains ds where "subseq ds (script_packets (mp_script peer))"
    "\<not> np_positive net (mp_drop_rate peer) \<longrightarrow> ds = script_packets (mp_script peer)"
    "wrote k' = wrote k @ concat ds"
proof -
  from assms(1) have law: "only_sends_log net wrote" by (simp add: stream_net_def)
  from assms(2,3) obtain l stream a k1 k2 where
    net: "np_listen net bind k = Some (Ok l, k1)" "np_accept net l k1 = Some (Ok (stream, a), k2)" and
    run: "play net (\<lambda>bs report. send_tcp net stream bs report (mp_drop_rate peer) (mp_jitter peer))
       (expect_tcp net stream) (mp_script peer) mock_run_report_default k2 = Some (Ok report, k')"
    by (auto simp: mock_peer_run_def run_tcp_def split: option.splits prod.splits result.splits)
  have exp: "wrote k' = wrote k" if "expect_tcp net stream bs r k = Some (Ok r', k')" for bs r k r' k'
    using that only_sends_logD(1) [OF law] by (auto simp: expect_tcp_def)
  have snd: "wrote k' = wrote k @ bs \<or> np_positive net (mp_drop_rate peer) \<and> wrote k' = wrote k"
    if "send_tcp net stream bs r (mp_drop_rate peer) (mp_jitter peer) k = Some (Ok r', k')" for bs r k r' k'
    by (rule send_tcp_logs [OF assms(1) that])
  obtain ds where "subseq ds (script_packets (mp_script peer))"
    "\<not> np_positive net (mp_drop_rate peer) \<longrightarrow> ds = script_packets (mp_script peer)"
    "wrote k' = wrote k2 @ concat (map (\<lambda>d. d) ds)"
    by (rule play_emits [where enc = "\<lambda>d. d" and lossy = "np_positive net (mp_drop_rate peer)",
          OF _ _ only_sends_logD(6) [OF law] run]) (erule snd, erule exp, blast)
  with only_sends_logD(4,5) [OF law] net that show ?thesis by simp
qed

lemma mock_udp_delivers_script:
  assumes "datagram_net net sent" and "mp_kind peer = UdpPeer bind" and "mock_peer_run net peer k = Some (Ok report, k')"
  obtains ds where "subseq ds (script_packets (mp_script peer))"
    "\<not> np_positive net (mp_drop_rate peer) \<longrightarrow> ds = script_packets (mp_script peer)"
    "sent k' = sent k @ ds"
proof -
  from assms(1) have law: "only_sends_log net sent" by (simp add: datagram_net_def)
  from assms(2,3) obtain sock k1 where net: "np_udp_bind net bind k = Some (Ok sock, k1)" and
    run: "play net (\<lambda>bs report. send_udp net sock bs report (mp_drop_rate peer) (mp_jitter peer) (mp_target peer))
       (expect_udp net sock) (mp_script peer) mock_run_report_default k1 = Some (Ok report, k')"
    by (auto simp: mock_peer_run_def run_udp_def split: option.splits prod.splits result.splits)
  have exp: "sent k' = sent k" if "expect_udp net sock bs r k = Some (Ok r', k')" for bs r k r' k'
    using that only_sends_logD(2) [OF law] by (auto simp: expect_udp_def)
  have snd: "sent k' = sent k @ [bs] \<or> np_positive net (mp_drop_rate peer) \<and> sent k' = sent k"
    if "send_udp net sock bs r (mp_drop_rate peer) (mp_jitter peer) (mp_target peer) k = Some (Ok r', k')" for bs r k r' k'
    by (rule send_udp_logs [OF assms(1) that])
  obtain ds where "subseq ds (script_packets (mp_script peer))"
    "\<not> np_positive net (mp_drop_rate peer) \<longrightarrow> ds = script_packets (mp_script peer)"
    "sent k' = sent k1 @ concat (map (\<lambda>d. [d]) ds)"
    by (rule play_emits [where enc = "\<lambda>d. [d]" and lossy = "np_positive net (mp_drop_rate peer)",
          OF _ _ only_sends_logD(6) [OF law] run]) (erule snd, erule exp, blast)
  with only_sends_logD(3) [OF law] net that show ?thesis by simp
qed

end
