(* ===== verification/Concurrent_Recv.thy ===== *)
theory Concurrent_Recv imports Shared_Pool Mio_Udp begin

text \<open>
  \<open>recv_burst\<close> while other threads use the pool. The receiving thread owns the transport, but the
  slabs of the frames it has handed out are dropped, and slabs acquired and written, by others in
  the middle of a burst. Here the loop of \<open>recv_burst\<close> is a machine whose steps are its accesses
  to the shared pool and to the socket; the others' steps are those of \<open>Shared_Pool\<close>, and the two
  interleave in any order.
\<close>

section \<open>The machine\<close>

text \<open>Where the loop stands: at its head, with a slab, refused one, about to drop one, returned.\<close>

datatype burst_pc =
    Head
  | Holding vec_slab
  | NoSlab
  | Releasing vec_slab io_error
  | Finished "(nat \<times> u64, transport_error) result"

record 'k cburst =
  cb_shared :: shared
  cb_pc :: burst_pc
  cb_n :: nat
  cb_tot :: u64
  cb_last :: "socket_addr option"
  cb_out :: "udp_frame frame_batch"
  cb_world :: 'k

abbreviation cb_pool :: "'k cburst \<Rightarrow> vec_pool" where
  "cb_pool s \<equiv> the_pool (cb_shared s)"

definition cb_start :: "shared \<Rightarrow> udp_frame frame_batch \<Rightarrow> socket_addr option \<Rightarrow> 'k \<Rightarrow> 'k cburst" where
  "cb_start sh out lp k = \<lparr>cb_shared = sh, cb_pc = Head, cb_n = 0, cb_tot = 0, cb_last = lp, cb_out = out, cb_world = k\<rparr>"

inductive burst_step :: "'k recv_call \<Rightarrow> nat \<Rightarrow> 'k cburst \<Rightarrow> 'k cburst \<Rightarrow> bool" for rf cap where
  at_cap: "cb_pc s = Head \<Longrightarrow> \<not> cb_n s < cap \<Longrightarrow>
     burst_step rf cap s (s\<lparr>cb_pc := Finished (Ok (cb_n s, cb_tot s))\<rparr>)"
| acquired: "cb_pc s = Head \<Longrightarrow> cb_n s < cap \<Longrightarrow>
     acquire_slab (cb_pool s) (slab_size (cb_pool s)) = (Some slab, p) \<Longrightarrow>
     burst_step rf cap s (s\<lparr>cb_shared := (cb_shared s)\<lparr>the_pool := p\<rparr>, cb_pc := Holding slab\<rparr>)"
| refused: "cb_pc s = Head \<Longrightarrow> cb_n s < cap \<Longrightarrow>
     acquire_slab (cb_pool s) (slab_size (cb_pool s)) = (None, p) \<Longrightarrow>
     burst_step rf cap s (s\<lparr>cb_shared := (cb_shared s)\<lparr>the_pool := p\<rparr>, cb_pc := NoSlab\<rparr>)"
| report_exhausted: "cb_pc s = NoSlab \<Longrightarrow> cb_n s = 0 \<Longrightarrow>
     burst_step rf cap s (s\<lparr>cb_pc := Finished (Err (PoolExhausted (pool_in_use (cb_pool s)) (pool_capacity (cb_pool s))))\<rparr>)"
| stop_short: "cb_pc s = NoSlab \<Longrightarrow> cb_n s \<noteq> 0 \<Longrightarrow>
     burst_step rf cap s (s\<lparr>cb_pc := Finished (Ok (cb_n s, cb_tot s))\<rparr>)"
| landed: "cb_pc s = Holding slab \<Longrightarrow> buf_mut (cb_pool s) slab = Some buf \<Longrightarrow>
     rf (length buf) (cb_world s) = (Ok (d, peer), k') \<Longrightarrow> write_buf (cb_pool s) slab d = Some p \<Longrightarrow>
     burst_step rf cap s (s\<lparr>cb_shared := (cb_shared s)\<lparr>the_pool := p\<rparr>, cb_pc := Head, cb_n := Suc (cb_n s),
       cb_tot := cb_tot s + word_of_nat (length d), cb_last := Some peer,
       cb_out := batch_push \<lparr>uf_slab = set_len slab (word_of_nat (length d)), uf_peer = peer\<rparr> (cb_out s),
       cb_world := k'\<rparr>)"
| failed_recv: "cb_pc s = Holding slab \<Longrightarrow> buf_mut (cb_pool s) slab = Some buf \<Longrightarrow>
     rf (length buf) (cb_world s) = (Err e, k') \<Longrightarrow>
     burst_step rf cap s (s\<lparr>cb_pc := Releasing slab e, cb_world := k'\<rparr>)"
| released: "cb_pc s = Releasing slab e \<Longrightarrow>
     burst_step rf cap s (s\<lparr>cb_shared := (cb_shared s)\<lparr>the_pool := drop_slab slab (cb_pool s)\<rparr>,
       cb_pc := Finished (if err_kind e = WouldBlock then Ok (cb_n s, cb_tot s) else Err (Io e))\<rparr>)"

text \<open>A run of \<open>m\<close> steps of the burst, with any steps of the other threads in between.\<close>

inductive crun :: "'k recv_call \<Rightarrow> nat \<Rightarrow> 'k cburst \<Rightarrow> nat \<Rightarrow> 'k cburst \<Rightarrow> bool" for rf cap s where
  crun_start: "crun rf cap s 0 s"
| crun_own: "crun rf cap s m s1 \<Longrightarrow> burst_step rf cap s1 s2 \<Longrightarrow> crun rf cap s (Suc m) s2"
| crun_other: "crun rf cap s m s1 \<Longrightarrow> shared_step (cb_shared s1) e sh \<Longrightarrow>
     crun rf cap s m (s1\<lparr>cb_shared := sh\<rparr>)"

section \<open>What the others cannot touch\<close>

text \<open>The other threads' steps keep the invariant next to the slots \<open>X\<close> they do not own.\<close>

lemma others_frame:
  assumes "shared_step sh e sh'" and "pool_ok (the_pool sh) (live_slots sh + X)"
  shows "pool_ok (the_pool sh') (live_slots sh' + X)
    \<and> (\<forall>sl. slab_index sl \<in># X \<longrightarrow> slab_as_ref (the_pool sh') sl = slab_as_ref (the_pool sh) sl)"
  using assms
proof (induction rule: shared_step.induct)
  case (step_acquire s n sl p' t)
  from acquire_slab_ok [OF step_acquire(2,1)] acquire_slab_frame [OF step_acquire(1)] show ?case
    by (auto simp: live_slots_def intro!: slab_as_ref_cong)
next
  case (step_refused s n p' t)
  then show ?case by (simp add: live_slots_def acquire_slab_None)
next
  case (step_write i s d p')
  have "live_slots s + X = add_mset (slab_index (snd (live s ! i))) (live_slots s - {#slab_index (snd (live s ! i))#} + X)"
    using step_write(1) by (simp add: live_member)
  with step_write(3) have ok: "pool_ok (the_pool s)
      (add_mset (slab_index (snd (live s ! i))) (live_slots s - {#slab_index (snd (live s ! i))#} + X))" by simp
  have "slab_as_ref p' sl = slab_as_ref (the_pool s) sl" if "slab_index sl \<in># X" for sl
    by (rule write_buf_others [OF ok step_write(2)]) (use that in simp)
  with write_buf_ok [OF step_write(3,2)] show ?case by (simp add: live_slots_def)
next
  case (step_set_len i s n)
  then show ?case by (simp add: live_slots_update set_len_def)
next
  case (step_move i s t)
  then show ?case by (simp add: live_slots_update)
next
  case (step_drop i s)
  from step_drop(1) have "slab_index (snd (live s ! i)) \<in># live_slots s + X"
    by (simp add: live_member)
  from drop_slab_ok [OF step_drop(2) this] live_slots_remove [OF step_drop(1)]
  show ?case by (auto simp: live_slots_def drop_slab_def intro!: slab_as_ref_cong)
qed

text \<open>Reaping one datagram more.\<close>

lemma reap_snoc:
  assumes "reap rf w n k = (ds, None, k1)"
  shows "reap rf w (Suc n) k = (case rf w k1 of
    (Ok x, k2) \<Rightarrow> (ds @ [x], None, k2) | (Err e, k2) \<Rightarrow> (ds, Some e, k2))"
  using assms
proof (induction n arbitrary: k ds)
  case 0
  then show ?case by (simp split: prod.split result.split)
next
  case (Suc n)
  obtain r k' where r: "rf w k = (r, k')" by force
  with Suc.prems obtain x where x: "r = Ok x" by (cases r) auto
  obtain ds' e' k'' where "reap rf w n k' = (ds', e', k'')" by (metis prod_cases3)
  with Suc.prems r x have d: "reap rf w n k' = (ds', None, k1)" "ds = x # ds'" by auto
  have "reap rf w (Suc (Suc n)) k = (case reap rf w (Suc n) k' of (xs, e, k'') \<Rightarrow> (x # xs, e, k''))"
    using r x by simp
  also have "\<dots> = (case rf w k1 of (Ok x, k2) \<Rightarrow> (ds @ [x], None, k2) | (Err e, k2) \<Rightarrow> (ds, Some e, k2))"
    unfolding Suc.IH [OF d(1)] by (simp add: d(2) split: prod.split result.split)
  finally show ?case .
qed

section \<open>The invariant\<close>

text \<open>
  The slots of the burst's own slabs: those of the frames in its batch and the one in its hands.
  \<open>ds\<close> are the datagrams the socket has given so far and \<open>stop\<close> the error that ended it, as
  \<open>reap\<close> yields them.
\<close>

fun held_slots :: "burst_pc \<Rightarrow> u32 multiset" where
  "held_slots (Holding sl) = {#slab_index sl#}"
| "held_slots (Releasing sl e) = {#slab_index sl#}"
| "held_slots _ = {#}"

definition own_slots :: "'k cburst \<Rightarrow> u32 multiset" where
  "own_slots s = mset (map frame_slot (frames (cb_out s))) + held_slots (cb_pc s)"

fun pc_means :: "nat \<Rightarrow> usize \<Rightarrow> nat \<Rightarrow> u64 \<Rightarrow> io_error option \<Rightarrow> burst_pc \<Rightarrow> bool" where
  "pc_means cap c n tot stop Head \<longleftrightarrow> stop = None \<and> n \<le> cap"
| "pc_means cap c n tot stop (Holding sl) \<longleftrightarrow> stop = None \<and> n < cap"
| "pc_means cap c n tot stop NoSlab \<longleftrightarrow> stop = None \<and> n < cap"
| "pc_means cap c n tot stop (Releasing sl e) \<longleftrightarrow> stop = Some e \<and> n < cap"
| "pc_means cap c n tot stop (Finished r) \<longleftrightarrow> n \<le> cap \<and>
     (r = Ok (n, tot) \<and> stop_ok stop
      \<or> (\<exists>e. stop = Some e \<and> err_kind e \<noteq> WouldBlock \<and> r = Err (Io e))
      \<or> (\<exists>i. stop = None \<and> n = 0 \<and> 0 < cap \<and> i \<le> c \<and> r = Err (PoolExhausted i c)))"

text \<open>The receiving call that failed is one more than the datagrams received.\<close>

fun calls_made :: "io_error option \<Rightarrow> nat \<Rightarrow> nat" where
  "calls_made None n = n"
| "calls_made (Some e) n = Suc n"

definition burst_inv ::
  "'k recv_call \<Rightarrow> nat \<Rightarrow> 'k cburst \<Rightarrow> (bytes \<times> socket_addr) list \<Rightarrow> io_error option \<Rightarrow> udp_frame list \<Rightarrow> 'k cburst \<Rightarrow> bool"
where
  "burst_inv rf cap s0 ds stop fs s \<longleftrightarrow>
     pool_ok (cb_pool s) (live_slots (cb_shared s) + own_slots s)
   \<and> slab_size (cb_pool s) = slab_size (cb_pool s0) \<and> pool_capacity (cb_pool s) = pool_capacity (cb_pool s0)
   \<and> batch_ok (cb_out s) \<and> cap - cb_n s \<le> unat (batch_spare (cb_out s))
   \<and> reap rf (unat (slab_size (cb_pool s0))) (calls_made stop (cb_n s)) (cb_world s0) = (ds, stop, cb_world s)
   \<and> length ds = cb_n s \<and> cb_tot s = total_bytes ds \<and> cb_last s = bump_peer (cb_last s0) ds
   \<and> cb_out s = (cb_out s0)\<lparr>frames := frames (cb_out s0) @ fs\<rparr> \<and> frames_hold (cb_pool s) fs ds
   \<and> pc_means cap (pool_capacity (cb_pool s)) (cb_n s) (cb_tot s) stop (cb_pc s)"

lemma frames_hold_cong:
  "(\<And>f. f \<in> set fs \<Longrightarrow> slab_as_ref p' (uf_slab f) = slab_as_ref p (uf_slab f)) \<Longrightarrow> frames_hold p' fs ds = frames_hold p fs ds"
  unfolding frames_hold_def frame_payload_def by (metis (mono_tags, lifting) map_eq_conv)

lemma capacity_cong: "length (slabs p') = length (slabs p) \<Longrightarrow> pool_capacity p' = pool_capacity p"
  by (simp add: pool_capacity_def)

lemma own_slots_simps [simp]:
  "own_slots (s\<lparr>cb_shared := sh\<rparr>) = own_slots s"
  "own_slots (s\<lparr>cb_pc := pc\<rparr>) = mset (map frame_slot (frames (cb_out s))) + held_slots pc"
  by (simp_all add: own_slots_def)

lemma burst_invD:
  assumes "burst_inv rf cap s0 ds stop fs s"
  shows "pool_ok (cb_pool s) (live_slots (cb_shared s) + own_slots s)"
    and "slab_size (cb_pool s) = slab_size (cb_pool s0)"
    and "cb_out s = (cb_out s0)\<lparr>frames := frames (cb_out s0) @ fs\<rparr>"
    and "frames_hold (cb_pool s) fs ds"
    and "batch_ok (cb_out s)" and "cap - cb_n s \<le> unat (batch_spare (cb_out s))"
    and "reap rf (unat (slab_size (cb_pool s0))) (calls_made stop (cb_n s)) (cb_world s0) = (ds, stop, cb_world s)"
    and "pc_means cap (pool_capacity (cb_pool s)) (cb_n s) (cb_tot s) stop (cb_pc s)"
  using assms unfolding burst_inv_def by blast+

lemma others_keep_inv:
  assumes "burst_inv rf cap s0 ds stop fs s" and "shared_step (cb_shared s) e sh"
  shows "burst_inv rf cap s0 ds stop fs (s\<lparr>cb_shared := sh\<rparr>)"
proof -
  from assms(1) have ok: "pool_ok (cb_pool s) (live_slots (cb_shared s) + own_slots s)"
    and out: "cb_out s = (cb_out s0)\<lparr>frames := frames (cb_out s0) @ fs\<rparr>"
    by (simp_all add: burst_inv_def)
  note fr = others_frame [OF assms(2) ok]
  have "slab_as_ref (the_pool sh) (uf_slab f) = slab_as_ref (cb_pool s) (uf_slab f)" if "f \<in> set fs" for f
    using fr that out by (auto simp: own_slots_def)
  then have "frames_hold (the_pool sh) fs ds = frames_hold (cb_pool s) fs ds" by (rule frames_hold_cong)
  with fr shared_step_shape [OF assms(2)] capacity_cong [of "the_pool sh" "cb_pool s"] assms(1) show ?thesis
    unfolding burst_inv_def by (elim conjE) (simp del: reap.simps)
qed

text \<open>A datagram lands in the slab at hand and its frame joins the batch.\<close>

lemma landing:
  assumes ok: "pool_ok p (L + (mset (map frame_slot fs) + {#slab_index slab#}))"
    and w: "write_buf p slab d = Some p'" and fit: "length d \<le> unat (slab_size p)"
    and hold: "frames_hold p new ds" and sub: "set new \<subseteq> set fs"
    and f: "f = \<lparr>uf_slab = set_len slab (word_of_nat (length d)), uf_peer = a\<rparr>"
  shows "pool_ok p' (L + mset (map frame_slot (fs @ [f])))" "frames_hold p' (new @ [f]) (ds @ [(d, a)])"
proof -
  have slot: "frame_slot f = slab_index slab" by (simp add: f set_len_def)
  from write_buf_ok [OF ok w] show "pool_ok p' (L + mset (map frame_slot (fs @ [f])))" by (simp add: slot)
  have ok': "pool_ok p (add_mset (slab_index slab) (L + mset (map frame_slot fs)))" using ok by simp
  have "slab_as_ref p' (uf_slab g) = slab_as_ref p (uf_slab g)" if "g \<in> set new" for g
    by (rule write_buf_others [OF ok' w]) (use that sub in auto)
  then have "frames_hold p' new ds" using hold frames_hold_cong by blast
  moreover have "frame_payload p' f = Some d" using write_then_read [OF ok w fit] by (simp add: f frame_payload_def)
  ultimately show "frames_hold p' (new @ [f]) (ds @ [(d, a)])" by (simp add: frames_hold_def f)
qed

lemma own_step_keeps:
  assumes inv: "burst_inv rf cap s0 ds stop fs s" and step: "burst_step rf cap s s'" and fit: "fits_buffer rf"
  shows "\<exists>ds' stop' fs'. burst_inv rf cap s0 ds' stop' fs' s'"
  using step
proof (cases rule: burst_step.cases)
  case at_cap
  with inv show ?thesis
    by (intro exI [of _ ds] exI [of _ stop] exI [of _ fs]) (auto simp: burst_inv_def own_slots_def stop_ok_def)
next
  case (acquired slab p)
  have ok: "pool_ok (cb_pool s) (live_slots (cb_shared s) + mset (map frame_slot (frames (cb_out s))))"
    using burst_invD(1) [OF inv] acquired by (simp add: own_slots_def)
  have "frames_hold p fs ds = frames_hold (cb_pool s) fs ds"
    using acquire_slab_frame [OF acquired(4)] by (intro frames_hold_cong) (simp add: slab_as_ref_def)
  with acquire_slab_ok [OF ok acquired(4)] acquire_slab_frame [OF acquired(4)] capacity_cong [of p "cb_pool s"] inv acquired
  show ?thesis
    by (intro exI [of _ ds] exI [of _ stop] exI [of _ fs])
      (auto simp: burst_inv_def own_slots_def live_slots_def simp del: reap.simps)
next
  case (refused p)
  then have "p = cb_pool s" by (simp add: acquire_slab_None)
  with refused inv show ?thesis
    by (intro exI [of _ ds] exI [of _ stop] exI [of _ fs]) (auto simp: burst_inv_def own_slots_def simp del: reap.simps)
next
  case report_exhausted
  note ok = burst_invD(1) [OF inv]
  have "pool_in_use (cb_pool s) \<le> pool_capacity (cb_pool s)"
    using pool_ok_in_use [OF ok] pool_ok_capacity [OF ok] pool_ok_size [OF ok] by (simp add: word_le_nat_alt)
  with report_exhausted inv show ?thesis
    by (intro exI [of _ ds] exI [of _ stop] exI [of _ fs]) (auto simp: burst_inv_def own_slots_def simp del: reap.simps)
next
  case stop_short
  with inv show ?thesis
    by (intro exI [of _ ds] exI [of _ stop] exI [of _ fs]) (auto simp: burst_inv_def own_slots_def stop_ok_def simp del: reap.simps)
next
  case (failed_recv slab buf e k')
  note ok = burst_invD(1) [OF inv]
  from buf_mut_length [OF ok failed_recv(3)] failed_recv(4) inv
  have "rf (unat (slab_size (cb_pool s0))) (cb_world s) = (Err e, k')" by (simp add: burst_inv_def)
  with reap_snoc [of rf "unat (slab_size (cb_pool s0))" "cb_n s" "cb_world s0" ds "cb_world s"] inv failed_recv
  show ?thesis
    by (intro exI [of _ ds] exI [of _ "Some e"] exI [of _ fs]) (auto simp: burst_inv_def own_slots_def simp del: reap.simps)
next
  case (released slab e)
  have ok: "pool_ok (cb_pool s) (live_slots (cb_shared s) + (mset (map frame_slot (frames (cb_out s))) + {#slab_index slab#}))"
    using burst_invD(1) [OF inv] released by (simp add: own_slots_def)
  have "frames_hold (drop_slab slab (cb_pool s)) fs ds = frames_hold (cb_pool s) fs ds"
    by (intro frames_hold_cong) (simp add: slab_as_ref_def drop_slab_def)
  with drop_slab_ok [OF ok, of slab] inv released show ?thesis
    by (intro exI [of _ ds] exI [of _ stop] exI [of _ fs])
      (auto simp: burst_inv_def own_slots_def live_slots_def drop_slab_def pool_capacity_def stop_ok_def simp del: reap.simps)
next
  case (landed slab buf d peer k' p)
  note I = burst_invD [OF inv]
  let ?f = "\<lparr>uf_slab = set_len slab (word_of_nat (length d)), uf_peer = peer\<rparr>"
  have pc: "stop = None" "cb_n s < cap" using I(8) landed(2) by simp_all
  have w: "length buf = unat (slab_size (cb_pool s))" by (rule buf_mut_length [OF I(1) landed(3)])
  have len: "length d \<le> unat (slab_size (cb_pool s))" using fits_bufferD [OF fit landed(4)] w by simp
  have own: "own_slots s = mset (map frame_slot (frames (cb_out s))) + {#slab_index slab#}"
    using landed(2) by (simp add: own_slots_def)
  have sub: "set fs \<subseteq> set (frames (cb_out s))" by (simp add: I(3))
  note land = landing [OF I(1) [unfolded own] landed(5) len I(4) sub refl, of peer]
  have sp: "0 < unat (batch_spare (cb_out s))" using I(6) pc(2) by linarith
  have reap: "reap rf (unat (slab_size (cb_pool s0))) (Suc (cb_n s)) (cb_world s0) = (ds @ [(d, peer)], None, k')"
    using reap_snoc [of rf "unat (slab_size (cb_pool s0))" "cb_n s" "cb_world s0" ds "cb_world s"] I(7) pc(1) landed(4) w I(2)
    by (simp del: reap.simps)
  have total: "total_bytes (ds @ [(d, peer)]) = total_bytes ds + word_of_nat (length d)" by (simp add: total_bytes_def)
  have bump: "bump_peer lp (ds @ [(d, peer)]) = Some peer" for lp by (simp add: bump_peer_def)
  have push: "batch_push ?f (cb_out s) = (cb_out s)\<lparr>frames := frames (cb_out s) @ [?f]\<rparr>"
    by (rule batch_push_spare [OF I(5) sp])
  have "burst_inv rf cap s0 (ds @ [(d, peer)]) None (fs @ [?f]) s'"
    using land batch_ok_push_spare [OF I(5) sp, of ?f] push reap total bump pc inv
      write_buf_frame(2,3) [OF landed(5)] capacity_cong [of p "cb_pool s"]
    unfolding burst_inv_def landed(1)
    by (elim conjE) (simp add: own_slots_def live_slots_def del: reap.simps)
  then show ?thesis by blast
qed

lemma crun_inv:
  assumes "crun rf cap s0 m s" and "fits_buffer rf" and "burst_inv rf cap s0 ds0 stop0 fs0 s0"
  shows "\<exists>ds stop fs. burst_inv rf cap s0 ds stop fs s"
  using assms
proof (induction rule: crun.induct)
  case crun_start
  then show ?case by blast
next
  case (crun_own m s1 s2)
  then show ?case using own_step_keeps by blast
next
  case (crun_other m s1 e sh)
  then show ?case using others_keep_inv by blast
qed

lemma start_inv:
  assumes "pool_ok (the_pool sh) (live_slots sh + mset (map frame_slot (frames out)))"
    and "batch_ok out" and "cap \<le> unat (batch_spare out)"
  shows "burst_inv rf cap (cb_start sh out lp k) [] None [] (cb_start sh out lp k)"
  using assms by (simp add: burst_inv_def cb_start_def own_slots_def total_bytes_def bump_peer_def)

section \<open>The burst returns\<close>

text \<open>Steps the burst still makes, whatever the others do.\<close>

fun steps_left :: "nat \<Rightarrow> burst_pc \<Rightarrow> nat" where
  "steps_left r Head = 2 * r + 1"
| "steps_left r (Holding sl) = 2 * r"
| "steps_left r NoSlab = 1"
| "steps_left r (Releasing sl e) = 1"
| "steps_left r (Finished res) = 0"

lemma own_step_decreases:
  assumes "burst_step rf cap s s'" and "burst_inv rf cap s0 ds stop fs s"
  shows "steps_left (cap - cb_n s') (cb_pc s') < steps_left (cap - cb_n s) (cb_pc s)"
  using burst_invD(8) [OF assms(2)] assms(1)
  by (cases rule: burst_step.cases [OF assms(1)]) (auto split: if_splits)

lemma crun_bound:
  assumes "crun rf cap s0 m s" and "fits_buffer rf" and "burst_inv rf cap s0 ds0 stop0 fs0 s0"
  shows "m + steps_left (cap - cb_n s) (cb_pc s) \<le> steps_left (cap - cb_n s0) (cb_pc s0)"
  using assms
proof (induction rule: crun.induct)
  case (crun_own m s1 s2)
  from crun_inv [OF crun_own(1) crun_own.prems] obtain ds stop fs where "burst_inv rf cap s0 ds stop fs s1" by blast
  from own_step_decreases [OF crun_own(2) this] crun_own.IH [OF crun_own.prems] show ?case by simp
qed simp_all

lemma progress:
  assumes "burst_inv rf cap s0 ds stop fs s" and "\<And>r. cb_pc s \<noteq> Finished r"
  shows "\<exists>s'. burst_step rf cap s s'"
proof (cases "cb_pc s")
  case Head
  then show ?thesis
    by (cases "cb_n s < cap"; cases "acquire_slab (cb_pool s) (slab_size (cb_pool s))"; cases "fst (acquire_slab (cb_pool s) (slab_size (cb_pool s)))")
      (auto intro: burst_step.intros)
next
  case (Holding slab)
  then have "slab_index slab \<in># live_slots (cb_shared s) + own_slots s" by (simp add: own_slots_def)
  from buf_mut_live [OF burst_invD(1) [OF assms(1)] this] obtain buf where b: "buf_mut (cb_pool s) slab = Some buf" by blast
  obtain r k' where r: "rf (length buf) (cb_world s) = (r, k')" by force
  show ?thesis
  proof (cases r)
    case (Ok x)
    obtain p where "write_buf (cb_pool s) slab (fst x) = Some p" using b by (simp add: write_buf_def)
    with Holding b r Ok show ?thesis by (cases x) (auto intro: burst_step.landed)
  next
    case (Err e)
    with Holding b r show ?thesis by (auto intro: burst_step.failed_recv)
  qed
next
  case NoSlab
  then show ?thesis by (cases "cb_n s = 0") (auto intro: burst_step.intros)
qed (use assms(2) in \<open>auto intro: burst_step.intros\<close>)

section \<open>Left alone it is the loop of the source\<close>

lemma burst_step_deterministic:
  assumes "burst_step rf cap s a" and "burst_step rf cap s b"
  shows "a = b"
  using assms(1)
  by (cases rule: burst_step.cases) (use assms(2) in \<open>cases rule: burst_step.cases; auto\<close>)+

lemma finished_stays: "burst_step rf cap s s' \<Longrightarrow> cb_pc s \<noteq> Finished r"
  by (cases rule: burst_step.cases) auto

lemma final_unique:
  assumes "(burst_step rf cap)\<^sup>*\<^sup>* s a" and "cb_pc a = Finished r"
    and "(burst_step rf cap)\<^sup>*\<^sup>* s b" and "cb_pc b = Finished r'"
  shows "a = b"
  using assms(1,3)
proof (induction rule: converse_rtranclp_induct)
  case base
  then show ?case using assms(2) by (cases rule: converse_rtranclpE) (auto dest: finished_stays)
next
  case (step s s1)
  from step.prems step.hyps(1) assms(4) have "(burst_step rf cap)\<^sup>*\<^sup>* s1 b"
    by (cases rule: converse_rtranclpE) (auto dest: finished_stays burst_step_deterministic)
  then show ?case by (rule step.IH)
qed

definition finishes_with ::
  "(nat \<times> u64, transport_error) result \<times> vec_pool \<times> socket_addr option \<times> udp_frame frame_batch \<times> 'k \<Rightarrow> 'k cburst \<Rightarrow> bool"
where
  "finishes_with res s \<longleftrightarrow>
     (case res of (r, p, lp, out, k) \<Rightarrow>
        cb_pc s = Finished r \<and> cb_pool s = p \<and> cb_last s = lp \<and> cb_out s = out \<and> cb_world s = k)"

lemma finish_unique:
  assumes "(burst_step rf cap)\<^sup>*\<^sup>* s a" and "finishes_with res a"
    and "(burst_step rf cap)\<^sup>*\<^sup>* s b" and "finishes_with res' b"
  shows "res = res'"
proof -
  obtain r r' where "cb_pc a = Finished r" "cb_pc b = Finished r'"
    using assms(2,4) by (cases res; cases res'; auto simp: finishes_with_def)
  from final_unique [OF assms(1) this(1) assms(3) this(2)] assms(2,4) show ?thesis
    by (cases res; cases res'; auto simp: finishes_with_def)
qed

lemma burst_runs:
  assumes "burst rf m n tot p lp out k = Some res"
    and "cb_pc s = Head" "cb_n s = n" "cb_tot s = tot" "cb_pool s = p" "cb_last s = lp" "cb_out s = out" "cb_world s = k"
    and "cap = n + m"
  shows "\<exists>s'. (burst_step rf cap)\<^sup>*\<^sup>* s s' \<and> finishes_with res s'"
  using assms
proof (induction rf m n tot p lp out k arbitrary: s rule: burst.induct)
  case (1 rf n tot p lp out k)
  then have "burst_step rf cap s (s\<lparr>cb_pc := Finished (Ok (n, tot))\<rparr>)"
    using burst_step.at_cap [of s cap rf] by simp
  with 1 show ?case by (intro exI [of _ "s\<lparr>cb_pc := Finished (Ok (n, tot))\<rparr>"]) (auto simp: finishes_with_def)
next
  case (2 rf m n tot p lp out k)
  note run = 2(2) [unfolded burst.simps(2)] and at = 2(3-10)
  have lt: "cb_n s < cap" using at by simp
  obtain x q where acq: "acquire_slab p (slab_size p) = (x, q)" by force
  show ?case
  proof (cases x)
    case None
    let ?s1 = "s\<lparr>cb_shared := (cb_shared s)\<lparr>the_pool := q\<rparr>, cb_pc := NoSlab\<rparr>"
    have s1: "burst_step rf cap s ?s1" using burst_step.refused [of s cap q rf] at lt acq None by simp
    have "\<exists>s2. burst_step rf cap ?s1 s2 \<and> finishes_with res s2"
    proof (cases "n = 0")
      case True
      then show ?thesis using run acq None at burst_step.report_exhausted [of ?s1 rf cap] by (auto simp: finishes_with_def)
    next
      case False
      then show ?thesis using run acq None at burst_step.stop_short [of ?s1 rf cap] by (auto simp: finishes_with_def)
    qed
    with s1 show ?thesis by (meson converse_rtranclp_into_rtranclp rtranclp.rtrancl_refl)
  next
    case (Some slab)
    let ?s1 = "s\<lparr>cb_shared := (cb_shared s)\<lparr>the_pool := q\<rparr>, cb_pc := Holding slab\<rparr>"
    have s1: "burst_step rf cap s ?s1" using burst_step.acquired [of s cap slab q rf] at lt acq Some by simp
    from run acq Some obtain buf where b: "buf_mut q slab = Some buf" by (auto split: option.splits)
    obtain r k' where r: "rf (length buf) k = (r, k')" by force
    have "\<exists>s2. (burst_step rf cap)\<^sup>*\<^sup>* ?s1 s2 \<and> finishes_with res s2"
    proof (cases r)
      case (Err e)
      let ?s2 = "?s1\<lparr>cb_pc := Releasing slab e, cb_world := k'\<rparr>"
      have s2: "burst_step rf cap ?s1 ?s2" using burst_step.failed_recv [of ?s1 slab buf rf e k' cap] b r Err at by simp
      have "\<exists>s3. burst_step rf cap ?s2 s3 \<and> finishes_with res s3"
        using run acq Some b r Err at burst_step.released [of ?s2 slab e rf cap]
        by (auto simp: finishes_with_def split: if_splits)
      with s2 show ?thesis by (meson converse_rtranclp_into_rtranclp rtranclp.rtrancl_refl)
    next
      case (Ok y)
      obtain d a where y: "y = (d, a)" by force
      from run acq Some b r Ok y obtain q' where w: "write_buf q slab d = Some q'" by (auto split: option.splits)
      let ?f = "\<lparr>uf_slab = set_len slab (word_of_nat (length d)), uf_peer = a\<rparr>"
      let ?s2 = "?s1\<lparr>cb_shared := (cb_shared s)\<lparr>the_pool := q'\<rparr>, cb_pc := Head, cb_n := Suc n,
        cb_tot := tot + word_of_nat (length d), cb_last := Some a, cb_out := batch_push ?f out, cb_world := k'\<rparr>"
      have s2: "burst_step rf cap ?s1 ?s2"
        using burst_step.landed [of ?s1 slab buf rf d a k' q' cap] b r Ok y w at by simp
      have "\<exists>s3. (burst_step rf cap)\<^sup>*\<^sup>* ?s2 s3 \<and> finishes_with res s3"
        by (rule 2(1) [OF acq [symmetric] Some b r [symmetric] Ok y [symmetric] w]) (use run acq Some b r Ok y w at in simp_all)
      with s2 show ?thesis by (meson converse_rtranclp_into_rtranclp)
    qed
    with s1 show ?thesis by (meson converse_rtranclp_into_rtranclp)
  qed
qed

lemma mio_update_inject:
  "(self\<lparr>mu_pool := p, mu_last_peer := lp\<rparr> = self\<lparr>mu_pool := p', mu_last_peer := lp'\<rparr>) \<longleftrightarrow> p = p' \<and> lp = lp'"
  by (cases self) simp

section \<open>Properties\<close>

text \<open>
  C3: A burst works under interference: whatever slabs other threads acquire, write and drop while
  it runs, in any interleaving, the burst owns its frames' slots alone, the frames it has made
  hold the datagrams the socket gave, in order and unchanged, it never exceeds its cap, and when
  it has returned, it returned the count and the byte total, the socket's error, or, with no
  frame made, \<open>PoolExhausted\<close> with the pool's capacity and a number in use not above it.
\<close>

theorem concurrent_burst_sound:
  assumes "pool_ok (the_pool sh) (live_slots sh + mset (map frame_slot (frames out)))" and "batch_ok out"
    and "cap \<le> unat (batch_spare out)" and "fits_buffer rf" and "crun rf cap (cb_start sh out lp k) m s"
  shows "\<exists>ds stop fs.
      reap rf (unat (slab_size (the_pool sh))) (calls_made stop (cb_n s)) k = (ds, stop, cb_world s)
    \<and> cb_out s = out\<lparr>frames := frames out @ fs\<rparr> \<and> frames_hold (cb_pool s) fs ds
    \<and> length ds = cb_n s \<and> cb_last s = bump_peer lp ds
    \<and> pc_means cap (pool_capacity (the_pool sh)) (cb_n s) (total_bytes ds) stop (cb_pc s)
    \<and> pool_ok (cb_pool s) (live_slots (cb_shared s) + own_slots s)"
proof -
  from crun_inv [OF assms(5,4) start_inv [OF assms(1-3)]] obtain ds stop fs where
    inv: "burst_inv rf cap (cb_start sh out lp k) ds stop fs s" by blast
  have start: "cb_pool (cb_start sh out lp k) = the_pool sh" "cb_world (cb_start sh out lp k) = k"
    "cb_out (cb_start sh out lp k) = out" "cb_last (cb_start sh out lp k) = lp" by (simp_all add: cb_start_def)
  from inv show ?thesis unfolding burst_inv_def start
    by (intro exI [of _ ds] exI [of _ stop] exI [of _ fs]) (elim conjE, simp del: reap.simps)
qed

text \<open>
  C13: A burst returns in a bounded number of its own steps, at most two for each frame it may make
  and one more, no matter how the other threads run in between; and until it has returned it can
  always make its next step: no slab access is out of range, and an empty pool does not block it.
\<close>

theorem concurrent_burst_returns:
  assumes "pool_ok (the_pool sh) (live_slots sh + mset (map frame_slot (frames out)))" and "batch_ok out"
    and "cap \<le> unat (batch_spare out)" and "fits_buffer rf" and "crun rf cap (cb_start sh out lp k) m s"
  shows "m \<le> 2 * cap + 1 \<and> ((\<exists>r. cb_pc s = Finished r) \<or> (\<exists>s'. burst_step rf cap s s'))"
proof -
  note start = start_inv [OF assms(1-3), of rf lp k]
  from crun_inv [OF assms(5,4) start] obtain ds stop fs where
    "burst_inv rf cap (cb_start sh out lp k) ds stop fs s" by blast
  then have "(\<exists>r. cb_pc s = Finished r) \<or> (\<exists>s'. burst_step rf cap s s')" using progress by blast
  moreover have "m \<le> 2 * cap + 1" using crun_bound [OF assms(5,4) start] by (simp add: cb_start_def)
  ultimately show ?thesis by blast
qed

text \<open>
  The machine is the loop of the source taken apart at its accesses to the shared pool: run
  without interference it finishes with exactly the result, pool, last peer, batch and world
  that \<open>recv_burst\<close>'s loop computes, and with no other.
\<close>

lemma burst_machine_is_the_loop:
  assumes "pool_ok (mu_pool self) L" and "batch_ok out" and "fits_buffer (mio_rf sys self)"
    and "cap \<le> unat (batch_spare out)" and "the_pool sh = mu_pool self"
  shows "(\<exists>s. (burst_step (mio_rf sys self) cap)\<^sup>*\<^sup>* (cb_start sh out (mu_last_peer self) k) s \<and> finishes_with (r, p, lp, out', k') s)
    \<longleftrightarrow> mio_recv_loop sys cap 0 0 self out k = Some (r, self\<lparr>mu_pool := p, mu_last_peer := lp\<rparr>, out', k')"
proof -
  let ?s0 = "cb_start sh out (mu_last_peer self) k"
  let ?b = "burst (mio_rf sys self) cap 0 0 (mu_pool self) (mu_last_peer self) out k"
  have loop: "mio_recv_loop sys cap 0 0 self out k = Some (r, self\<lparr>mu_pool := p, mu_last_peer := lp\<rparr>, out', k')
      \<longleftrightarrow> ?b = Some (r, p, lp, out', k')" for r p lp out' k'
    by (auto simp: mio_recv_loop_burst mio_unpack_def mio_update_inject)
  obtain res where res: "?b = Some res" using burst_total [OF assms(1,2,4,3)] by blast
  from burst_runs [OF res, of ?s0 cap] assms(5) obtain s where
    s: "(burst_step (mio_rf sys self) cap)\<^sup>*\<^sup>* ?s0 s" "finishes_with res s" by (auto simp: cb_start_def)
  show ?thesis unfolding loop res option.inject
    using s finish_unique [OF s] by blast
qed

lemma burst_steps_live: "(burst_step rf cap)\<^sup>*\<^sup>* s s' \<Longrightarrow> live (cb_shared s') = live (cb_shared s)"
  by (induction rule: rtranclp_induct) (auto elim: burst_step.cases)

text \<open>
  C21: A burst that no other thread disturbs takes all it can: every run of the machine ends in one
  and the same state, in which it has made a frame of each datagram that receiving up to
  \<open>min(cap, free slabs)\<close> times yields, up to the first error, each with its bytes and its sender,
  in order and in a slab of its own; it reports their count and total, or the error; the slab of a
  receive that failed is free again, and the slabs of others are as they were.
\<close>

theorem undisturbed_burst_reaps:
  assumes "pool_ok (the_pool sh) (live_slots sh + mset (map frame_slot (frames out)))" and "batch_ok out"
    and "cap \<le> unat (batch_spare out)" and "fits_buffer rf" and "free_list (the_pool sh) \<noteq> [] \<or> cap = 0"
    and "reap rf (unat (slab_size (the_pool sh))) (min cap (length (free_list (the_pool sh)))) k = (ds, e, k1)"
  shows "\<exists>s fs. (burst_step rf cap)\<^sup>*\<^sup>* (cb_start sh out lp k) s
    \<and> (\<forall>t r. (burst_step rf cap)\<^sup>*\<^sup>* (cb_start sh out lp k) t \<and> cb_pc t = Finished r \<longrightarrow> t = s)
    \<and> cb_pc s = Finished (if stop_ok e then Ok (length ds, total_bytes ds) else Err (Io (the e)))
    \<and> cb_out s = out\<lparr>frames := frames out @ fs\<rparr> \<and> frames_hold (cb_pool s) fs ds
    \<and> cb_last s = bump_peer lp ds \<and> cb_world s = k1 \<and> live (cb_shared s) = live sh
    \<and> pool_ok (cb_pool s) (live_slots sh + mset (map frame_slot (frames out @ fs)))
    \<and> (\<forall>sl. slab_index sl \<in># live_slots sh + mset (map frame_slot (frames out)) \<longrightarrow>
          slab_as_ref (cb_pool s) sl = slab_as_ref (the_pool sh) sl)"
proof -
  let ?s0 = "cb_start sh out lp k"
  have "\<not> ((0::nat) = 0 \<and> 0 < cap \<and> free_list (the_pool sh) = [])" using assms(5) by auto
  from burst_spec [OF assms(1-4) this assms(6), of 0 lp] obtain p fs where
    b: "burst rf cap 0 0 (the_pool sh) lp out k = Some (if stop_ok e then Ok (length ds, total_bytes ds) else Err (Io (the e)),
        p, bump_peer lp ds, out\<lparr>frames := frames out @ fs\<rparr>, k1)"
      "frames_hold p fs ds" "pool_ok p (live_slots sh + mset (map frame_slot (frames out)) + mset (map frame_slot fs))"
      "\<forall>sl. slab_index sl \<in># live_slots sh + mset (map frame_slot (frames out)) \<longrightarrow> slab_as_ref p sl = slab_as_ref (the_pool sh) sl"
    by (auto simp: burst_outcome_def simp del: reap.simps)
  from burst_runs [OF b(1), of ?s0 cap] obtain s where
    s: "(burst_step rf cap)\<^sup>*\<^sup>* ?s0 s" "cb_pc s = Finished (if stop_ok e then Ok (length ds, total_bytes ds) else Err (Io (the e)))"
      "cb_pool s = p" "cb_last s = bump_peer lp ds" "cb_out s = out\<lparr>frames := frames out @ fs\<rparr>" "cb_world s = k1"
    by (auto simp: cb_start_def finishes_with_def)
  have "live (cb_shared s) = live sh" using burst_steps_live [OF s(1)] by (simp add: cb_start_def)
  moreover have "t = s" if "(burst_step rf cap)\<^sup>*\<^sup>* ?s0 t" "cb_pc t = Finished r" for t r
    by (rule final_unique [OF that s(1,2)])
  moreover have "pool_ok p (live_slots sh + mset (map frame_slot (frames out @ fs)))" using b(3) by (simp add: add.assoc)
  ultimately show ?thesis using s b(2,4) by blast
qed

text \<open>
  C34: The numbers in \<open>PoolExhausted\<close> are read after the acquire that failed, and not with it: on a
  pool whose slots are all out, a slab dropped in between makes the burst report that one slot
  less than the capacity was in use, although it found none.
\<close>

theorem exhausted_report_may_lag:
  assumes "pool_ok (the_pool sh) (live_slots sh + X)" and "free_list (the_pool sh) = []" and "live sh \<noteq> []" and "0 < cap"
  shows "\<exists>s. crun rf cap (cb_start sh out lp k) 2 s
    \<and> cb_pc s = Finished (Err (PoolExhausted (pool_capacity (the_pool sh) - 1) (pool_capacity (the_pool sh))))"
proof -
  let ?s0 = "cb_start sh out lp k"
  let ?s1 = "?s0\<lparr>cb_pc := NoSlab\<rparr>"
  let ?sh = "sh\<lparr>the_pool := drop_slab (snd (live sh ! 0)) (the_pool sh), live := take 0 (live sh) @ drop (Suc 0) (live sh)\<rparr>"
  let ?s2 = "?s1\<lparr>cb_shared := ?sh\<rparr>"
  have none: "acquire_slab (the_pool sh) (slab_size (the_pool sh)) = (None, the_pool sh)"
    by (simp add: acquire_slab_None assms(2))
  have "burst_step rf cap ?s0 ?s1"
    using burst_step.refused [of ?s0 cap "the_pool sh" rf] none assms(4) by (simp add: cb_start_def)
  from crun_own [OF crun_start this] have "crun rf cap ?s0 (Suc 0) ?s1" .
  moreover have "shared_step (cb_shared ?s1) (EvDrop 0) ?sh"
    using step_drop [of 0 sh] assms(3) by (simp add: cb_start_def)
  ultimately have run: "crun rf cap ?s0 (Suc 0) ?s2" by (rule crun_other)
  have "pool_in_use (the_pool ?sh) = pool_capacity (the_pool sh) - 1" "pool_capacity (the_pool ?sh) = pool_capacity (the_pool sh)"
    using assms(2) by (simp_all add: pool_in_use_def pool_capacity_def drop_slab_def vec_push_def)
  then have "burst_step rf cap ?s2 (?s2\<lparr>cb_pc := Finished (Err (PoolExhausted (pool_capacity (the_pool sh) - 1) (pool_capacity (the_pool sh))))\<rparr>)"
    using burst_step.report_exhausted [of ?s2 rf cap] by (simp add: cb_start_def)
  from crun_own [OF run this] show ?thesis by (auto simp: numeral_2_eq_2)
qed

lemma sample_shared_pool [simp]:
  "free_list (the_pool sample_shared) = []" "live sample_shared \<noteq> []" "pool_capacity (the_pool sample_shared) = 2"
  "slab_size (the_pool sample_shared) = 4"
  by (simp_all add: sample_shared_def sample_pool_def pool_capacity_def)

lemma sample_shared_ok: "pool_ok (the_pool sample_shared) (live_slots sample_shared + {#})"
  using shared_reach_ok [OF sample_shared_reach] by simp

theorem exhausted_report_may_lag_witness:
  "\<exists>s. crun queue_recv 4 (cb_start sample_shared (batch_with_capacity 4) None sample_queue) 2 s
    \<and> cb_pc s = Finished (Err (PoolExhausted 1 2))"
  using exhausted_report_may_lag [OF sample_shared_ok, of 4 queue_recv "batch_with_capacity 4" None sample_queue] by simp

text \<open>One datagram lands, then another thread takes the last slab.\<close>

definition fresh_shared :: shared where
  "fresh_shared = \<lparr>the_pool = sample_pool, live = []\<rparr>"

lemma fresh_shared_ok:
  "pool_ok (the_pool fresh_shared) (live_slots fresh_shared + mset (map frame_slot (frames (batch_with_capacity 4))))"
  "4 \<le> unat (batch_spare (batch_with_capacity 4 :: udp_frame frame_batch))"
  by (simp_all add: fresh_shared_def live_slots_def sample_pool_ok batch_spare_def batch_with_capacity_def)

lemma fresh_run:
  "\<exists>s. crun queue_recv 4 (cb_start fresh_shared (batch_with_capacity 4) None sample_queue) 2 s
     \<and> cb_pc s = Head \<and> cb_n s = 1 \<and> length (live (cb_shared s)) = 1"
proof -
  let ?s0 = "cb_start fresh_shared (batch_with_capacity 4) None sample_queue"
  let ?slab = "\<lparr>slab_index = 0, slab_len = 0\<rparr>"
  let ?q = "sample_pool\<lparr>free_list := [1]\<rparr>"
  let ?s1 = "?s0\<lparr>cb_shared := (cb_shared ?s0)\<lparr>the_pool := ?q\<rparr>, cb_pc := Holding ?slab\<rparr>"
  have "acquire_slab sample_pool 4 = (Some ?slab, ?q)" by (simp add: acquire_slab_def sample_pool_def vec_pop_def)
  then have "burst_step queue_recv 4 ?s0 ?s1"
    using burst_step.acquired [of ?s0 4 ?slab ?q queue_recv] by (simp add: cb_start_def fresh_shared_def sample_pool_def)
  from crun_own [OF crun_start this] have run1: "crun queue_recv 4 ?s0 1 ?s1" by simp
  obtain buf where b: "buf_mut ?q ?slab = Some buf" "length buf = 4" by (simp add: buf_mut_def sample_pool_def)
  obtain p where w: "write_buf ?q ?slab [1, 2] = Some p" using b by (simp add: write_buf_def)
  have pool1: "the_pool (cb_shared ?s1) = ?q" by simp
  have recv: "queue_recv (length buf) (cb_world ?s1) = (Ok ([1, 2], peer1), tl sample_queue)"
    by (simp add: b cb_start_def sample_queue_def)
  note step = burst_step.landed [where s = ?s1 and rf = queue_recv and cap = 4 and slab = ?slab and p = p]
  obtain s2 where s2: "burst_step queue_recv 4 ?s1 s2" "cb_pc s2 = Head" "cb_n s2 = 1" "cb_shared s2 = fresh_shared\<lparr>the_pool := p\<rparr>"
    using step [OF _ _ recv] b(1) w by (simp add: pool1) (auto simp: cb_start_def)
  have "acquire_slab p 4 = (Some \<lparr>slab_index = 1, slab_len = 0\<rparr>, p\<lparr>free_list := []\<rparr>)"
    using acquire_slab_snoc [of p "[]" 1 4] write_buf_frame(1,2) [OF w] by (simp add: sample_pool_def)
  then have other: "shared_step (cb_shared s2) (EvAcquire 7 4)
      (cb_shared s2\<lparr>the_pool := p\<lparr>free_list := []\<rparr>, live := live (cb_shared s2) @ [(7, \<lparr>slab_index = 1, slab_len = 0\<rparr>)]\<rparr>)"
    (is "shared_step _ _ ?sh") using step_acquire [of "cb_shared s2" 4 _ "p\<lparr>free_list := []\<rparr>" 7] s2(4) by simp
  have "crun queue_recv 4 ?s0 (Suc 1) (s2\<lparr>cb_shared := ?sh\<rparr>)"
    by (rule crun_other [OF crun_own [OF run1 s2(1)] other])
  then have run: "crun queue_recv 4 ?s0 2 (s2\<lparr>cb_shared := ?sh\<rparr>)" by (simp only: Suc_1)
  have "live fresh_shared = []" by (simp add: fresh_shared_def)
  then have at: "cb_pc (s2\<lparr>cb_shared := ?sh\<rparr>) = Head" "cb_n (s2\<lparr>cb_shared := ?sh\<rparr>) = 1"
    "length (live (cb_shared (s2\<lparr>cb_shared := ?sh\<rparr>))) = 1" by (simp_all add: s2(2-4))
  show ?thesis by (rule exI, intro conjI, rule run, rule at(1), rule at(2), rule at(3))
qed

theorem concurrent_burst_sound_witness:
  "\<exists>s. crun queue_recv 4 (cb_start fresh_shared (batch_with_capacity 4) None sample_queue) 2 s
    \<and> length (live (cb_shared s)) = 1 \<and> map (frame_payload (cb_pool s)) (frames (cb_out s)) = [Some [1, 2]]"
proof -
  from fresh_run obtain s where s: "crun queue_recv 4 (cb_start fresh_shared (batch_with_capacity 4) None sample_queue) 2 s"
    "cb_pc s = Head" "cb_n s = 1" "length (live (cb_shared s)) = 1" by blast
  from concurrent_burst_sound [OF fresh_shared_ok(1) batch_ok_new fresh_shared_ok(2) queue_recv_fits s(1)] s(2,3)
  obtain ds fs where r: "reap queue_recv (unat (slab_size (the_pool fresh_shared))) 1 sample_queue = (ds, None, cb_world s)"
    "cb_out s = batch_with_capacity 4\<lparr>frames := fs\<rparr>" "frames_hold (cb_pool s) fs ds" by auto
  have "ds = [([1, 2], peer1)]" using r(1) by (simp add: sample_queue_def fresh_shared_def sample_pool_def)
  with r(2,3) have "map (frame_payload (cb_pool s)) (frames (cb_out s)) = [Some [1, 2]]"
    by (auto simp: frames_hold_def map_eq_Cons_conv)
  then show ?thesis by (intro exI [of _ s] conjI s(1,4))
qed

theorem concurrent_burst_returns_witness:
  "\<exists>s s'. crun queue_recv 4 (cb_start fresh_shared (batch_with_capacity 4) None sample_queue) 2 s
    \<and> burst_step queue_recv 4 s s'"
proof -
  from fresh_run obtain s where s: "crun queue_recv 4 (cb_start fresh_shared (batch_with_capacity 4) None sample_queue) 2 s"
    "cb_pc s = Head" by blast
  from concurrent_burst_returns [OF fresh_shared_ok(1) batch_ok_new fresh_shared_ok(2) queue_recv_fits s(1)] s
  show ?thesis by auto
qed

theorem undisturbed_burst_reaps_witness:
  "\<exists>s. (burst_step queue_recv 4)\<^sup>*\<^sup>* (cb_start fresh_shared (batch_with_capacity 4) None sample_queue) s
     \<and> cb_pc s = Finished (Ok (2, 3)) \<and> cb_last s = Some peer2
     \<and> map (frame_payload (cb_pool s)) (frames (cb_out s)) = [Some [1, 2], Some [3]] \<and> cb_world s = [([4, 5, 6, 7, 8], peer1)]"
proof -
  let ?ds = "[([1, 2], peer1), ([3], peer2)] :: (bytes \<times> socket_addr) list"
  have fresh: "the_pool fresh_shared = sample_pool" "length (free_list sample_pool) = 2" "free_list sample_pool \<noteq> []"
    by (simp_all add: fresh_shared_def sample_pool_def)
  have reap: "reap queue_recv (unat (slab_size (the_pool fresh_shared))) (min 4 (length (free_list (the_pool fresh_shared)))) sample_queue =
     (?ds, None, [([4, 5, 6, 7, 8], peer1)])"
    unfolding fresh(1,2) by (simp add: sample_reap del: reap.simps)
  have "free_list (the_pool fresh_shared) \<noteq> [] \<or> (4::nat) = 0" by (simp add: fresh)
  from undisturbed_burst_reaps [OF fresh_shared_ok(1) batch_ok_new fresh_shared_ok(2) queue_recv_fits this reap, of None]
  obtain s fs where s: "(burst_step queue_recv 4)\<^sup>*\<^sup>* (cb_start fresh_shared (batch_with_capacity 4) None sample_queue) s"
    "cb_pc s = Finished (if stop_ok None then Ok (length ?ds, total_bytes ?ds)
       else Err (Io (the None)))"
    "cb_out s = batch_with_capacity 4\<lparr>frames := frames (batch_with_capacity 4) @ fs\<rparr>"
    "frames_hold (cb_pool s) fs ?ds" "cb_last s = bump_peer None ?ds"
    "cb_world s = [([4, 5, 6, 7, 8], peer1)]" by blast
  have "cb_pc s = Finished (Ok (2, 3))" "cb_last s = Some peer2"
    using s(2,5) by (simp_all add: stop_ok_def total_bytes_def bump_peer_def)
  moreover have "map (frame_payload (cb_pool s)) (frames (cb_out s)) = [Some [1, 2], Some [3]]"
    using s(3,4) by (auto simp: frames_hold_def map_eq_Cons_conv)
  ultimately show ?thesis using s(1,6) by (intro exI [of _ s] conjI)
qed

end
