(* ===== verification/Bind_Suite.thy ===== *)
theory Bind_Suite imports Mio_Transport Tokio_Transport begin

text \<open>
  The bind and connect part of the conformance suite (\<open>run_conformance_suite\<close> of
  \<open>crates/core/src/testing/conformance.rs\<close>) over any implementation of \<open>TransportBind\<close>
  (\<open>crates/core/src/ext.rs\<close>), and what it reports of the two backends. The listener the suite
  connects to is tokio's and a parameter, as is the spawned task that accepts one connection:
  \<open>cn_accepted\<close> is the await of that task, \<open>None\<close> when no connection ever arrives.
\<close>

section \<open>The suite\<close>

datatype conformance_case = BindUdp | ConnectTcp | NameNonEmpty

fun conformance_label :: "conformance_case \<Rightarrow> string" where
  "conformance_label BindUdp = ''bind_udp''"
| "conformance_label ConnectTcp = ''connect_tcp''"
| "conformance_label NameNonEmpty = ''name_non_empty''"

record conformance_report =
  cr_passed :: "string list"
  cr_failed :: "(string \<times> string) list"

definition conformance_report_default :: conformance_report where
  "conformance_report_default = \<lparr>cr_passed = [], cr_failed = []\<rparr>"

definition conformance_all_passed :: "conformance_report \<Rightarrow> bool" where
  "conformance_all_passed r \<longleftrightarrow> cr_failed r = []"

fun conformance_record :: "conformance_case \<Rightarrow> (unit, string) result \<Rightarrow> conformance_report \<Rightarrow> conformance_report" where
  "conformance_record c (Ok _) r = r\<lparr>cr_passed := cr_passed r @ [conformance_label c]\<rparr>"
| "conformance_record c (Err e) r = r\<lparr>cr_failed := cr_failed r @ [(conformance_label c, e)]\<rparr>"

text \<open>The constructors of a transport type, its name, and the close of its sockets when it is dropped.\<close>

record ('k, 't) bind_ops =
  tb_bind_udp :: "bind_config \<Rightarrow> recv_buf_config \<Rightarrow> send_buf_config \<Rightarrow> ring_config \<Rightarrow> batch_config \<Rightarrow> affinity_config
    \<Rightarrow> 'k \<Rightarrow> (('t, transport_error) result \<times> 'k) option"
  tb_connect_tcp :: "bind_config \<Rightarrow> recv_buf_config \<Rightarrow> send_buf_config \<Rightarrow> ring_config \<Rightarrow> affinity_config
    \<Rightarrow> 'k \<Rightarrow> (('t, transport_error) result \<times> 'k) option"
  tb_name :: "'t \<Rightarrow> string"
  tb_close :: "'t \<Rightarrow> 'k \<Rightarrow> 'k"

record 'k conf_net =
  cn_listen :: "'k \<Rightarrow> ((fd, io_error) result \<times> 'k) option"
  cn_local_addr :: "fd \<Rightarrow> ('k, socket_addr, io_error) eff"
  cn_accepted :: "fd \<Rightarrow> 'k \<Rightarrow> 'k option"

definition close_result :: "('k, 't) bind_ops \<Rightarrow> ('t, transport_error) result \<Rightarrow> 'k \<Rightarrow> 'k" where
  "close_result ops r k = (case r of Ok t \<Rightarrow> tb_close ops t k | Err _ \<Rightarrow> k)"

definition spin_tcp_peer_and_connect :: "('k, 't) bind_ops \<Rightarrow> 'k conf_net \<Rightarrow> 'k \<Rightarrow> ((unit, string) result \<times> 'k) option" where
  "spin_tcp_peer_and_connect ops net k =
     (case cn_listen net k of
        None \<Rightarrow> None
      | Some (Err e, k1) \<Rightarrow> Some (Err (''conformance listener bind failed: '' @ err_text e), k1)
      | Some (Ok listener, k1) \<Rightarrow>
          (case cn_local_addr net listener k1 of
             (Err e, k2) \<Rightarrow> Some (Err (''conformance listener local_addr failed: '' @ err_text e), k2)
           | (Ok a, k2) \<Rightarrow>
               (case tb_connect_tcp ops (bind_config_default\<lparr>bc_addr := a\<rparr>) recv_buf_config_default send_buf_config_default
                       ring_config_default affinity_config_default k2 of
                  None \<Rightarrow> None
                | Some (r, k3) \<Rightarrow>
                    (case cn_accepted net listener (close_result ops r k3) of
                       None \<Rightarrow> None
                     | Some k4 \<Rightarrow> Some (map_err display_error (map_ok (\<lambda>_. ()) r), k4)))))"

definition name_check :: "('k, 't) bind_ops \<Rightarrow> ('t, transport_error) result \<Rightarrow> (unit, string) result" where
  "name_check ops r =
     (case r of
        Ok t \<Rightarrow> (if tb_name ops t = [] then Err ''empty transport name'' else Ok ())
      | Err _ \<Rightarrow> Err ''bind_udp failed, name unchecked'')"

definition run_conformance_suite :: "('k, 't) bind_ops \<Rightarrow> 'k conf_net \<Rightarrow> 'k \<Rightarrow> (conformance_report \<times> 'k) option" where
  "run_conformance_suite ops net k =
     (case tb_bind_udp ops bind_config_default recv_buf_config_default send_buf_config_default
             ring_config_default batch_config_default affinity_config_default k of
        None \<Rightarrow> None
      | Some (bind_res, k1) \<Rightarrow>
          (let r1 = conformance_record NameNonEmpty (name_check ops bind_res) conformance_report_default;
               r2 = conformance_record BindUdp (map_err display_error (map_ok (\<lambda>_. ()) bind_res)) r1
           in case spin_tcp_peer_and_connect ops net (close_result ops bind_res k1) of
                None \<Rightarrow> None
              | Some (tcp_res, k2) \<Rightarrow> Some (conformance_record ConnectTcp tcp_res r2, k2)))"

section \<open>The contract of the constructors\<close>

text \<open>
  What the suite relies on: a name that is not empty, and a bind that returns, with a transport or
  an error, whenever the pool of the ring can be built.
\<close>

locale transport_bind =
  fixes ops :: "('k, 't) bind_ops"
  assumes name_set: "tb_name ops t \<noteq> []"
    and bind_returns: "build_pool (slab_count ring) (rc_slab_size ring) \<noteq> None \<Longrightarrow>
      tb_bind_udp ops bind rx tx ring batch affinity k \<noteq> None"
begin

lemma default_bind_returns:
  obtains r k' where "tb_bind_udp ops bind_config_default recv_buf_config_default send_buf_config_default
    ring_config_default batch_config_default affinity_config_default k = Some (r, k')"
proof -
  have "build_pool (slab_count ring_config_default) (rc_slab_size ring_config_default) \<noteq> None"
    by (simp add: build_pool_def ring_config_default_def)
  from bind_returns [OF this] that show ?thesis by fastforce
qed

lemma suite_reports:
  assumes "tb_bind_udp ops bind_config_default recv_buf_config_default send_buf_config_default
      ring_config_default batch_config_default affinity_config_default k = Some (b, k1)"
    and "spin_tcp_peer_and_connect ops net (close_result ops b k1) = Some (t, k2)"
  shows "\<exists>rep. run_conformance_suite ops net k = Some (rep, k2)
    \<and> cr_passed rep = (if is_ok b then [''name_non_empty'', ''bind_udp''] else []) @ (if is_ok t then [''connect_tcp''] else [])
    \<and> map fst (cr_failed rep) = (if is_ok b then [] else [''name_non_empty'', ''bind_udp'']) @ (if is_ok t then [] else [''connect_tcp''])
    \<and> (conformance_all_passed rep \<longleftrightarrow> is_ok b \<and> is_ok t)"
  using assms name_set
  by (cases b; cases t)
     (simp_all add: run_conformance_suite_def name_check_def conformance_report_default_def conformance_all_passed_def Let_def)

lemma suite_waits:
  assumes "\<And>k. spin_tcp_peer_and_connect ops net k = None"
  shows "run_conformance_suite ops net k = None"
  by (rule default_bind_returns [of k]) (simp add: run_conformance_suite_def assms Let_def)

end

section \<open>The backends\<close>

definition mio_bind_ops :: "'k os \<Rightarrow> (mio_transport \<Rightarrow> 'k \<Rightarrow> 'k) \<Rightarrow> ('k, mio_transport) bind_ops" where
  "mio_bind_ops sys close = \<lparr>tb_bind_udp = mio_bind_udp sys, tb_connect_tcp = mio_connect_tcp sys,
     tb_name = mio_name, tb_close = close\<rparr>"

definition tokio_bind_ops :: "'k os \<Rightarrow> (tokio_transport \<Rightarrow> 'k \<Rightarrow> 'k) \<Rightarrow> ('k, tokio_transport) bind_ops" where
  "tokio_bind_ops sys close = \<lparr>tb_bind_udp = tokio_bind_udp sys, tb_connect_tcp = tokio_connect_tcp sys,
     tb_name = tokio_name, tb_close = close\<rparr>"

lemma mio_bind_ops_simps [simp]:
  "tb_bind_udp (mio_bind_ops sys close) = mio_bind_udp sys" "tb_connect_tcp (mio_bind_ops sys close) = mio_connect_tcp sys"
  "tb_name (mio_bind_ops sys close) = mio_name" "tb_close (mio_bind_ops sys close) = close"
  by (simp_all add: mio_bind_ops_def)

lemma tokio_bind_ops_simps [simp]:
  "tb_bind_udp (tokio_bind_ops sys close) = tokio_bind_udp sys" "tb_connect_tcp (tokio_bind_ops sys close) = tokio_connect_tcp sys"
  "tb_name (tokio_bind_ops sys close) = tokio_name" "tb_close (tokio_bind_ops sys close) = close"
  by (simp_all add: tokio_bind_ops_def)

interpretation mio_binds: transport_bind "mio_bind_ops sys close"
proof unfold_locales
  fix t show "tb_name (mio_bind_ops sys close) t \<noteq> []" by (cases t) simp_all
next
  fix ring :: ring_config and bind :: bind_config and rx :: recv_buf_config and tx :: send_buf_config
    and batch :: batch_config and affinity :: affinity_config and k
  assume "build_pool (slab_count ring) (rc_slab_size ring) \<noteq> None"
  then show "tb_bind_udp (mio_bind_ops sys close) bind rx tx ring batch affinity k \<noteq> None"
    by (auto simp: mio_bind_udp_def mio_udp_bind_def split: prod.split result.split)
qed

interpretation tokio_binds: transport_bind "tokio_bind_ops sys close"
proof unfold_locales
  fix t show "tb_name (tokio_bind_ops sys close) t \<noteq> []" by (cases t) simp_all
next
  fix ring :: ring_config and bind :: bind_config and rx :: recv_buf_config and tx :: send_buf_config
    and batch :: batch_config and affinity :: affinity_config and k
  assume "build_pool (slab_count ring) (rc_slab_size ring) \<noteq> None"
  then show "tb_bind_udp (tokio_bind_ops sys close) bind rx tx ring batch affinity k \<noteq> None"
    by (auto simp: tokio_bind_udp_def tokio_udp_bind_def split: prod.split result.split)
qed

section \<open>Properties\<close>

text \<open>
  The bind and connect suite on the \<open>mio\<close> backend records its three cases, each once, as
  passed or as failed: the bind with the name check as the UDP bind with the default
  configuration came out, the connect as the TCP part did; it passes exactly when both
  succeeded. The default configuration never makes the bind panic.
\<close>

theorem mio_bind_suite_reports:
  assumes "spin_tcp_peer_and_connect (mio_bind_ops sys close) net = (\<lambda>k. Some (t k, w k))"
  shows "\<exists>b k1 rep. mio_bind_udp sys bind_config_default recv_buf_config_default send_buf_config_default
        ring_config_default batch_config_default affinity_config_default k = Some (b, k1)
    \<and> run_conformance_suite (mio_bind_ops sys close) net k = Some (rep, w (close_result (mio_bind_ops sys close) b k1))
    \<and> cr_passed rep = (if is_ok b then [''name_non_empty'', ''bind_udp''] else [])
        @ (if is_ok (t (close_result (mio_bind_ops sys close) b k1)) then [''connect_tcp''] else [])
    \<and> map fst (cr_failed rep) = (if is_ok b then [] else [''name_non_empty'', ''bind_udp''])
        @ (if is_ok (t (close_result (mio_bind_ops sys close) b k1)) then [] else [''connect_tcp''])
    \<and> (conformance_all_passed rep \<longleftrightarrow> is_ok b \<and> is_ok (t (close_result (mio_bind_ops sys close) b k1)))"
proof (rule mio_binds.default_bind_returns [of sys close k])
  fix b k1
  assume "tb_bind_udp (mio_bind_ops sys close) bind_config_default recv_buf_config_default send_buf_config_default
      ring_config_default batch_config_default affinity_config_default k = Some (b, k1)"
  moreover from mio_binds.suite_reports [OF this, of net] assms show ?thesis
    using calculation by auto
qed

text \<open>A network whose listener accepts the one connection made to it.\<close>

definition sample_conf_net :: "'k conf_net" where
  "sample_conf_net = \<lparr>cn_listen = (\<lambda>k. Some (Ok 7, k)), cn_local_addr = (\<lambda>_. pure (SocketAddrV4 2130706433 4242)),
     cn_accepted = (\<lambda>_ k. Some k)\<rparr>"

lemma connected_wait:
  "wait_connect connected_os t k =
     Some (Ok (), t\<lparr>mt_events := [\<lparr>ev_token = 1, ev_readable = False, ev_writable = True\<rparr>]\<rparr>, k)"
  by (simp add: wait_connect_def connect_round_def connected_os_def quiet_os_def any_writable_def TCP_TOKEN_def
      pure_def loop_steps)

lemma connected_setup:
  "mio_tcp_setup connected_os bind recv_buf_config_default send_buf_config_default affinity_config_default k = (Ok (5, 4), k)"
  by (simp add: mio_tcp_setup_def warn_affinity_def affinity_config_default_def recv_buf_config_default_def
      send_buf_config_default_def apply_tcp_socket_opts_def connected_os_def quiet_os_def eff_simps)

lemma connected_connect:
  "\<exists>t. mio_connect_tcp connected_os (bind_config_default\<lparr>bc_addr := a\<rparr>) recv_buf_config_default send_buf_config_default
     ring_config_default affinity_config_default k = Some (Ok (MioTcp t), k)"
proof -
  obtain pool where "build_pool (slab_count ring_config_default) (rc_slab_size ring_config_default) = Some pool"
    by (simp add: build_pool_def ring_config_default_def)
  moreover have "peer_addr_of connected_os s k' = (Ok (SocketAddrV4 2130706433 4243), k')" for s k'
    by (simp add: connected_os_def quiet_os_def eff_simps)
  ultimately show ?thesis
    by (simp add: mio_connect_tcp_def mio_tcp_connect_to_def connected_wait connected_setup)
qed

lemma connected_spin:
  "spin_tcp_peer_and_connect (mio_bind_ops connected_os (\<lambda>_ k. k)) sample_conf_net k = Some (Ok (), k)"
proof -
  obtain t where "mio_connect_tcp connected_os (bind_config_default\<lparr>bc_addr := SocketAddrV4 2130706433 4242\<rparr>) recv_buf_config_default
      send_buf_config_default ring_config_default affinity_config_default k = Some (Ok (MioTcp t), k)"
    using connected_connect by blast
  then show ?thesis
    by (simp add: spin_tcp_peer_and_connect_def sample_conf_net_def close_result_def eff_simps)
qed

theorem mio_bind_suite_reports_witness:
  "\<exists>rep. run_conformance_suite (mio_bind_ops connected_os (\<lambda>_ k. k)) sample_conf_net () = Some (rep, ())
     \<and> ''connect_tcp'' \<in> set (cr_passed rep)"
  using mio_bind_suite_reports [of connected_os "\<lambda>_ k. k" sample_conf_net "\<lambda>_. Ok ()" "\<lambda>k. k" "()"] connected_spin
  by (auto simp: fun_eq_iff)

text \<open>
  C33: The suite does not report a connect that fails before it reaches the listener: it awaits the
  task that accepts the connection before it looks at the outcome, and where no connection
  arrives that await never completes. So on the \<open>mio\<close> backend a refused \<open>connect\<close> call hangs
  the suite instead of being recorded as failed.
\<close>

theorem bind_suite_hangs_without_connection:
  assumes "\<And>k. \<exists>l k' a k''. cn_listen net k = Some (Ok l, k') \<and> cn_local_addr net l k' = (Ok a, k'')
      \<and> (\<exists>e k3. mio_tcp_connect sys a k'' = (Err e, k3) \<and> cn_accepted net l k3 = None)"
  shows "run_conformance_suite (mio_bind_ops sys close) net k = None"
proof (rule mio_binds.suite_waits)
  fix k
  from assms [of k] obtain l k' a k'' e k3 where net: "cn_listen net k = Some (Ok l, k')" "cn_local_addr net l k' = (Ok a, k'')"
    "mio_tcp_connect sys a k'' = (Err e, k3)" "cn_accepted net l k3 = None" by blast
  have "mio_connect_tcp sys (bind_config_default\<lparr>bc_addr := a\<rparr>) recv_buf_config_default send_buf_config_default
      ring_config_default affinity_config_default k'' = Some (Err (BindFailed (show_addr a) (err_text e)), k3)"
    by (simp add: mio_connect_tcp_def mio_tcp_connect_to_def mio_tcp_setup_def warn_affinity_def affinity_config_default_def
        only_if_def pure_def and_then_def bind_err_def eff_err_def net(3))
  with net show "spin_tcp_peer_and_connect (mio_bind_ops sys close) net k = None"
    by (simp add: spin_tcp_peer_and_connect_def close_result_def)
qed

definition refusing_os :: "unit os" where
  "refusing_os = quiet_os\<lparr>mio_tcp_connect := (\<lambda>_. fail would_block)\<rparr>"

theorem bind_suite_hangs_without_connection_witness:
  "run_conformance_suite (mio_bind_ops refusing_os (\<lambda>_ k. k)) (sample_conf_net\<lparr>cn_accepted := (\<lambda>_ _. None)\<rparr>) () = None"
  by (rule bind_suite_hangs_without_connection) (simp add: sample_conf_net_def refusing_os_def pure_def fail_def)

end
