(* ===== verification/Transport_Session.thy ===== *)
theory Transport_Session imports Slab_Backend begin

text \<open>
  A client's session with a transport (\<open>MioTransport\<close>, \<open>TokioTransport\<close>): it calls the
  operations of the traits in any order, with any arguments, on a transport of either variant,
  drains its batch, and keeps or drops the frames it got as it likes. The sessions are a step
  relation over the operations of a transport, which are an interface; what holds in every
  session is proved once from its laws and instantiated for both backends.
\<close>

section \<open>Calls and sessions\<close>

datatype client_call =
    CallRecvInto bytes
  | CallReady
  | CallSend bytes
  | CallSendTo bytes socket_addr
  | CallJoin ip_addr multicast_interface

text \<open>\<open>'s\<close> is the transport with its world. \<open>None\<close> is a call that never returns, or panics.\<close>

record 's client_ops =
  cl_recv :: "'s \<Rightarrow> udp_frame frame_batch \<Rightarrow> usize
    \<Rightarrow> ((usize, transport_error) result \<times> 's \<times> udp_frame frame_batch) option"
  cl_call :: "client_call \<Rightarrow> 's \<Rightarrow> ((unit, transport_error) result \<times> 's) option"
  cl_pool :: "'s \<Rightarrow> vec_pool"
  cl_set_pool :: "vec_pool \<Rightarrow> 's \<Rightarrow> 's"
  cl_shape :: "'s \<Rightarrow> string \<times> fd"

record 's session =
  se_source :: 's
  se_batch :: "udp_frame frame_batch"
  se_held :: "udp_frame list"

definition owned :: "'s session \<Rightarrow> udp_frame list" where
  "owned st = frames (se_batch st) @ se_held st"

definition session_start :: "'s \<Rightarrow> usize \<Rightarrow> 's session" where
  "session_start s c = \<lparr>se_source = s, se_batch = batch_with_capacity c, se_held = []\<rparr>"

text \<open>
  A burst into the client's batch, another call, draining the batch into the client's hands, and
  the drop of a frame it holds, which returns the slab.
\<close>

inductive session_step :: "'s client_ops \<Rightarrow> 's session \<Rightarrow> 's session \<Rightarrow> bool" for ops where
  step_recv: "cl_recv ops (se_source st) (se_batch st) mx = Some (r, s', b') \<Longrightarrow>
    session_step ops st (st\<lparr>se_source := s', se_batch := b'\<rparr>)"
| step_call: "cl_call ops c (se_source st) = Some (r, s') \<Longrightarrow> session_step ops st (st\<lparr>se_source := s'\<rparr>)"
| step_drain: "batch_drain (se_batch st) = (fs, b') \<Longrightarrow>
    session_step ops st (st\<lparr>se_batch := b', se_held := se_held st @ fs\<rparr>)"
| step_drop: "se_held st = xs @ f # ys \<Longrightarrow>
    session_step ops st (st\<lparr>se_source := cl_set_pool ops (drop_frame f (cl_pool ops (se_source st))) (se_source st),
      se_held := xs @ ys\<rparr>)"

section \<open>What the client relies on\<close>

definition session_inv :: "'s client_ops \<Rightarrow> 's \<Rightarrow> 's session \<Rightarrow> bool" where
  "session_inv ops s0 st \<longleftrightarrow>
     cl_shape ops (se_source st) = cl_shape ops s0
     \<and> same_dims (cl_pool ops (se_source st)) (cl_pool ops s0)
     \<and> pool_ok (cl_pool ops (se_source st)) (mset (map frame_slot (owned st)))
     \<and> batch_ok (se_batch st)
     \<and> (\<forall>f \<in> set (owned st). readable_frame (cl_pool ops (se_source st)) f)"

text \<open>
  The frames a client has own what is out of the pool: their slots are apart, \<open>in_use\<close> counts
  them, no other slab is out, and each of them reads, within the slab width.
\<close>

definition frames_own :: "vec_pool \<Rightarrow> udp_frame list \<Rightarrow> bool" where
  "frames_own p fs \<longleftrightarrow> distinct (map frame_slot fs) \<and> unat (pool_in_use p) = length fs
     \<and> pool_ok p (mset (map frame_slot fs)) \<and> (\<forall>f \<in> set fs. readable_frame p f)"

lemma frames_ownI:
  "pool_ok p (mset (map frame_slot fs)) \<Longrightarrow> \<forall>f \<in> set fs. readable_frame p f \<Longrightarrow> frames_own p fs"
  using pool_ok_in_use [of p "mset (map frame_slot fs)"] pool_ok_distinct [of p "map frame_slot fs"]
  by (simp add: frames_own_def del: mset_map)

locale transport_client =
  fixes ops :: "'s client_ops"
    and lawful :: bool
  assumes recv_law: "lawful \<Longrightarrow> pool_ok (cl_pool ops s) L \<Longrightarrow> batch_ok b \<Longrightarrow>
      \<exists>r s' fs. cl_recv ops s b mx = Some (r, s', b\<lparr>frames := frames b @ fs\<rparr>)
        \<and> batch_ok (b\<lparr>frames := frames b @ fs\<rparr>)
        \<and> cl_shape ops s' = cl_shape ops s \<and> same_dims (cl_pool ops s') (cl_pool ops s)
        \<and> pool_ok (cl_pool ops s') (L + mset (map frame_slot fs))
        \<and> (\<forall>f \<in> set fs. readable_frame (cl_pool ops s') f)
        \<and> (\<forall>sl. slab_index sl \<in># L \<longrightarrow> slab_as_ref (cl_pool ops s') sl = slab_as_ref (cl_pool ops s) sl)"
    and call_law: "cl_call ops c s = Some (r, s') \<Longrightarrow> cl_pool ops s' = cl_pool ops s \<and> cl_shape ops s' = cl_shape ops s"
    and set_pool_law: "cl_pool ops (cl_set_pool ops p s) = p \<and> cl_shape ops (cl_set_pool ops p s) = cl_shape ops s"
begin

text \<open>One step keeps the invariant, and what every frame that stays reads.\<close>

lemma step_keeps:
  assumes "lawful" and "session_step ops st st'" and "session_inv ops s0 st"
  shows "session_inv ops s0 st'"
    and "\<And>f. f \<in> set (owned st) \<Longrightarrow> f \<in> set (owned st') \<Longrightarrow>
      frame_payload (cl_pool ops (se_source st')) f = frame_payload (cl_pool ops (se_source st)) f"
proof -
  let ?L = "mset (map frame_slot (owned st))" and ?p = "cl_pool ops (se_source st)"
  from assms(3) have I: "cl_shape ops (se_source st) = cl_shape ops s0" "same_dims ?p (cl_pool ops s0)"
    "pool_ok ?p ?L" "batch_ok (se_batch st)" "\<forall>f \<in> set (owned st). readable_frame ?p f"
    by (simp_all add: session_inv_def)
  from assms(2) have "session_inv ops s0 st' \<and> (\<forall>f. f \<in> set (owned st) \<longrightarrow> f \<in> set (owned st') \<longrightarrow>
      frame_payload (cl_pool ops (se_source st')) f = frame_payload ?p f)"
  proof cases
    case (step_recv mx r s' b')
    from recv_law [OF assms(1) I(3,4), of mx] step_recv(2) obtain fs where r: "b' = se_batch st\<lparr>frames := frames (se_batch st) @ fs\<rparr>"
      "batch_ok b'" "cl_shape ops s' = cl_shape ops (se_source st)" "same_dims (cl_pool ops s') ?p"
      "pool_ok (cl_pool ops s') (?L + mset (map frame_slot fs))" "\<forall>f \<in> set fs. readable_frame (cl_pool ops s') f"
      "\<forall>sl. slab_index sl \<in># ?L \<longrightarrow> slab_as_ref (cl_pool ops s') sl = slab_as_ref ?p sl" by auto
    have old: "frame_payload (cl_pool ops s') f = frame_payload ?p f" if "f \<in> set (owned st)" for f
      using that r(7) by (simp add: frame_payload_def)
    have own: "set (owned st') = set (owned st) \<union> set fs"
      "mset (map frame_slot (owned st')) = ?L + mset (map frame_slot fs)"
      by (auto simp: step_recv(1) owned_def r(1))
    have "readable_frame (cl_pool ops s') f" if "f \<in> set (owned st)" for f
      using readable_frame_cong [OF old [OF that]] I(5) that r(4) by (simp add: same_dims_def)
    with r own I old show ?thesis
      by (auto simp: session_inv_def step_recv(1) same_dims_def simp del: mset_map)
  next
    case (step_call c r s')
    from call_law [OF step_call(2)] I show ?thesis
      by (simp add: session_inv_def step_call(1) owned_def)
  next
    case (step_drain fs b')
    then have b: "fs = frames (se_batch st)" "frames b' = []" "batch_ok b'"
      using frames_drain [of "se_batch st"] by simp_all
    with I show ?thesis by (auto simp: session_inv_def step_drain(1) owned_def ac_simps)
  next
    case (step_drop xs f ys)
    let ?q = "drop_frame f ?p"
    have pool: "slab_size ?q = slab_size ?p" "pool_capacity ?q = pool_capacity ?p"
      "\<And>g. frame_payload ?q g = frame_payload ?p g"
      by (simp_all add: drop_frame_def drop_slab_def pool_capacity_def frame_payload_def)
    have own: "?L = add_mset (frame_slot f) (mset (map frame_slot (owned st')))" "set (owned st') \<subseteq> set (owned st)"
      by (auto simp: owned_def step_drop)
    have "pool_ok ?q (?L - {#frame_slot f#})"
      unfolding drop_frame_def by (rule drop_slab_ok [OF I(3)]) (simp only: own union_single_eq_member)
    then have "pool_ok ?q (mset (map frame_slot (owned st')))" by (simp add: own(1) del: mset_map)
    with set_pool_law [of ?q "se_source st"] I own(2) pool show ?thesis
      by (auto simp: session_inv_def step_drop(1) readable_frame_def same_dims_def simp del: mset_map)
  qed
  then show "session_inv ops s0 st'"
    and "\<And>f. f \<in> set (owned st) \<Longrightarrow> f \<in> set (owned st') \<Longrightarrow>
      frame_payload (cl_pool ops (se_source st')) f = frame_payload ?p f" by blast+
qed

lemma session_keeps:
  assumes "lawful" and "(session_step ops)\<^sup>*\<^sup>* st st'" and "session_inv ops s0 st"
  shows "session_inv ops s0 st'"
  using assms(2,3) by (induction rule: rtranclp_induct) (auto intro: step_keeps(1) [OF assms(1)])

lemma session_start_inv: "pool_ok (cl_pool ops s) {#} \<Longrightarrow> session_inv ops s (session_start s c)"
  by (simp add: session_inv_def session_start_def owned_def)

lemma session_recv:
  assumes "lawful" and "session_inv ops s0 st"
  shows "cl_recv ops (se_source st) (se_batch st) mx \<noteq> None"
proof -
  from assms(2) have "pool_ok (cl_pool ops (se_source st)) (mset (map frame_slot (owned st)))" "batch_ok (se_batch st)"
    by (simp_all add: session_inv_def)
  from recv_law [OF assms(1) this, of mx] show ?thesis by blast
qed

text \<open>While the client keeps a frame, it reads the same bytes, whatever else is done.\<close>

lemma kept_frame_reads:
  assumes "lawful" and "session_inv ops s0 st" and "f \<in> set (owned st)"
    and "(\<lambda>a b. session_step ops a b \<and> f \<in> set (owned b))\<^sup>*\<^sup>* st st'"
  shows "f \<in> set (owned st') \<and> session_inv ops s0 st'
    \<and> frame_payload (cl_pool ops (se_source st')) f = frame_payload (cl_pool ops (se_source st)) f"
  using assms(4)
proof (induction rule: rtranclp_induct)
  case base
  then show ?case using assms(2,3) by simp
next
  case (step a b)
  with step_keeps [OF assms(1), of a b s0] show ?case by simp
qed

text \<open>Both facts from the start of the session.\<close>

lemma session_safe:
  assumes "lawful" and "pool_ok (cl_pool ops s) {#}" and "(session_step ops)\<^sup>*\<^sup>* (session_start s c) st"
  shows "cl_shape ops (se_source st) = cl_shape ops s \<and> same_dims (cl_pool ops (se_source st)) (cl_pool ops s)
    \<and> frames_own (cl_pool ops (se_source st)) (owned st) \<and> (\<forall>mx. cl_recv ops (se_source st) (se_batch st) mx \<noteq> None)"
proof -
  from session_keeps [OF assms(1,3) session_start_inv [OF assms(2)]] have inv: "session_inv ops s st" .
  with session_recv [OF assms(1) inv] show ?thesis
    by (auto simp: session_inv_def intro: frames_ownI simp del: mset_map)
qed

lemma session_frame_kept:
  assumes "lawful" and "pool_ok (cl_pool ops s) {#}" and "(session_step ops)\<^sup>*\<^sup>* (session_start s c) st"
    and "f \<in> set (owned st)" and "(\<lambda>a b. session_step ops a b \<and> f \<in> set (owned b))\<^sup>*\<^sup>* st st'"
  shows "\<exists>d. frame_payload (cl_pool ops (se_source st)) f = Some d
    \<and> frame_payload (cl_pool ops (se_source st')) f = Some d \<and> length d \<le> unat (slab_size (cl_pool ops s))"
proof -
  from session_keeps [OF assms(1,3) session_start_inv [OF assms(2)]] have inv: "session_inv ops s st" .
  from kept_frame_reads [OF assms(1) inv assms(4,5)] inv assms(4) show ?thesis
    by (auto simp: session_inv_def readable_frame_def same_dims_def simp del: mset_map)
qed

end

end
