(* ===== verification/Mio_Session.thy ===== *)
theory Mio_Session imports Mio_Transport Transport_Session begin

text \<open>
  Client sessions with \<open>MioTransport\<close>: every operation of its traits, on a transport that one of
  the constructors returned.
\<close>

section \<open>The operations of a session\<close>

fun mio_set_pool :: "vec_pool \<Rightarrow> mio_transport \<Rightarrow> mio_transport" where
  "mio_set_pool p (MioUdp u) = MioUdp (u\<lparr>mu_pool := p\<rparr>)"
| "mio_set_pool p (MioTcp t) = MioTcp (t\<lparr>mt_pool := p\<rparr>)"

fun mio_socket :: "mio_transport \<Rightarrow> fd" where
  "mio_socket (MioUdp u) = mu_sock u"
| "mio_socket (MioTcp t) = mt_stream t"

fun mio_client_call :: "'k os \<Rightarrow> client_call \<Rightarrow> mio_transport \<times> 'k \<Rightarrow> ((unit, transport_error) result \<times> mio_transport \<times> 'k) option" where
  "mio_client_call sys (CallRecvInto dst) (t, k) =
     (case mio_transport_recv_into sys t dst k of (r, dst', k') \<Rightarrow> Some (map_ok (\<lambda>_. ()) r, t, k'))"
| "mio_client_call sys CallReady (t, k) = mio_ready sys t k"
| "mio_client_call sys (CallSend buf) (t, k) = mio_send sys t buf k"
| "mio_client_call sys (CallSendTo buf a) (t, k) = map_option (\<lambda>(r, k'). (r, t, k')) (mio_send_to sys t buf a k)"
| "mio_client_call sys (CallJoin grp iface) (t, k) =
     (case mio_transport_join_multicast sys t grp iface k of (r, k') \<Rightarrow> Some (r, t, k'))"

definition mio_client :: "'k os \<Rightarrow> (mio_transport \<times> 'k) client_ops" where
  "mio_client sys = \<lparr>
     cl_recv = (\<lambda>(t, k) b mx. map_option (\<lambda>(r, t', b', k'). (r, (t', k'), b')) (mio_transport_recv_burst sys t b mx k)),
     cl_call = mio_client_call sys,
     cl_pool = (\<lambda>(t, k). mio_pool t), cl_set_pool = (\<lambda>p (t, k). (mio_set_pool p t, k)),
     cl_shape = (\<lambda>(t, k). (mio_name t, mio_socket t))\<rparr>"

lemma mio_client_sels [simp]:
  "cl_recv (mio_client sys) (t, k) b mx = map_option (\<lambda>(r, t', b', k'). (r, (t', k'), b')) (mio_transport_recv_burst sys t b mx k)"
  "cl_call (mio_client sys) = mio_client_call sys" "cl_pool (mio_client sys) (t, k) = mio_pool t"
  "cl_set_pool (mio_client sys) p (t, k) = (mio_set_pool p t, k)" "cl_shape (mio_client sys) (t, k) = (mio_name t, mio_socket t)"
  by (simp_all add: mio_client_def)

lemma mio_call_keeps:
  "mio_client_call sys c (t, k) = Some (r, t', k') \<Longrightarrow>
     mio_pool t' = mio_pool t \<and> mio_name t' = mio_name t \<and> mio_socket t' = mio_socket t"
  by (cases c; cases t)
     (auto simp: mio_udp_ready_def mio_tcp_ready_def mio_tcp_send_def fail_def split: prod.splits option.splits)

lemma mio_client_recv:
  assumes "\<forall>s. fits_buffer (mio_recv_from sys s)" and "pool_ok (mio_pool t) L" and "batch_ok b"
  shows "\<exists>r t' fs k'. mio_transport_recv_burst sys t b mx k = Some (r, t', b\<lparr>frames := frames b @ fs\<rparr>, k')
    \<and> batch_ok (b\<lparr>frames := frames b @ fs\<rparr>) \<and> mio_name t' = mio_name t \<and> mio_socket t' = mio_socket t
    \<and> same_dims (mio_pool t') (mio_pool t) \<and> pool_ok (mio_pool t') (L + mset (map frame_slot fs))
    \<and> (\<forall>f \<in> set fs. readable_frame (mio_pool t') f)
    \<and> (\<forall>sl. slab_index sl \<in># L \<longrightarrow> slab_as_ref (mio_pool t') sl = slab_as_ref (mio_pool t) sl)"
proof (cases t)
  case (MioTcp c)
  with assms(2,3) show ?thesis
    by (intro exI [of _ "Err _"] exI [of _ t] exI [of _ "[]"] exI [of _ k]) simp
next
  case (MioUdp u)
  have "pool_ok (mu_pool u) L" "fits_buffer (mio_rf sys u)" using assms(1,2) MioUdp by (simp_all add: mio_rf_def)
  from mio.client_burst [OF this(1) assms(3) this(2), of mx k] obtain r p lp fs k' where b:
    "mio_recv_burst sys u b mx k = Some (r, mio_update p lp u, b\<lparr>frames := frames b @ fs\<rparr>, k')"
    "batch_ok (b\<lparr>frames := frames b @ fs\<rparr>)" "same_dims p (mu_pool u)"
    "pool_ok p (L + mset (map frame_slot fs))" "\<forall>f \<in> set fs. readable_frame p f"
    "\<forall>sl. slab_index sl \<in># L \<longrightarrow> slab_as_ref p sl = slab_as_ref (mu_pool u) sl" by metis
  then show ?thesis
    by (intro exI [of _ r] exI [of _ "MioUdp (mio_update p lp u)"] exI [of _ fs] exI [of _ k'])
       (simp add: MioUdp del: mset_map)
qed

interpretation mio_session: transport_client "mio_client sys" "\<forall>s. fits_buffer (mio_recv_from sys s)"
proof (unfold_locales, goal_cases)
  case (1 s L b mx)
  obtain t k where s: "s = (t, k)" by (cases s)
  from mio_client_recv [OF 1(1) _ 1(3), of t L mx k] 1(2) obtain r t' fs k' where
    "mio_transport_recv_burst sys t b mx k = Some (r, t', b\<lparr>frames := frames b @ fs\<rparr>, k')"
    "batch_ok (b\<lparr>frames := frames b @ fs\<rparr>)" "mio_name t' = mio_name t" "mio_socket t' = mio_socket t"
    "same_dims (mio_pool t') (mio_pool t)" "pool_ok (mio_pool t') (L + mset (map frame_slot fs))"
    "\<forall>f \<in> set fs. readable_frame (mio_pool t') f"
    "\<forall>sl. slab_index sl \<in># L \<longrightarrow> slab_as_ref (mio_pool t') sl = slab_as_ref (mio_pool t) sl"
    by (auto simp: s simp del: mset_map)
  then show ?case
    by (intro exI [of _ r] exI [of _ "(t', k')"] exI [of _ fs]) (simp add: s del: mset_map)
next
  case (2 c s r s')
  obtain t k t' k' where s: "s = (t, k)" "s' = (t', k')" by (cases s, cases s')
  with 2 mio_call_keeps [of sys c t k r t' k'] show ?case by simp
next
  case (3 p s)
  obtain t k where s: "s = (t, k)" by (cases s)
  then show ?case by (cases t) simp_all
qed

section \<open>Constructed transports\<close>

definition mio_constructed :: "'k os \<Rightarrow> mio_transport \<Rightarrow> 'k \<Rightarrow> bool" where
  "mio_constructed sys t k \<longleftrightarrow>
     (\<exists>bind rx tx ring batch affinity k0. mio_bind_udp sys bind rx tx ring batch affinity k0 = Some (Ok t, k))
     \<or> (\<exists>bind rx tx ring affinity k0. mio_connect_tcp sys bind rx tx ring affinity k0 = Some (Ok t, k))"

lemma wait_connect_pool: "wait_connect sys t k = Some (r, t', k') \<Longrightarrow> mt_pool t' = mt_pool t"
  by (auto simp: wait_connect_def split: prod.splits option.splits)

lemma mio_bind_pool:
  "mio_udp_bind sys bind rx tx ring batch affinity k0 = Some (Ok u, k) \<Longrightarrow>
     build_pool (slab_count ring) (rc_slab_size ring) = Some (mu_pool u)"
  by (auto simp: mio_udp_bind_def split: prod.splits result.splits option.splits)

lemma mio_connect_pool:
  "mio_tcp_connect_to sys bind rx tx ring affinity k0 = Some (Ok t, k) \<Longrightarrow>
     build_pool (slab_count ring) (rc_slab_size ring) = Some (mt_pool t)"
  by (auto simp: mio_tcp_connect_to_def dest!: wait_connect_pool split: prod.splits result.splits option.splits)

lemma mio_constructed_pool:
  assumes "mio_constructed sys t k"
  shows "pool_ok (mio_pool t) {#}"
proof -
  have "\<exists>c w. build_pool c w = Some (mio_pool t)"
    using assms unfolding mio_constructed_def mio_bind_udp_def mio_connect_tcp_def
    by auto (blast dest: mio_bind_pool mio_connect_pool)+
  with build_pool_ok show ?thesis by blast
qed

lemma mio_sample_constructed: "mio_constructed queue_os (MioUdp sample_mio) sample_queue"
proof -
  have "mio_bind_udp queue_os bind_config_default recv_buf_config_default send_buf_config_default small_ring
      batch_config_default affinity_config_default sample_queue = Some (Ok (MioUdp sample_mio), sample_queue)"
    by (simp add: mio_bind_udp_def mio_udp_bind_def mio_udp_setup_def warn_affinity_def affinity_config_default_def
        recv_buf_config_default_def send_buf_config_default_def mio_apply_socket_opts_def build_small queue_os_def eff_simps
        bind_config_default_def batch_config_default_def sample_mio_def)
  then show ?thesis unfolding mio_constructed_def by blast
qed

end
