(* ===== verification/Tokio_Session.thy ===== *)
theory Tokio_Session imports Tokio_Transport Transport_Session begin

text \<open>
  Client sessions with \<open>TokioTransport\<close>: every operation of its traits, on a transport that one of
  the constructors returned.
\<close>

section \<open>The operations of a session\<close>

fun tokio_set_pool :: "vec_pool \<Rightarrow> tokio_transport \<Rightarrow> tokio_transport" where
  "tokio_set_pool p (TokioUdp u) = TokioUdp (u\<lparr>tu_pool := p\<rparr>)"
| "tokio_set_pool p (TokioTcp t) = TokioTcp (t\<lparr>tt_pool := p\<rparr>)"

fun tokio_socket :: "tokio_transport \<Rightarrow> fd" where
  "tokio_socket (TokioUdp u) = tu_sock u"
| "tokio_socket (TokioTcp t) = tt_stream t"

fun tokio_client_call :: "'k os \<Rightarrow> client_call \<Rightarrow> tokio_transport \<times> 'k \<Rightarrow> ((unit, transport_error) result \<times> tokio_transport \<times> 'k) option" where
  "tokio_client_call sys (CallRecvInto dst) (t, k) =
     (case tokio_transport_recv_into sys t dst k of (r, dst', k') \<Rightarrow> Some (map_ok (\<lambda>_. ()) r, t, k'))"
| "tokio_client_call sys CallReady (t, k) = map_option (\<lambda>(r, k'). (r, t, k')) (tokio_ready sys t k)"
| "tokio_client_call sys (CallSend buf) (t, k) = map_option (\<lambda>(r, k'). (r, t, k')) (tokio_send sys t buf k)"
| "tokio_client_call sys (CallSendTo buf a) (t, k) = map_option (\<lambda>(r, k'). (r, t, k')) (tokio_send_to sys t buf a k)"
| "tokio_client_call sys (CallJoin grp iface) (t, k) =
     (case tokio_transport_join_multicast sys t grp iface k of (r, k') \<Rightarrow> Some (r, t, k'))"

definition tokio_client :: "'k os \<Rightarrow> (tokio_transport \<times> 'k) client_ops" where
  "tokio_client sys = \<lparr>
     cl_recv = (\<lambda>(t, k) b mx. map_option (\<lambda>(r, t', b', k'). (r, (t', k'), b')) (tokio_transport_recv_burst sys t b mx k)),
     cl_call = tokio_client_call sys,
     cl_pool = (\<lambda>(t, k). tokio_pool t), cl_set_pool = (\<lambda>p (t, k). (tokio_set_pool p t, k)),
     cl_shape = (\<lambda>(t, k). (tokio_name t, tokio_socket t))\<rparr>"

lemma tokio_client_sels [simp]:
  "cl_recv (tokio_client sys) (t, k) b mx = map_option (\<lambda>(r, t', b', k'). (r, (t', k'), b')) (tokio_transport_recv_burst sys t b mx k)"
  "cl_call (tokio_client sys) = tokio_client_call sys" "cl_pool (tokio_client sys) (t, k) = tokio_pool t"
  "cl_set_pool (tokio_client sys) p (t, k) = (tokio_set_pool p t, k)" "cl_shape (tokio_client sys) (t, k) = (tokio_name t, tokio_socket t)"
  by (simp_all add: tokio_client_def)

lemma tokio_call_keeps:
  "tokio_client_call sys c (t, k) = Some (r, t', k') \<Longrightarrow>
     tokio_pool t' = tokio_pool t \<and> tokio_name t' = tokio_name t \<and> tokio_socket t' = tokio_socket t"
  by (cases c; cases t)
     (auto simp: fail_def split: prod.splits option.splits)

lemma tokio_client_recv:
  assumes "\<forall>s. s2_fits sys s" and "pool_ok (tokio_pool t) L" and "batch_ok b"
  shows "\<exists>r t' fs k'. tokio_transport_recv_burst sys t b mx k = Some (r, t', b\<lparr>frames := frames b @ fs\<rparr>, k')
    \<and> batch_ok (b\<lparr>frames := frames b @ fs\<rparr>) \<and> tokio_name t' = tokio_name t \<and> tokio_socket t' = tokio_socket t
    \<and> same_dims (tokio_pool t') (tokio_pool t) \<and> pool_ok (tokio_pool t') (L + mset (map frame_slot fs))
    \<and> (\<forall>f \<in> set fs. readable_frame (tokio_pool t') f)
    \<and> (\<forall>sl. slab_index sl \<in># L \<longrightarrow> slab_as_ref (tokio_pool t') sl = slab_as_ref (tokio_pool t) sl)"
proof (cases t)
  case (TokioTcp c)
  with assms(2,3) show ?thesis
    by (intro exI [of _ "Err _"] exI [of _ t] exI [of _ "[]"] exI [of _ k]) simp
next
  case (TokioUdp u)
  have "pool_ok (tu_pool u) L" "fits_buffer (tokio_rf sys u)" using assms(1,2) TokioUdp by (simp_all add: s2_fits_rf)
  from tokio.client_burst [OF this(1) assms(3) this(2), of mx k] obtain r p lp fs k' where b:
    "tokio_recv_burst sys u b mx k = Some (r, tokio_update p lp u, b\<lparr>frames := frames b @ fs\<rparr>, k')"
    "batch_ok (b\<lparr>frames := frames b @ fs\<rparr>)" "same_dims p (tu_pool u)"
    "pool_ok p (L + mset (map frame_slot fs))" "\<forall>f \<in> set fs. readable_frame p f"
    "\<forall>sl. slab_index sl \<in># L \<longrightarrow> slab_as_ref p sl = slab_as_ref (tu_pool u) sl" by metis
  then show ?thesis
    by (intro exI [of _ r] exI [of _ "TokioUdp (tokio_update p lp u)"] exI [of _ fs] exI [of _ k'])
       (simp add: TokioUdp del: mset_map)
qed

interpretation tokio_session: transport_client "tokio_client sys" "\<forall>s. s2_fits sys s"
proof (unfold_locales, goal_cases)
  case (1 s L b mx)
  obtain t k where s: "s = (t, k)" by (cases s)
  from tokio_client_recv [OF 1(1) _ 1(3), of t L mx k] 1(2) obtain r t' fs k' where
    "tokio_transport_recv_burst sys t b mx k = Some (r, t', b\<lparr>frames := frames b @ fs\<rparr>, k')"
    "batch_ok (b\<lparr>frames := frames b @ fs\<rparr>)" "tokio_name t' = tokio_name t" "tokio_socket t' = tokio_socket t"
    "same_dims (tokio_pool t') (tokio_pool t)" "pool_ok (tokio_pool t') (L + mset (map frame_slot fs))"
    "\<forall>f \<in> set fs. readable_frame (tokio_pool t') f"
    "\<forall>sl. slab_index sl \<in># L \<longrightarrow> slab_as_ref (tokio_pool t') sl = slab_as_ref (tokio_pool t) sl"
    by (auto simp: s simp del: mset_map)
  then show ?case
    by (intro exI [of _ r] exI [of _ "(t', k')"] exI [of _ fs]) (simp add: s del: mset_map)
next
  case (2 c s r s')
  obtain t k t' k' where s: "s = (t, k)" "s' = (t', k')" by (cases s, cases s')
  with 2 tokio_call_keeps [of sys c t k r t' k'] show ?case by simp
next
  case (3 p s)
  obtain t k where s: "s = (t, k)" by (cases s)
  then show ?case by (cases t) simp_all
qed

section \<open>Constructed transports\<close>

definition tokio_constructed :: "'k os \<Rightarrow> tokio_transport \<Rightarrow> 'k \<Rightarrow> bool" where
  "tokio_constructed sys t k \<longleftrightarrow>
     (\<exists>bind rx tx ring batch affinity k0. tokio_bind_udp sys bind rx tx ring batch affinity k0 = Some (Ok t, k))
     \<or> (\<exists>bind rx tx ring affinity k0. tokio_connect_tcp sys bind rx tx ring affinity k0 = Some (Ok t, k))"

lemma tokio_bind_pool:
  "tokio_udp_bind sys bind rx tx ring batch affinity k0 = Some (Ok u, k) \<Longrightarrow>
     build_pool (slab_count ring) (rc_slab_size ring) = Some (tu_pool u)"
  by (auto simp: tokio_udp_bind_def split: prod.splits result.splits option.splits)

lemma tokio_connect_pool:
  "tokio_tcp_connect_to sys bind rx tx ring affinity k0 = Some (Ok t, k) \<Longrightarrow>
     build_pool (slab_count ring) (rc_slab_size ring) = Some (tt_pool t)"
  by (auto simp: tokio_tcp_connect_to_def split: prod.splits result.splits option.splits)

lemma tokio_constructed_pool:
  assumes "tokio_constructed sys t k"
  shows "pool_ok (tokio_pool t) {#}"
proof -
  have "\<exists>c w. build_pool c w = Some (tokio_pool t)"
    using assms unfolding tokio_constructed_def tokio_bind_udp_def tokio_connect_tcp_def
    by auto (blast dest: tokio_bind_pool tokio_connect_pool)+
  with build_pool_ok show ?thesis by blast
qed

lemma tokio_sample_constructed: "tokio_constructed queue_os (TokioUdp sample_tokio) sample_queue"
proof -
  have "tokio_bind_udp queue_os bind_config_default recv_buf_config_default send_buf_config_default small_ring
      batch_config_default affinity_config_default sample_queue = Some (Ok (TokioUdp sample_tokio), sample_queue)"
    by (simp add: tokio_bind_udp_def tokio_udp_bind_def tokio_udp_setup_def tokio_warn_affinity_def affinity_config_default_def
        recv_buf_config_default_def send_buf_config_default_def tokio_apply_socket_opts_def create_socket_def apply_busy_poll_def apply_rxq_ovfl_def
        apply_timestamping_def build_small queue_os_def eff_simps
        bind_config_default_def batch_config_default_def sample_tokio_def)
  then show ?thesis unfolding tokio_constructed_def by blast
qed

lemma tokio_sample_burst:
  obtains p f where "tokio_recv_burst queue_os sample_tokio (batch_with_capacity 4) 1 sample_queue =
      Some (Ok 1, sample_tokio\<lparr>tu_pool := p, tu_last_peer := Some peer1\<rparr>,
            batch_with_capacity 4\<lparr>frames := [f]\<rparr>, tl sample_queue)" "frame_payload p f = Some [1, 2]"
proof -
  have free: "free_list (tu_pool sample_tokio) \<noteq> [] \<or> min 1 (batch_spare (batch_with_capacity 4 :: udp_frame frame_batch)) = 0"
    by (simp add: sample_pool_def)
  have "burst_budget sample_pool (batch_with_capacity 4) 1 = 1"
    by (simp add: burst_budget_def sample_pool_def)
  then have reap: "reap (tokio_rf queue_os sample_tokio) (unat (slab_size (tu_pool sample_tokio)))
      (burst_budget (tu_pool sample_tokio) (batch_with_capacity 4) 1) sample_queue
    = ([([1, 2], peer1)], None, tl sample_queue)"
    by (simp add: sample_queue_def sample_width)
  from tokio.reaps [OF _ batch_ok_new _ free reap, of "{#}"] sample_pool_ok queue_recv_fits show ?thesis
    by (auto simp: stop_ok_def bump_peer_def frames_hold_def map_eq_Cons_conv intro!: that)
qed

end
