(* ===== verification/Session_Props.thy ===== *)
theory Session_Props imports Mio_Session Tokio_Session begin

text \<open>What every client session with a transport of either backend can rely on.\<close>

text \<open>
  C5: Sessions are well typed. Whatever a client does with a transport that a constructor of
  either backend returned, in any order, it keeps its variant, its socket and the dimensions of
  its pool; the slabs out are exactly those of the frames the client has, each once, and
  \<open>in_use\<close> counts them; each of those frames reads, within the slab width; and the next burst
  cannot panic.
\<close>

theorem sessions_type_safe:
  assumes "mio_constructed sys m k" and "\<forall>s. fits_buffer (mio_recv_from sys s)"
    and "(session_step (mio_client sys))\<^sup>*\<^sup>* (session_start (m, k) c) sm"
    and "tokio_constructed sys t l" and "\<forall>s. s2_fits sys s"
    and "(session_step (tokio_client sys))\<^sup>*\<^sup>* (session_start (t, l) d) st"
  shows "(\<exists>m' k'. se_source sm = (m', k') \<and> mio_name m' = mio_name m \<and> mio_socket m' = mio_socket m
      \<and> same_dims (mio_pool m') (mio_pool m) \<and> frames_own (mio_pool m') (owned sm)
      \<and> (\<forall>mx. mio_transport_recv_burst sys m' (se_batch sm) mx k' \<noteq> None))
    \<and> (\<exists>t' l'. se_source st = (t', l') \<and> tokio_name t' = tokio_name t \<and> tokio_socket t' = tokio_socket t
      \<and> same_dims (tokio_pool t') (tokio_pool t) \<and> frames_own (tokio_pool t') (owned st)
      \<and> (\<forall>mx. tokio_transport_recv_burst sys t' (se_batch st) mx l' \<noteq> None))"
proof -
  obtain m' k' t' l' where s: "se_source sm = (m', k')" "se_source st = (t', l')"
    by (cases "se_source sm", cases "se_source st")
  have "pool_ok (cl_pool (mio_client sys) (m, k)) {#}" by (simp add: mio_constructed_pool [OF assms(1)])
  note mio_safe = mio_session.session_safe [OF assms(2) this assms(3), unfolded s(1)]
  have "pool_ok (cl_pool (tokio_client sys) (t, l)) {#}" by (simp add: tokio_constructed_pool [OF assms(4)])
  note tokio_safe = tokio_session.session_safe [OF assms(5) this assms(6), unfolded s(2)]
  show ?thesis using mio_safe tokio_safe s by auto
qed

text \<open>A session on the mio transport that has received two datagrams.\<close>

lemma mio_sample_session:
  obtains st where "(session_step (mio_client queue_os))\<^sup>*\<^sup>* (session_start (MioUdp sample_mio, sample_queue) 4) st"
    "owned st \<noteq> []"
proof -
  let ?s0 = "session_start (MioUdp sample_mio, sample_queue) 4"
  obtain p fs where b: "mio_recv_burst queue_os sample_mio (batch_with_capacity 4) 8 sample_queue =
      Some (Ok 2, sample_mio\<lparr>mu_pool := p, mu_last_peer := Some peer2\<rparr>,
            batch_with_capacity 4\<lparr>frames := fs\<rparr>, [([4, 5, 6, 7, 8], peer1)])" "fs \<noteq> []"
  proof -
    have free: "free_list (mu_pool sample_mio) \<noteq> [] \<or> min 8 (batch_spare (batch_with_capacity 4 :: udp_frame frame_batch)) = 0"
      by (simp add: sample_pool_def)
    have reap: "reap (mio_rf queue_os sample_mio) (unat (slab_size (mu_pool sample_mio)))
        (burst_budget (mu_pool sample_mio) (batch_with_capacity 4) 8) sample_queue
      = ([([1, 2], peer1), ([3], peer2)], None, [([4, 5, 6, 7, 8], peer1)])"
      using sample_reap by (simp add: sample_burst_budget)
    from mio.reaps [OF _ batch_ok_new _ free reap, of "{#}"] sample_pool_ok queue_recv_fits show ?thesis
      by (auto simp: stop_ok_def bump_peer_def frames_hold_def map_eq_Cons_conv sample_mio_def intro!: that)
  qed
  let ?st = "?s0\<lparr>se_source := (MioUdp (sample_mio\<lparr>mu_pool := p, mu_last_peer := Some peer2\<rparr>), [([4, 5, 6, 7, 8], peer1)]),
      se_batch := batch_with_capacity 4\<lparr>frames := fs\<rparr>\<rparr>"
  have "session_step (mio_client queue_os) ?s0 ?st"
    by (rule step_recv [where mx = 8]) (simp add: session_start_def b(1))
  then have "(session_step (mio_client queue_os))\<^sup>*\<^sup>* ?s0 ?st" by blast
  moreover have "owned ?st \<noteq> []" using b(2) by (simp add: owned_def)
  ultimately show ?thesis by (rule that)
qed

text \<open>A session on the tokio transport that has received a datagram and taken it out of its batch.\<close>

lemma tokio_sample_session:
  obtains st st' f where
    "(session_step (tokio_client queue_os))\<^sup>*\<^sup>* (session_start (TokioUdp sample_tokio, sample_queue) 4) st"
    "session_step (tokio_client queue_os) st st'" "f \<in> set (owned st)" "se_held st = []" "se_held st' = [f]"
    "frame_payload (tokio_pool (fst (se_source st))) f = Some [1, 2]"
proof -
  let ?s0 = "session_start (TokioUdp sample_tokio, sample_queue) 4"
  from tokio_sample_burst obtain p f where b: "tokio_recv_burst queue_os sample_tokio (batch_with_capacity 4) 1 sample_queue =
      Some (Ok 1, sample_tokio\<lparr>tu_pool := p, tu_last_peer := Some peer1\<rparr>,
            batch_with_capacity 4\<lparr>frames := [f]\<rparr>, tl sample_queue)" "frame_payload p f = Some [1, 2]" .
  let ?st = "?s0\<lparr>se_source := (TokioUdp (sample_tokio\<lparr>tu_pool := p, tu_last_peer := Some peer1\<rparr>), tl sample_queue),
      se_batch := batch_with_capacity 4\<lparr>frames := [f]\<rparr>\<rparr>"
  let ?st' = "?st\<lparr>se_batch := snd (batch_drain (se_batch ?st)), se_held := se_held ?st @ fst (batch_drain (se_batch ?st))\<rparr>"
  have "session_step (tokio_client queue_os) ?s0 ?st"
    by (rule step_recv [where mx = 1]) (simp add: session_start_def b(1))
  then have reach: "(session_step (tokio_client queue_os))\<^sup>*\<^sup>* ?s0 ?st" by blast
  have next_step: "session_step (tokio_client queue_os) ?st ?st'" by (rule step_drain) (simp add: prod_eq_iff)
  show ?thesis
    by (rule that [OF reach next_step, of f]) (simp_all add: owned_def session_start_def b(2))
qed

theorem sessions_type_safe_witness:
  "(\<exists>sm. (session_step (mio_client queue_os))\<^sup>*\<^sup>* (session_start (MioUdp sample_mio, sample_queue) 4) sm
      \<and> owned sm \<noteq> [] \<and> frames_own (mio_pool (fst (se_source sm))) (owned sm))
   \<and> (\<exists>st. (session_step (tokio_client queue_os))\<^sup>*\<^sup>* (session_start (TokioUdp sample_tokio, sample_queue) 4) st
      \<and> owned st \<noteq> [] \<and> frames_own (tokio_pool (fst (se_source st))) (owned st))"
proof -
  from mio_sample_session obtain sm where
    m: "(session_step (mio_client queue_os))\<^sup>*\<^sup>* (session_start (MioUdp sample_mio, sample_queue) 4) sm" "owned sm \<noteq> []" .
  from tokio_sample_session obtain st f where
    t: "(session_step (tokio_client queue_os))\<^sup>*\<^sup>* (session_start (TokioUdp sample_tokio, sample_queue) 4) st" "f \<in> set (owned st)" .
  have fits: "\<forall>s. fits_buffer (mio_recv_from queue_os s)" "\<forall>s. s2_fits queue_os s"
    using queue_recv_fits s2_fits_queue_os by simp_all
  from sessions_type_safe [OF mio_sample_constructed fits(1) m(1) tokio_sample_constructed fits(2) t(1)]
  have "frames_own (mio_pool (fst (se_source sm))) (owned sm)" "frames_own (tokio_pool (fst (se_source st))) (owned st)" by auto
  moreover have "owned st \<noteq> []" using t(2) by auto
  ultimately show ?thesis using m t(1) by blast
qed

text \<open>
  C22: A frame is its owner's. From the burst that delivered it until the client drops it, a frame
  received from a transport of either backend reads the same bytes, within the slab width,
  whatever else the client does: further bursts, drops of other frames, sends, waits and stream
  calls.
\<close>

theorem kept_frames_read:
  assumes "mio_constructed sys m k" and "\<forall>s. fits_buffer (mio_recv_from sys s)"
    and "(session_step (mio_client sys))\<^sup>*\<^sup>* (session_start (m, k) c) sm" and "f \<in> set (owned sm)"
    and "(\<lambda>a b. session_step (mio_client sys) a b \<and> f \<in> set (owned b))\<^sup>*\<^sup>* sm sm'"
    and "tokio_constructed sys t l" and "\<forall>s. s2_fits sys s"
    and "(session_step (tokio_client sys))\<^sup>*\<^sup>* (session_start (t, l) d) st" and "g \<in> set (owned st)"
    and "(\<lambda>a b. session_step (tokio_client sys) a b \<and> g \<in> set (owned b))\<^sup>*\<^sup>* st st'"
  shows "(\<exists>d. frame_payload (mio_pool (fst (se_source sm))) f = Some d
      \<and> frame_payload (mio_pool (fst (se_source sm'))) f = Some d \<and> length d \<le> unat (slab_size (mio_pool m)))
    \<and> (\<exists>d. frame_payload (tokio_pool (fst (se_source st))) g = Some d
      \<and> frame_payload (tokio_pool (fst (se_source st'))) g = Some d \<and> length d \<le> unat (slab_size (tokio_pool t)))"
proof -
  have pool: "cl_pool (mio_client sys) s = mio_pool (fst s)" "cl_pool (tokio_client sys) s' = tokio_pool (fst s')" for s s'
    by (cases s, simp) (cases s', simp)
  have "pool_ok (cl_pool (mio_client sys) (m, k)) {#}" by (simp add: mio_constructed_pool [OF assms(1)])
  from mio_session.session_frame_kept [OF assms(2) this assms(3-5)] have mio_reads:
    "\<exists>d. frame_payload (mio_pool (fst (se_source sm))) f = Some d
      \<and> frame_payload (mio_pool (fst (se_source sm'))) f = Some d \<and> length d \<le> unat (slab_size (mio_pool m))"
    by (simp add: pool)
  have "pool_ok (cl_pool (tokio_client sys) (t, l)) {#}" by (simp add: tokio_constructed_pool [OF assms(6)])
  from tokio_session.session_frame_kept [OF assms(7) this assms(8-10)] mio_reads show ?thesis
    by (simp add: pool)
qed

theorem kept_frames_read_witness:
  "\<exists>st st' f. f \<in> set (owned st) \<and> session_step (tokio_client queue_os) st st' \<and> se_held st = [] \<and> se_held st' = [f]
    \<and> frame_payload (tokio_pool (fst (se_source st'))) f = Some [1, 2]"
proof -
  from mio_sample_session obtain sm where
    m: "(session_step (mio_client queue_os))\<^sup>*\<^sup>* (session_start (MioUdp sample_mio, sample_queue) 4) sm" "owned sm \<noteq> []" .
  from tokio_sample_session obtain st st' f where
    t: "(session_step (tokio_client queue_os))\<^sup>*\<^sup>* (session_start (TokioUdp sample_tokio, sample_queue) 4) st"
    "session_step (tokio_client queue_os) st st'" "f \<in> set (owned st)" "se_held st = []" "se_held st' = [f]"
    "frame_payload (tokio_pool (fst (se_source st))) f = Some [1, 2]" .
  have "f \<in> set (owned st')" using t(5) by (simp add: owned_def)
  with t(2) have kept: "(\<lambda>a b. session_step (tokio_client queue_os) a b \<and> f \<in> set (owned b))\<^sup>*\<^sup>* st st'" by blast
  have fits: "\<forall>s. fits_buffer (mio_recv_from queue_os s)" "\<forall>s. s2_fits queue_os s"
    using queue_recv_fits s2_fits_queue_os by simp_all
  from kept_frames_read [OF mio_sample_constructed fits(1) m(1) _ rtranclp.rtrancl_refl
      tokio_sample_constructed fits(2) t(1,3) kept, of "hd (owned sm)"] m(2) t(6)
  have "frame_payload (tokio_pool (fst (se_source st'))) f = Some [1, 2]" by auto
  with t show ?thesis by blast
qed

end
