(* ===== verification/Async_Ready.thy ===== *)
theory Async_Ready imports Sys begin

text \<open>
  The contract of \<open>AsyncReady\<close> (\<open>crates/core/src/transport.rs\<close>): \<open>ready\<close> resolves when the next
  receive can make progress. Two locales state it for any source with a \<open>ready\<close> and a receive, and
  give what an \<open>.await\<close>-driven receiver relies on. \<open>ready_source\<close>: it never waits while there is
  something to receive, and gets it all in order. \<open>async_ready\<close>: it also never goes round without
  receiving. The first is what a transport can promise whose event source may report spurious
  events, as \<open>mio\<close>'s may; the second needs a probe after the wake-up, which the \<open>tokio\<close> ones have.
\<close>

section \<open>The receiver\<close>

text \<open>
  \<open>n\<close> rounds of \<open>ready().await\<close> and a receive: what each round received, and the source. \<open>None\<close>
  when an await never completes, \<open>ready\<close> fails or the receive does.
\<close>

fun serve ::
  "('s \<Rightarrow> ((unit, transport_error) result \<times> 's) option) \<Rightarrow> ('s \<Rightarrow> ('a list \<times> 's) option) \<Rightarrow> nat \<Rightarrow> 's
     \<Rightarrow> ('a list list \<times> 's) option"
where
  "serve ready recv 0 s = Some ([], s)"
| "serve ready recv (Suc n) s =
     (case ready s of
        Some (Ok _, s1) \<Rightarrow>
          (case recv s1 of
             None \<Rightarrow> None
           | Some (xs, s2) \<Rightarrow> map_option (\<lambda>(xss, t). (xs # xss, t)) (serve ready recv n s2))
      | _ \<Rightarrow> None)"

text \<open>
  The receiver of a source that has \<open>ds\<close> ready keeps up with it: at most \<open>length ds\<close> rounds give it
  all of \<open>ds\<close>, none of which waits for ever; what it received, however many rounds it completes, is,
  in order, what was ready and what arrived after it; and no round goes without receiving before
  all of \<open>ds\<close> has been received.
\<close>

definition keeps_up ::
  "('s \<Rightarrow> ((unit, transport_error) result \<times> 's) option) \<Rightarrow> ('s \<Rightarrow> ('a list \<times> 's) option) \<Rightarrow> 's \<Rightarrow> 'a list \<Rightarrow> bool"
where
  "keeps_up ready recv s ds \<longleftrightarrow>
     (\<exists>m xss t extra. m \<le> length ds \<and> serve ready recv m s = Some (xss, t) \<and> concat xss = ds @ extra)
   \<and> (\<forall>n xss t. serve ready recv n s = Some (xss, t) \<longrightarrow>
        length xss = n \<and> (\<exists>rest new. ds @ new = concat xss @ rest)
        \<and> (\<forall>i<n. length (concat (take i xss)) < length ds \<longrightarrow> xss ! i \<noteq> []))"

text \<open>
  It keeps receiving when, moreover, no round that it completes goes without receiving, also after
  all of \<open>ds\<close> has been received: then every wait lasts until something has arrived.
\<close>

definition keeps_receiving ::
  "('s \<Rightarrow> ((unit, transport_error) result \<times> 's) option) \<Rightarrow> ('s \<Rightarrow> ('a list \<times> 's) option) \<Rightarrow> 's \<Rightarrow> 'a list \<Rightarrow> bool"
where
  "keeps_receiving ready recv s ds \<longleftrightarrow>
     (\<exists>m xss t extra. m \<le> length ds \<and> serve ready recv m s = Some (xss, t) \<and> concat xss = ds @ extra)
   \<and> (\<forall>n xss t. serve ready recv n s = Some (xss, t) \<longrightarrow>
        length xss = n \<and> [] \<notin> set xss \<and> (\<exists>rest new. ds @ new = concat xss @ rest))"

lemma keeps_receiving_all:
  "keeps_receiving ready recv s ds \<Longrightarrow>
     \<exists>m xss t. m \<le> length ds \<and> serve ready recv m s = Some (xss, t) \<and> take (length ds) (concat xss) = ds"
  unfolding keeps_receiving_def by (elim conjE exE) (intro exI conjI, assumption+, simp)

lemma keeps_up_all:
  "keeps_up ready recv s ds \<Longrightarrow>
     \<exists>m xss t. m \<le> length ds \<and> serve ready recv m s = Some (xss, t) \<and> take (length ds) (concat xss) = ds"
  unfolding keeps_up_def by (elim conjE exE) (intro exI conjI, assumption+, simp)

section \<open>The contract\<close>

text \<open>
  \<open>carries s ds\<close>: what source \<open>s\<close> has ready to be received is \<open>ds\<close>. A wait does not hold up what is
  there and loses nothing; a receive takes a prefix, which is not empty when there is something.
\<close>

locale ready_source =
  fixes ready :: "'s \<Rightarrow> ((unit, transport_error) result \<times> 's) option"
    and recv :: "'s \<Rightarrow> ('a list \<times> 's) option"
    and carries :: "'s \<Rightarrow> 'a list \<Rightarrow> bool"
  assumes ready_now: "carries s ds \<Longrightarrow> ds \<noteq> [] \<Longrightarrow> \<exists>s1. ready s = Some (Ok (), s1)"
    and ready_keeps: "carries s ds \<Longrightarrow> ready s = Some (Ok (), s1) \<Longrightarrow> \<exists>new. carries s1 (ds @ new)"
    and recv_takes: "carries s ds \<Longrightarrow>
      \<exists>xs rest s1. recv s = Some (xs, s1) \<and> ds = xs @ rest \<and> carries s1 rest \<and> (ds \<noteq> [] \<longrightarrow> xs \<noteq> [])"
begin

lemma round_takes:
  assumes "carries s ds" and "ready s = Some (Ok (), s1)"
  obtains xs rest new s2 where "recv s1 = Some (xs, s2)" "ds @ new = xs @ rest" "carries s2 rest" "ds \<noteq> [] \<longrightarrow> xs \<noteq> []"
proof -
  from ready_keeps [OF assms] obtain new where "carries s1 (ds @ new)" by blast
  from recv_takes [OF this] that show ?thesis by auto
qed

lemma rounds_in_order:
  assumes "carries s ds" and "serve ready recv n s = Some (xss, t)"
  shows "length xss = n \<and> (\<exists>rest new. ds @ new = concat xss @ rest)
    \<and> (\<forall>i<n. length (concat (take i xss)) < length ds \<longrightarrow> xss ! i \<noteq> [])"
  using assms
proof (induction n arbitrary: s ds xss)
  case 0
  then show ?case by (auto intro: exI [of _ ds] exI [of _ "[]"])
next
  case (Suc n)
  from Suc.prems(2) obtain s1 where r: "ready s = Some (Ok (), s1)"
    by (auto split: option.splits prod.splits result.splits)
  from round_takes [OF Suc.prems(1) r] obtain xs rest new s2 where
    m: "recv s1 = Some (xs, s2)" "ds @ new = xs @ rest" "carries s2 rest" "ds \<noteq> [] \<longrightarrow> xs \<noteq> []" .
  from Suc.prems(2) r m(1) obtain yss where y: "serve ready recv n s2 = Some (yss, t)" "xss = xs # yss"
    by auto
  from Suc.IH [OF m(3) y(1)] obtain rest' new' where
    IH: "length yss = n" "rest @ new' = concat yss @ rest'"
    "\<forall>i<n. length (concat (take i yss)) < length rest \<longrightarrow> yss ! i \<noteq> []" by blast
  have "ds @ (new @ new') = concat xss @ rest'"
    by (simp add: y(2) flip: append_assoc) (simp add: m(2) IH(2))
  moreover have "length xs + length rest = length ds + length new" using arg_cong [OF m(2), of length] by simp
  with IH(3) m(4) have "\<forall>i<Suc n. length (concat (take i xss)) < length ds \<longrightarrow> xss ! i \<noteq> []"
    by (auto simp: y(2) less_Suc_eq_0_disj)
  ultimately show ?case using IH(1) y(2) by auto
qed

lemma receives_prefix:
  assumes "carries s (ds @ es)"
  shows "\<exists>m xss t extra. m \<le> length ds \<and> serve ready recv m s = Some (xss, t) \<and> concat xss = ds @ extra"
  using assms
proof (induction "length ds" arbitrary: s ds es rule: less_induct)
  case less
  show ?case
  proof (cases "ds = []")
    case True
    then show ?thesis by (intro exI [of _ 0]) simp
  next
    case False
    with ready_now [OF less.prems] obtain s1 where r: "ready s = Some (Ok (), s1)" by blast
    from round_takes [OF less.prems r] obtain xs rest new s2 where
      m': "recv s1 = Some (xs, s2)" "(ds @ es) @ new = xs @ rest" "carries s2 rest" "ds @ es \<noteq> [] \<longrightarrow> xs \<noteq> []" .
    with False have m: "recv s1 = Some (xs, s2)" "xs \<noteq> []" "(ds @ es) @ new = xs @ rest" "carries s2 rest" by simp_all
    from m(3) consider (all) extra where "xs = ds @ extra" | (part) ds' where "ds = xs @ ds'" "rest = ds' @ es @ new"
      by (auto simp: append_eq_append_conv2)
    then show ?thesis
    proof cases
      case all
      moreover have "1 \<le> length ds" using False by (simp add: Suc_leI)
      ultimately show ?thesis using r m(1) by (intro exI [of _ 1] exI [of _ "[xs]"]) simp
    next
      case part
      have shorter: "length ds' < length ds" using part(1) m(2) by simp
      have "carries s2 (ds' @ es @ new)" using m(4) part(2) by simp
      from less.hyps [OF shorter this] obtain j xss t extra where
        j: "j \<le> length ds'" "serve ready recv j s2 = Some (xss, t)" "concat xss = ds' @ extra" by blast
      from j(1) shorter have "Suc j \<le> length ds" by simp
      moreover have "serve ready recv (Suc j) s = Some (xs # xss, t)" using r m(1) j(2) by simp
      moreover have "concat (xs # xss) = ds @ extra" using j(3) part(1) by simp
      ultimately show ?thesis by blast
    qed
  qed
qed

lemma serves_up: "carries s ds \<Longrightarrow> keeps_up ready recv s ds"
  unfolding keeps_up_def using receives_prefix [of s ds "[]"] rounds_in_order [of s ds] by simp

end

text \<open>The full contract of \<open>AsyncReady\<close>: when a wait is over, there is something to receive.\<close>

locale async_ready = ready_source ready recv carries
  for ready :: "'s \<Rightarrow> ((unit, transport_error) result \<times> 's) option"
    and recv :: "'s \<Rightarrow> ('a list \<times> 's) option"
    and carries :: "'s \<Rightarrow> 'a list \<Rightarrow> bool" +
  assumes ready_means: "carries s ds \<Longrightarrow> ready s = Some (Ok (), s1) \<Longrightarrow> \<exists>new. ds @ new \<noteq> [] \<and> carries s1 (ds @ new)"
begin

lemma no_idle_round:
  "carries s ds \<Longrightarrow> serve ready recv n s = Some (xss, t) \<Longrightarrow> [] \<notin> set xss"
proof (induction n arbitrary: s ds xss)
  case 0
  then show ?case by simp
next
  case (Suc n)
  from Suc.prems(2) obtain s1 where r: "ready s = Some (Ok (), s1)"
    by (auto split: option.splits prod.splits result.splits)
  from ready_means [OF Suc.prems(1) r] obtain new where "ds @ new \<noteq> []" "carries s1 (ds @ new)" by blast
  with recv_takes [OF this(2)] obtain xs rest s2 where
    m: "recv s1 = Some (xs, s2)" "xs \<noteq> []" "carries s2 rest" by blast
  from Suc.prems(2) r m(1) obtain yss where "serve ready recv n s2 = Some (yss, t)" "xss = xs # yss" by auto
  with Suc.IH [OF m(3)] m(2) show ?case by simp
qed

lemma serves: "carries s ds \<Longrightarrow> keeps_receiving ready recv s ds"
  using serves_up [of s ds] no_idle_round [of s ds] unfolding keeps_up_def keeps_receiving_def by blast

end

lemma async_readyI:
  assumes "\<And>s ds. carries s ds \<Longrightarrow> ds \<noteq> [] \<Longrightarrow> \<exists>s1. ready s = Some (Ok (), s1)"
    and "\<And>s ds s1. carries s ds \<Longrightarrow> ready s = Some (Ok (), s1) \<Longrightarrow> \<exists>new. ds @ new \<noteq> [] \<and> carries s1 (ds @ new)"
    and "\<And>s ds. carries s ds \<Longrightarrow>
      \<exists>xs rest s1. recv s = Some (xs, s1) \<and> ds = xs @ rest \<and> carries s1 rest \<and> (ds \<noteq> [] \<longrightarrow> xs \<noteq> [])"
  shows "async_ready ready recv carries"
  by unfold_locales (use assms in \<open>blast+\<close>)

end
