(* ===== verification/Mio_Async.thy ===== *)
theory Mio_Async imports Async_Ready Mio_Udp_Props Mio_Tcp begin

text \<open>
  The \<open>ready\<close> of the \<open>mio\<close> transports and their receives as instances of \<open>ready_source\<close>: bursts of
  a UDP transport, reads of a TCP one. They are not instances of \<open>async_ready\<close>: \<open>mio\<close> documents that
  an event may be spurious, and \<open>ready\<close> does not probe again after the poll has returned.
\<close>

section \<open>Datagrams\<close>

definition mio_udp_ready_src ::
  "('k, mio_udp) backend_source \<Rightarrow> ((unit, transport_error) result \<times> ('k, mio_udp) backend_source) option"
where
  "mio_udp_ready_src s =
     (case s of (sys, self, k) \<Rightarrow> map_option (\<lambda>(r, self', k'). (r, (sys, self', k'))) (mio_udp_ready sys self k))"

text \<open>One burst of \<open>mx\<close> into a batch for \<open>c\<close> frames, which are read and dropped.\<close>

definition mio_udp_reaps :: "usize \<Rightarrow> usize \<Rightarrow> ('k, mio_udp) backend_source
    \<Rightarrow> (bytes option list \<times> ('k, mio_udp) backend_source) option" where
  "mio_udp_reaps mx c s = pump mio_ops (backend_payload mu_pool) [mx] s (batch_with_capacity c)"

definition mio_udp_carries ::
  "usize \<Rightarrow> usize \<Rightarrow> ('k \<Rightarrow> (bytes \<times> socket_addr) list) \<Rightarrow> ('k, mio_udp) backend_source \<Rightarrow> bytes option list \<Rightarrow> bool"
where
  "mio_udp_carries mx c pend s ds \<longleftrightarrow>
     (case s of (sys, self, k) \<Rightarrow>
        0 < mx \<and> 0 < c \<and> pool_ok (mu_pool self) {#} \<and> udp_queue sys (mio_recv_from sys (mu_sock self)) pend
        \<and> peek_sees sys (mu_sock self) pend
        \<and> ds = map Some (map (take (unat (slab_size (mu_pool self))) \<circ> fst) (pend k)))"

lemma mio_udp_reaps_takes:
  assumes "mio_udp_carries mx c pend s ds"
  shows "\<exists>xs rest s1. mio_udp_reaps mx c s = Some (xs, s1) \<and> ds = xs @ rest \<and> mio_udp_carries mx c pend s1 rest
    \<and> (ds \<noteq> [] \<longrightarrow> xs \<noteq> [])"
proof -
  obtain sys self k where s: "s = (sys, self, k)" by (cases s)
  let ?ps = "map (take (unat (slab_size (mu_pool self))) \<circ> fst) (pend k)"
  have q: "pool_ok (mu_pool self) {#}" "udp_queue sys (mio_rf sys self) pend" "0 < mx" "0 < c"
    and ds: "ds = map Some ?ps" and law: "udp_queue sys (mio_recv_from sys (mu_sock self)) pend"
    "peek_sees sys (mu_sock self) pend"
    using assms by (auto simp: s mio_udp_carries_def mio_rf_def)
  from mio.pump_once [OF q] obtain n p lp r k' where b:
    "pump mio_ops (backend_payload mu_pool) [mx] (sys, self, k) (batch_with_capacity c) =
       Some (map Some (take n ?ps), (sys, (mio_update p lp self)\<lparr>mu_pool := r\<rparr>, k'))"
    "pend k \<noteq> [] \<longrightarrow> 0 < n" "pend k' = drop n (pend k)" "pool_ok r {#}" "slab_size r = slab_size (mu_pool self)" .
  have "ds \<noteq> [] \<longrightarrow> map Some (take n ?ps) \<noteq> []" using b(2) by (simp add: ds)
  moreover have "ds = map Some (take n ?ps) @ map Some (drop n ?ps)"
    unfolding ds by (simp flip: map_append)
  moreover have "mio_udp_carries mx c pend (sys, (mio_update p lp self)\<lparr>mu_pool := r\<rparr>, k') (map Some (drop n ?ps))"
    using b(3-5) law q(3,4) by (simp add: mio_udp_carries_def drop_map)
  ultimately show ?thesis using b(1) unfolding s mio_udp_reaps_def by blast
qed

interpretation mio_udp_ready: ready_source mio_udp_ready_src "mio_udp_reaps mx c" "mio_udp_carries mx c pend"
proof (unfold_locales, goal_cases)
  case (1 s ds)
  obtain sys self k where s: "s = (sys, self, k)" by (cases s)
  from 1 have "peek_sees sys (mu_sock self) pend" "pend k \<noteq> []"
    by (auto simp: s mio_udp_carries_def)
  from wait_ready_pending [OF this] show ?case by (simp add: s mio_udp_ready_src_def mio_udp_ready_def)
next
  case (2 s ds s1)
  obtain sys self k where s: "s = (sys, self, k)" by (cases s)
  from 2(1) have truth: "peek_sees sys (mu_sock self) pend" by (simp add: s mio_udp_carries_def)
  from 2(2) obtain evs k' where w: "wait_ready sys (mu_sock self) (mu_poll self) UDP_TOKEN (mu_events self) k = Some (Ok (), evs, k')"
    "s1 = (sys, self\<lparr>mu_events := evs\<rparr>, k')"
    by (auto simp: s mio_udp_ready_src_def mio_udp_ready_def split: option.splits)
  from wait_ready_keeps [OF truth w(1)] 2(1) show ?case by (auto simp: s w(2) mio_udp_carries_def)
next
  case (3 s ds)
  then show ?case by (rule mio_udp_reaps_takes)
qed

section \<open>Streams\<close>

definition mio_tcp_ready_src ::
  "'k os \<times> mio_tcp \<times> 'k \<Rightarrow> ((unit, transport_error) result \<times> 'k os \<times> mio_tcp \<times> 'k) option"
where
  "mio_tcp_ready_src s =
     (case s of (sys, self, k) \<Rightarrow> map_option (\<lambda>(r, self', k'). (r, (sys, self', k'))) (mio_tcp_ready sys self k))"

text \<open>A stream that the peer keeps open; \<open>unread\<close> is what it has sent and the reader has not taken.\<close>

definition mio_tcp_carries :: "bytes \<Rightarrow> ('k \<Rightarrow> bytes) \<Rightarrow> 'k os \<times> mio_tcp \<times> 'k \<Rightarrow> bytes \<Rightarrow> bool" where
  "mio_tcp_carries dst unread s u \<longleftrightarrow>
     (case s of (sys, self, k) \<Rightarrow>
        has_room dst \<and> reliable_stream sys (mt_stream self) \<and> stream_socket sys (mt_stream self) unread (\<lambda>_. False)
        \<and> peek_sees sys (mt_stream self) unread \<and> u = unread k)"

interpretation mio_tcp_ready: ready_source mio_tcp_ready_src "\<lambda>s. stream_reads mio_stream_recv dst s" "mio_tcp_carries dst unread"
proof (unfold_locales, goal_cases)
  case (1 s ds)
  obtain sys self k where s: "s = (sys, self, k)" by (cases s)
  from 1 have "peek_sees sys (mt_stream self) unread" "unread k \<noteq> []"
    by (auto simp: s mio_tcp_carries_def)
  from wait_ready_pending [OF this] show ?case by (simp add: s mio_tcp_ready_src_def mio_tcp_ready_def)
next
  case (2 s ds s1)
  obtain sys self k where s: "s = (sys, self, k)" by (cases s)
  from 2(1) have truth: "peek_sees sys (mt_stream self) unread" by (simp add: s mio_tcp_carries_def)
  from 2(2) obtain evs k' where w: "wait_ready sys (mt_stream self) (mt_poll self) TCP_TOKEN (mt_events self) k = Some (Ok (), evs, k')"
    "s1 = (sys, self\<lparr>mt_events := evs\<rparr>, k')"
    by (auto simp: s mio_tcp_ready_src_def mio_tcp_ready_def split: option.splits)
  from wait_ready_keeps [OF truth w(1)] 2(1) show ?case by (auto simp: s w(2) mio_tcp_carries_def)
next
  case (3 s ds)
  obtain sys self k where s: "s = (sys, self, k)" by (cases s)
  from 3 have law: "reliable_stream sys (mt_stream self)" "stream_socket sys (mt_stream self) unread (\<lambda>_. False)" "has_room dst"
    "ds = unread k" by (auto simp: s mio_tcp_carries_def)
  from stream_reads_open [OF law(1-3)] obtain n dst' k' where r:
    "stream_recv_into sys (mt_stream self) dst k = (Ok n, dst', k')" "take (unat n) dst' = take (unat n) (unread k)"
    "unread k' = drop (unat n) (unread k)" "unread k \<noteq> [] \<longrightarrow> 0 < n" by blast
  then have "unread k \<noteq> [] \<longrightarrow> take (unat n) (unread k) \<noteq> []" by (auto simp: word_less_nat_alt)
  with 3 law(4) r(1-3) show ?case
    by (intro exI [of _ "take (unat n) (unread k)"] exI [of _ "drop (unat n) (unread k)"] exI [of _ "(sys, self, k')"])
       (auto simp: s stream_reads_def mio_stream_recv_def mio_recv_into_def mio_tcp_carries_def)
qed

section \<open>Properties\<close>

text \<open>
  C16: \<open>ready\<close> of both \<open>mio\<close> transports does what a wait is meant to do (\<open>awaits\<close>), and returns
  exactly then: at once, without a poll, when the peek sees data (on Windows also by the error for
  a datagram larger than the buffer) or fails; and otherwise at the first poll that fails or
  brings a readable event of the socket's own token, whatever other events came before it.
\<close>

theorem mio_ready_iff:
  "(mio_udp_ready sys u k = Some (r, u', k') \<longleftrightarrow>
      (\<exists>evs. awaits sys (mu_sock u) (mu_poll u) UDP_TOKEN k r evs k'
         \<and> u' = u\<lparr>mu_events := case evs of None \<Rightarrow> mu_events u | Some es \<Rightarrow> es\<rparr>))
   \<and> (mio_tcp_ready sys t k = Some (r, t', k') \<longleftrightarrow>
      (\<exists>evs. awaits sys (mt_stream t) (mt_poll t) TCP_TOKEN k r evs k'
         \<and> t' = t\<lparr>mt_events := case evs of None \<Rightarrow> mt_events t | Some es \<Rightarrow> es\<rparr>))"
proof (rule conjI)
  have "mio_udp_ready sys u k = Some (r, u', k') \<longleftrightarrow>
      (\<exists>evs. wait_ready sys (mu_sock u) (mu_poll u) UDP_TOKEN (mu_events u) k = Some (r, evs, k') \<and> u' = u\<lparr>mu_events := evs\<rparr>)"
    by (auto simp: mio_udp_ready_def split: option.splits)
  then show "mio_udp_ready sys u k = Some (r, u', k') \<longleftrightarrow>
      (\<exists>evs. awaits sys (mu_sock u) (mu_poll u) UDP_TOKEN k r evs k'
         \<and> u' = u\<lparr>mu_events := case evs of None \<Rightarrow> mu_events u | Some es \<Rightarrow> es\<rparr>)"
    unfolding wait_ready_awaits by blast
  have "mio_tcp_ready sys t k = Some (r, t', k') \<longleftrightarrow>
      (\<exists>evs. wait_ready sys (mt_stream t) (mt_poll t) TCP_TOKEN (mt_events t) k = Some (r, evs, k') \<and> t' = t\<lparr>mt_events := evs\<rparr>)"
    by (auto simp: mio_tcp_ready_def split: option.splits)
  then show "mio_tcp_ready sys t k = Some (r, t', k') \<longleftrightarrow>
      (\<exists>evs. awaits sys (mt_stream t) (mt_poll t) TCP_TOKEN k r evs k'
         \<and> t' = t\<lparr>mt_events := case evs of None \<Rightarrow> mt_events t | Some es \<Rightarrow> es\<rparr>)"
    unfolding wait_ready_awaits by blast
qed

text \<open>
  C14: An \<open>.await\<close>-driven receiver of the \<open>mio\<close> UDP transport makes progress: with \<open>ready\<close> before
  every burst, the queued datagrams are all received within as many rounds as there are, since no
  wait parks the thread while a datagram is queued, although the edge-triggered poll may not fire
  for it; they come in order, each once, before anything that arrived later; and no completed round
  comes back empty before all of them have been received. Nothing is assumed of the poll, whose
  events may be spurious.
\<close>

theorem mio_udp_receiver_progresses:
  assumes "pool_ok (mu_pool self) {#}" and "udp_queue sys (mio_recv_from sys (mu_sock self)) pend" and "0 < mx" and "0 < c"
    and "peek_sees sys (mu_sock self) pend"
  shows "keeps_up mio_udp_ready_src (mio_udp_reaps mx c) (sys, self, k)
    (map Some (map (take (unat (slab_size (mu_pool self))) \<circ> fst) (pend k)))"
  by (rule mio_udp_ready.serves_up [where pend = pend]) (use assms in \<open>simp add: mio_udp_carries_def\<close>)

text \<open>The queue with a poll that reports a readable event every time, mostly a spurious one.\<close>

definition spurious_os :: "queue_world os" where
  "spurious_os = queue_os\<lparr>poll_wait := (\<lambda>_ _ k. Some (Ok [\<lparr>ev_token = 0, ev_readable = True, ev_writable = False\<rparr>], k))\<rparr>"

theorem mio_udp_receiver_progresses_witness:
  "(\<exists>m xss t. m \<le> 3 \<and> serve mio_udp_ready_src (mio_udp_reaps 1 4) m (spurious_os, sample_mio, sample_queue) = Some (xss, t)
      \<and> take 3 (concat xss) = [Some [1, 2], Some [3], Some [4, 5, 6, 7]])
    \<and> map_option fst (mio_udp_ready spurious_os sample_mio []) = Some (Ok ())"
proof (rule conjI)
  have "peek_sees spurious_os (mu_sock sample_mio) (\<lambda>k. k)" and "udp_queue spurious_os queue_recv (\<lambda>k. k)"
    using queue_peek_sees [of "mu_sock sample_mio"] queue_recv_is_queue
    by (simp_all add: peek_sees_def udp_queue_def spurious_os_def)
  with mio_udp_receiver_progresses [of sample_mio spurious_os "\<lambda>k. k" 1 4 sample_queue] sample_pool_ok
  have "keeps_up mio_udp_ready_src (mio_udp_reaps 1 4) (spurious_os, sample_mio, sample_queue) [Some [1, 2], Some [3], Some [4, 5, 6, 7]]"
    by (simp add: sample_width sample_queue_def spurious_os_def queue_os_def)
  from keeps_up_all [OF this] show "\<exists>m xss t. m \<le> 3
      \<and> serve mio_udp_ready_src (mio_udp_reaps 1 4) m (spurious_os, sample_mio, sample_queue) = Some (xss, t)
      \<and> take 3 (concat xss) = [Some [1, 2], Some [3], Some [4, 5, 6, 7]]" by (simp add: numeral_3_eq_3)
  show "map_option fst (mio_udp_ready spurious_os sample_mio []) = Some (Ok ())"
    by (simp add: mio_udp_ready_def wait_ready_def probe_readable_def park_round_def loop_steps any_readable_def
        UDP_TOKEN_def spurious_os_def queue_os_def would_block_def)
qed

end
