(* ===== verification/Tokio_Async.thy ===== *)
theory Tokio_Async imports Async_Ready Mio_Poll Tokio_Udp Tokio_Tcp begin

text \<open>
  The \<open>ready\<close> of the \<open>tokio\<close> transports and their receives as instances of \<open>AsyncReady\<close>.
\<close>

section \<open>Waiting on a truthful reactor\<close>

text \<open>
  The documented behaviour of a peek at a socket whose unread input is \<open>pend\<close>: it sees the input
  and leaves it, on Windows by the error for a datagram larger than the buffer, and would block
  when there is none.
\<close>

definition peek_truthful :: "'k os \<Rightarrow> fd \<Rightarrow> ('k \<Rightarrow> 'a list) \<Rightarrow> bool" where
  "peek_truthful sys s pend \<longleftrightarrow>
     (\<forall>k. if pend k = [] then \<exists>e k'. s2_peek sys s 1 k = (Err e, k') \<and> err_kind e = WouldBlock \<and> raw_os_error e \<noteq> Some 10040 \<and> pend k' = []
        else (\<exists>d. s2_peek sys s 1 k = (Ok d, k))
          \<or> (\<exists>e. s2_peek sys s 1 k = (Err e, k) \<and> platform sys = Windows \<and> raw_os_error e = Some 10040
               \<and> err_kind e \<noteq> WouldBlock))"

text \<open>The queue of the examples.\<close>

lemma queue_peek_truthful: "peek_truthful queue_os s (\<lambda>k. k)"
  unfolding peek_truthful_def
proof
  fix k show "if k = [] then \<exists>e k'. s2_peek queue_os s 1 k = (Err e, k') \<and> err_kind e = WouldBlock \<and> raw_os_error e \<noteq> Some 10040 \<and> k' = []
      else (\<exists>d. s2_peek queue_os s 1 k = (Ok d, k))
        \<or> (\<exists>e. s2_peek queue_os s 1 k = (Err e, k) \<and> platform queue_os = Windows \<and> raw_os_error e = Some 10040
             \<and> err_kind e \<noteq> WouldBlock)"
    by (cases k) (auto simp: queue_os_def would_block_def)
qed

text \<open>
  The documented behaviour of the reactor: \<open>try_io\<close> as its contract says, clearing the cached
  readiness touches no input, input may arrive during an await, and while there is input the
  await completes with the readiness cached.
\<close>

definition reactor_truthful :: "'k os \<Rightarrow> fd \<Rightarrow> ('k \<Rightarrow> bool) \<Rightarrow> ('k \<Rightarrow> 'k) \<Rightarrow> ('k \<Rightarrow> 'a list) \<Rightarrow> bool" where
  "reactor_truthful sys s cached clear pend \<longleftrightarrow>
     try_io_contract sys s cached clear \<and> (\<forall>k. pend (clear k) = pend k)
   \<and> (\<forall>k r k'. tk_readable sys s k = Some (r, k') \<longrightarrow> (\<exists>new. pend k' = pend k @ new))
   \<and> (\<forall>k. pend k \<noteq> [] \<longrightarrow> (\<exists>k'. tk_readable sys s k = Some (Ok (), k') \<and> cached k'))"

text \<open>A probe that tells whether there is input, and leaves it.\<close>

definition probe_truthful :: "('k, unit, io_error) eff \<Rightarrow> ('k \<Rightarrow> 'a list) \<Rightarrow> bool" where
  "probe_truthful probe pend \<longleftrightarrow>
     (\<forall>k. if pend k = [] then \<exists>e k'. probe k = (Err e, k') \<and> err_kind e = WouldBlock \<and> pend k' = []
        else probe k = (Ok (), k))"

lemma probe_truthfulD:
  "probe_truthful probe pend \<Longrightarrow> pend k = [] \<Longrightarrow> \<exists>e k'. probe k = (Err e, k') \<and> err_kind e = WouldBlock \<and> pend k' = []"
  "probe_truthful probe pend \<Longrightarrow> pend k \<noteq> [] \<Longrightarrow> probe k = (Ok (), k)"
  unfolding probe_truthful_def by (auto dest: spec [where x = k])

lemma udp_probe_truthful: "peek_truthful sys s pend \<Longrightarrow> probe_truthful (tokio_udp_peek_ready sys s) pend"
  unfolding probe_truthful_def
proof
  fix k assume p: "peek_truthful sys s pend"
  show "if pend k = [] then \<exists>e k'. tokio_udp_peek_ready sys s k = (Err e, k') \<and> err_kind e = WouldBlock \<and> pend k' = []
      else tokio_udp_peek_ready sys s k = (Ok (), k)"
    using p unfolding peek_truthful_def by (auto simp: tokio_udp_peek_ready_def dest!: spec [where x = k])
qed

lemma try_io_keeps:
  assumes "reactor_truthful sys s cached clear pend" and "probe_truthful probe pend"
    and "tk_try_io sys s Readable probe k = (r, k')"
  shows "pend k' = pend k" and "r = Ok () \<Longrightarrow> pend k \<noteq> []" and "cached k \<Longrightarrow> pend k \<noteq> [] \<Longrightarrow> r = Ok ()"
proof -
  have c: "if cached k then tk_try_io sys s Readable probe k =
      (case probe k of
         (Ok u, k') \<Rightarrow> (Ok u, k')
       | (Err e, k') \<Rightarrow> (Err e, if err_kind e = WouldBlock then clear k' else k'))
    else \<exists>e. tk_try_io sys s Readable probe k = (Err e, k) \<and> err_kind e = WouldBlock"
    using assms(1) unfolding reactor_truthful_def try_io_contract_def by blast
  have clr: "pend (clear k) = pend k" for k using assms(1) unfolding reactor_truthful_def by blast
  note p = probe_truthfulD [OF assms(2), of k]
  show "pend k' = pend k" and "r = Ok () \<Longrightarrow> pend k \<noteq> []" and "cached k \<Longrightarrow> pend k \<noteq> [] \<Longrightarrow> r = Ok ()"
    using c p assms(3) clr by (cases "cached k"; cases "pend k = []"; auto)+
qed

lemma stale_wakes_extend:
  assumes "reactor_truthful sys s cached clear pend" and "probe_truthful probe pend"
    and "stale_wakes sys s probe n k = Some k'"
  shows "\<exists>new. pend k' = pend k @ new"
  using assms(3)
proof (induction n arbitrary: k)
  case 0
  then show ?case by simp
next
  case (Suc n)
  then obtain k1 e k2 where w: "tk_readable sys s k = Some (Ok (), k1)" "tk_try_io sys s Readable probe k1 = (Err e, k2)"
    "stale_wakes sys s probe n k2 = Some k'"
    by (auto split: option.splits prod.splits result.splits if_splits)
  from assms(1) w(1) obtain new where "pend k1 = pend k @ new" unfolding reactor_truthful_def by blast
  with try_io_keeps(1) [OF assms(1,2) w(2)] Suc.IH [OF w(3)] show ?case by auto
qed

lemma await_truthful:
  assumes "reactor_truthful sys s cached clear pend" and "probe_truthful probe pend"
    and "await_readable sys s probe k = Some (Ok (), k')"
  shows "\<exists>new. pend k' = pend k @ new \<and> pend k' \<noteq> []"
proof -
  from assms(3) obtain n k1 k2 where w: "stale_wakes sys s probe n k = Some k1" "tk_readable sys s k1 = Some (Ok (), k2)"
    "tk_try_io sys s Readable probe k2 = (Ok (), k')" by (auto simp: await_returns_iff)
  from assms(1) w(2) obtain new where "pend k2 = pend k1 @ new" unfolding reactor_truthful_def by blast
  with stale_wakes_extend [OF assms(1,2) w(1)] try_io_keeps(1,2) [OF assms(1,2) w(3)] show ?thesis by auto
qed

lemma await_pending:
  assumes "reactor_truthful sys s cached clear pend" and "probe_truthful probe pend" and "pend k \<noteq> []"
  shows "\<exists>k'. await_readable sys s probe k = Some (Ok (), k')"
proof -
  from assms(1,3) obtain k1 new where k1: "tk_readable sys s k = Some (Ok (), k1)" "cached k1" "pend k1 = pend k @ new"
    unfolding reactor_truthful_def by blast
  obtain r k2 where t: "tk_try_io sys s Readable probe k1 = (r, k2)" by force
  from try_io_keeps(3) [OF assms(1,2) t] k1 assms(3) have "r = Ok ()" by simp
  with t k1(1) show ?thesis unfolding await_readable_def by (simp add: loop_steps await_round_def)
qed

section \<open>Datagrams\<close>

definition tokio_udp_ready_src ::
  "('k, tokio_udp) backend_source \<Rightarrow> ((unit, transport_error) result \<times> ('k, tokio_udp) backend_source) option"
where
  "tokio_udp_ready_src s =
     (case s of (sys, self, k) \<Rightarrow> map_option (\<lambda>(r, k'). (r, (sys, self, k'))) (tokio_udp_readable sys self k))"

definition tokio_udp_reaps :: "usize \<Rightarrow> usize \<Rightarrow> ('k, tokio_udp) backend_source
    \<Rightarrow> (bytes option list \<times> ('k, tokio_udp) backend_source) option" where
  "tokio_udp_reaps mx c s = pump tokio_ops (backend_payload tu_pool) [mx] s (batch_with_capacity c)"

definition tokio_udp_carries ::
  "usize \<Rightarrow> usize \<Rightarrow> ('k \<Rightarrow> (bytes \<times> socket_addr) list) \<Rightarrow> ('k \<Rightarrow> bool) \<Rightarrow> ('k \<Rightarrow> 'k)
     \<Rightarrow> ('k, tokio_udp) backend_source \<Rightarrow> bytes option list \<Rightarrow> bool"
where
  "tokio_udp_carries mx c pend cached clear s ds \<longleftrightarrow>
     (case s of (sys, self, k) \<Rightarrow>
        0 < mx \<and> 0 < c \<and> pool_ok (tu_pool self) {#} \<and> udp_queue sys (tokio_rf sys self) pend
        \<and> peek_truthful sys (tu_sock self) pend \<and> reactor_truthful sys (tu_sock self) cached clear pend
        \<and> ds = map Some (map (take (unat (slab_size (tu_pool self))) \<circ> fst) (pend k)))"

lemma tokio_udp_reaps_takes:
  assumes "tokio_udp_carries mx c pend cached clear s ds"
  shows "\<exists>xs rest s1. tokio_udp_reaps mx c s = Some (xs, s1) \<and> ds = xs @ rest
    \<and> tokio_udp_carries mx c pend cached clear s1 rest \<and> (ds \<noteq> [] \<longrightarrow> xs \<noteq> [])"
proof -
  obtain sys self k where s: "s = (sys, self, k)" by (cases s)
  let ?ps = "map (take (unat (slab_size (tu_pool self))) \<circ> fst) (pend k)"
  have q: "pool_ok (tu_pool self) {#}" "udp_queue sys (tokio_rf sys self) pend" "0 < mx" "0 < c"
    and ds: "ds = map Some ?ps"
    and law: "peek_truthful sys (tu_sock self) pend" "reactor_truthful sys (tu_sock self) cached clear pend"
    using assms by (auto simp: s tokio_udp_carries_def)
  from tokio.pump_once [OF q] obtain n p lp r k' where b:
    "pump tokio_ops (backend_payload tu_pool) [mx] (sys, self, k) (batch_with_capacity c) =
       Some (map Some (take n ?ps), (sys, (tokio_update p lp self)\<lparr>tu_pool := r\<rparr>, k'))"
    "pend k \<noteq> [] \<longrightarrow> 0 < n" "pend k' = drop n (pend k)" "pool_ok r {#}" "slab_size r = slab_size (tu_pool self)" .
  have rf: "tokio_rf sys ((tokio_update p lp self)\<lparr>tu_pool := r\<rparr>) = tokio_rf sys self"
    by (simp add: tokio_rf_def fun_eq_iff)
  have "ds \<noteq> [] \<longrightarrow> map Some (take n ?ps) \<noteq> []" using b(2) by (simp add: ds)
  moreover have "ds = map Some (take n ?ps) @ map Some (drop n ?ps)"
    unfolding ds by (simp flip: map_append)
  moreover have "tokio_udp_carries mx c pend cached clear (sys, (tokio_update p lp self)\<lparr>tu_pool := r\<rparr>, k') (map Some (drop n ?ps))"
    unfolding tokio_udp_carries_def prod.case rf using b(3-5) law q(2-4) by (simp add: drop_map)
  ultimately show ?thesis using b(1) unfolding s tokio_udp_reaps_def by blast
qed

interpretation tokio_udp_async: async_ready tokio_udp_ready_src "tokio_udp_reaps mx c" "tokio_udp_carries mx c pend cached clear"
proof (rule async_readyI, goal_cases)
  case (1 s ds)
  obtain sys self k where s: "s = (sys, self, k)" by (cases s)
  from 1 have law: "reactor_truthful sys (tu_sock self) cached clear pend"
    "probe_truthful (tokio_udp_peek_ready sys (tu_sock self)) pend" "pend k \<noteq> []"
    by (auto simp: s tokio_udp_carries_def intro: udp_probe_truthful)
  from await_pending [OF law] show ?case by (auto simp: s tokio_udp_ready_src_def tokio_udp_readable_def)
next
  case (2 s ds s1)
  obtain sys self k where s: "s = (sys, self, k)" by (cases s)
  from 2(1) have law: "reactor_truthful sys (tu_sock self) cached clear pend"
    "probe_truthful (tokio_udp_peek_ready sys (tu_sock self)) pend"
    by (auto simp: s tokio_udp_carries_def intro: udp_probe_truthful)
  from 2(2) obtain k' where w: "await_readable sys (tu_sock self) (tokio_udp_peek_ready sys (tu_sock self)) k = Some (Ok (), k')"
    "s1 = (sys, self, k')"
    by (auto simp: s tokio_udp_ready_src_def tokio_udp_readable_def)
  from await_truthful [OF law w(1)] 2(1) show ?case by (auto simp: s w(2) tokio_udp_carries_def)
next
  case (3 s ds)
  then show ?case by (rule tokio_udp_reaps_takes)
qed

section \<open>Streams\<close>

definition tokio_tcp_ready_src ::
  "'k os \<times> tokio_tcp \<times> 'k \<Rightarrow> ((unit, transport_error) result \<times> 'k os \<times> tokio_tcp \<times> 'k) option"
where
  "tokio_tcp_ready_src s =
     (case s of (sys, self, k) \<Rightarrow> map_option (\<lambda>(r, k'). (r, (sys, self, k'))) (tokio_tcp_readable sys self k))"

text \<open>On a stream a peek has no datagram that could be too large.\<close>

definition stream_peek :: "'k os \<Rightarrow> fd \<Rightarrow> ('k \<Rightarrow> bytes) \<Rightarrow> bool" where
  "stream_peek sys s unread \<longleftrightarrow>
     (\<forall>k. if unread k = [] then \<exists>e k'. s2_peek sys s 1 k = (Err e, k') \<and> err_kind e = WouldBlock \<and> unread k' = []
        else \<exists>d. s2_peek sys s 1 k = (Ok d, k))"

lemma stream_peek_sees: "stream_peek sys s unread \<Longrightarrow> peek_sees sys s unread"
  unfolding stream_peek_def peek_sees_def by metis

lemma tcp_probe_truthful: "stream_peek sys s unread \<Longrightarrow> probe_truthful (tokio_tcp_peek_ready sys s) unread"
  unfolding probe_truthful_def
proof
  fix k assume p: "stream_peek sys s unread"
  show "if unread k = [] then \<exists>e k'. tokio_tcp_peek_ready sys s k = (Err e, k') \<and> err_kind e = WouldBlock \<and> unread k' = []
      else tokio_tcp_peek_ready sys s k = (Ok (), k)"
    using p unfolding stream_peek_def by (auto simp: tokio_tcp_peek_ready_def dest!: spec [where x = k])
qed

definition tokio_tcp_carries ::
  "bytes \<Rightarrow> ('k \<Rightarrow> bytes) \<Rightarrow> ('k \<Rightarrow> bool) \<Rightarrow> ('k \<Rightarrow> 'k) \<Rightarrow> 'k os \<times> tokio_tcp \<times> 'k \<Rightarrow> bytes \<Rightarrow> bool"
where
  "tokio_tcp_carries dst unread cached clear s u \<longleftrightarrow>
     (case s of (sys, self, k) \<Rightarrow>
        has_room dst \<and> reliable_stream sys (tt_stream self) \<and> stream_socket sys (tt_stream self) unread (\<lambda>_. False)
        \<and> stream_peek sys (tt_stream self) unread \<and> reactor_truthful sys (tt_stream self) cached clear unread
        \<and> u = unread k)"

interpretation tokio_tcp_async: async_ready tokio_tcp_ready_src "\<lambda>s. stream_reads tokio_stream_recv dst s"
  "tokio_tcp_carries dst unread cached clear"
proof (rule async_readyI, goal_cases)
  case (1 s ds)
  obtain sys self k where s: "s = (sys, self, k)" by (cases s)
  from 1 have law: "reactor_truthful sys (tt_stream self) cached clear unread"
    "probe_truthful (tokio_tcp_peek_ready sys (tt_stream self)) unread" "unread k \<noteq> []"
    by (auto simp: s tokio_tcp_carries_def intro: tcp_probe_truthful)
  from await_pending [OF law] show ?case by (auto simp: s tokio_tcp_ready_src_def tokio_tcp_readable_def)
next
  case (2 s ds s1)
  obtain sys self k where s: "s = (sys, self, k)" by (cases s)
  from 2(1) have law: "reactor_truthful sys (tt_stream self) cached clear unread"
    "probe_truthful (tokio_tcp_peek_ready sys (tt_stream self)) unread"
    by (auto simp: s tokio_tcp_carries_def intro: tcp_probe_truthful)
  from 2(2) obtain k' where w: "await_readable sys (tt_stream self) (tokio_tcp_peek_ready sys (tt_stream self)) k = Some (Ok (), k')"
    "s1 = (sys, self, k')"
    by (auto simp: s tokio_tcp_ready_src_def tokio_tcp_readable_def)
  from await_truthful [OF law w(1)] 2(1) show ?case by (auto simp: s w(2) tokio_tcp_carries_def)
next
  case (3 s ds)
  obtain sys self k where s: "s = (sys, self, k)" by (cases s)
  from 3 have law: "reliable_stream sys (tt_stream self)" "stream_socket sys (tt_stream self) unread (\<lambda>_. False)" "has_room dst"
    "ds = unread k" by (auto simp: s tokio_tcp_carries_def)
  from stream_reads_open [OF law(1-3)] obtain n dst' k' where r:
    "stream_recv_into sys (tt_stream self) dst k = (Ok n, dst', k')" "take (unat n) dst' = take (unat n) (unread k)"
    "unread k' = drop (unat n) (unread k)" "unread k \<noteq> [] \<longrightarrow> 0 < n" by blast
  then have "unread k \<noteq> [] \<longrightarrow> take (unat n) (unread k) \<noteq> []" by (auto simp: word_less_nat_alt)
  with 3 law(4) r(1-3) show ?case
    by (intro exI [of _ "take (unat n) (unread k)"] exI [of _ "drop (unat n) (unread k)"] exI [of _ "(sys, self, k')"])
       (auto simp: s stream_reads_def tokio_stream_recv_def tokio_recv_into_def tokio_tcp_carries_def)
qed

section \<open>Properties\<close>

text \<open>
  C15: An \<open>.await\<close>-driven receiver of the \<open>tokio\<close> UDP transport makes progress: with \<open>ready\<close> before
  every burst, the queued datagrams are all received within as many rounds as there are, none of
  the waits hangs, no completed round comes back empty, however often the reactor's wake-ups are
  stale, and the datagrams come in order, each once, followed only by what arrived later.
\<close>

theorem tokio_udp_receiver_progresses:
  assumes "pool_ok (tu_pool self) {#}" and "udp_queue sys (tokio_rf sys self) pend" and "0 < mx" and "0 < c"
    and "peek_truthful sys (tu_sock self) pend" and "reactor_truthful sys (tu_sock self) cached clear pend"
  shows "keeps_receiving tokio_udp_ready_src (tokio_udp_reaps mx c) (sys, self, k)
    (map Some (map (take (unat (slab_size (tu_pool self))) \<circ> fst) (pend k)))"
  by (rule tokio_udp_async.serves [where pend = pend and cached = cached and clear = clear])
     (use assms in \<open>simp add: tokio_udp_carries_def\<close>)

theorem tokio_udp_receiver_progresses_witness:
  "\<exists>m xss t. m \<le> 3 \<and> serve tokio_udp_ready_src (tokio_udp_reaps 1 4) m (queue_os, sample_tokio, sample_queue) = Some (xss, t)
    \<and> take 3 (concat xss) = [Some [1, 2], Some [3], Some [4, 5, 6, 7]]"
proof -
  have "reactor_truthful queue_os (tu_sock sample_tokio) (\<lambda>k. True) (\<lambda>k. k) (\<lambda>k. k)"
    by (auto simp: reactor_truthful_def try_io_contract_def queue_os_def split: prod.splits result.splits if_splits)
  from tokio_udp_receiver_progresses [OF _ _ _ _ queue_peek_truthful this, of 1 4 sample_queue] sample_pool_ok queue_recv_is_queue
  have "keeps_receiving tokio_udp_ready_src (tokio_udp_reaps 1 4) (queue_os, sample_tokio, sample_queue) [Some [1, 2], Some [3], Some [4, 5, 6, 7]]"
    by (simp add: sample_width sample_queue_def)
  from keeps_receiving_all [OF this] show ?thesis by (simp add: numeral_3_eq_3)
qed

end
