(* ===== verification/Recv_Metrics.thy ===== *)
theory Recv_Metrics imports Mio_Session Tokio_Session begin

text \<open>
  The metrics examples of the two backends (\<open>crates/mio/examples/recv_metrics_mio.rs\<close>,
  \<open>crates/tokio/examples/recv_metrics_tokio.rs\<close>): bind a UDP transport, flood it, and reap bursts
  until a target is met, the tokio one at most for five seconds. The exporter that is installed
  and the flooding thread are parameters; what the flood brings is part of the world.
\<close>

section \<open>The reap loop\<close>

definition REAP_TARGET :: u64 where "REAP_TARGET = 50000"
definition BATCH_DEPTH :: usize where "BATCH_DEPTH = 64"
definition MAX_RUN :: nat where "MAX_RUN = 5000"

text \<open>Reading each drained frame's payload and dropping it; \<open>None\<close> is an index panic of the read.\<close>

fun touch_frames :: "'s client_ops \<Rightarrow> udp_frame list \<Rightarrow> 's \<Rightarrow> 's option" where
  "touch_frames ops [] s = Some s"
| "touch_frames ops (f # fs) s =
     (case frame_payload (cl_pool ops s) f of
        None \<Rightarrow> None
      | Some d \<Rightarrow> touch_frames ops fs (cl_set_pool ops (drop_frame f (cl_pool ops s)) s))"

type_synonym 's reap_state = "'s \<times> udp_frame frame_batch \<times> u64"
type_synonym 's reap_result = "((u64, transport_error) result \<times> 's \<times> udp_frame frame_batch) option"

definition reap_batch :: "'s client_ops \<Rightarrow> 's reap_state \<Rightarrow> ('s reap_state, 's reap_result) flow" where
  "reap_batch ops st =
     (case st of (s, b, reaped) \<Rightarrow>
        case cl_recv ops s b BATCH_DEPTH of
          None \<Rightarrow> Break None
        | Some (Ok n, s', b') \<Rightarrow>
            (case touch_frames ops (fst (batch_drain b')) s' of
               None \<Rightarrow> Break None
             | Some s'' \<Rightarrow> Continue (s'', snd (batch_drain b'), reaped + n))
        | Some (Err e, s', b') \<Rightarrow>
            (case e of
               PoolExhausted i c \<Rightarrow> Continue (s', b', reaped)
             | _ \<Rightarrow> Break (Some (Err e, s', b'))))"

definition mio_metrics_round ::
  "'k os \<Rightarrow> (mio_transport \<times> 'k) reap_state \<Rightarrow> ((mio_transport \<times> 'k) reap_state, (mio_transport \<times> 'k) reap_result) flow"
where
  "mio_metrics_round sys st =
     (case st of (s, b, reaped) \<Rightarrow>
        if reaped < REAP_TARGET then reap_batch (mio_client sys) st else Break (Some (Ok reaped, s, b)))"

definition mio_metrics_reap :: "'k os \<Rightarrow> mio_transport \<Rightarrow> 'k \<Rightarrow> (mio_transport \<times> 'k) reap_result" where
  "mio_metrics_reap sys receiver k =
     run_blocking (mio_metrics_round sys) ((receiver, k), batch_with_capacity BATCH_DEPTH, 0)"

text \<open>The deadline is looked at only while the target is not met.\<close>

definition tokio_metrics_round ::
  "'k os \<Rightarrow> nat \<Rightarrow> (tokio_transport \<times> 'k) reap_state
     \<Rightarrow> ((tokio_transport \<times> 'k) reap_state, (tokio_transport \<times> 'k) reap_result) flow"
where
  "tokio_metrics_round sys start st =
     (case st of ((t, k), b, reaped) \<Rightarrow>
        if \<not> reaped < REAP_TARGET then Break (Some (Ok reaped, (t, k), b))
        else case instant_now sys k of
          (now, k') \<Rightarrow>
            (if now - start < MAX_RUN then reap_batch (tokio_client sys) ((t, k'), b, reaped)
             else Break (Some (Ok reaped, (t, k'), b))))"

definition tokio_metrics_reap :: "'k os \<Rightarrow> tokio_transport \<Rightarrow> 'k \<Rightarrow> (tokio_transport \<times> 'k) reap_result" where
  "tokio_metrics_reap sys receiver k =
     (case instant_now sys k of
        (start, k') \<Rightarrow> run_blocking (tokio_metrics_round sys start) ((receiver, k'), batch_with_capacity 64, 0))"

section \<open>The flooder\<close>

text \<open>
  The flooding thread: \<open>fl_stop\<close> reads the stop flag, \<open>fl_bind\<close> and \<open>fl_send\<close> are the socket of the
  standard library. \<open>None\<close> is the panic of a bind that fails, or a flag that is never set.
\<close>

definition PAYLOAD_LEN :: nat where "PAYLOAD_LEN = 64"

record 'k flood_env =
  fl_stop :: "'k \<Rightarrow> bool \<times> 'k"
  fl_bind :: "('k, fd, io_error) eff"
  fl_send :: "fd \<Rightarrow> bytes \<Rightarrow> socket_addr \<Rightarrow> ('k, usize, io_error) eff"

definition flood_round :: "'k flood_env \<Rightarrow> fd \<Rightarrow> socket_addr \<Rightarrow> 'k \<Rightarrow> ('k, 'k) flow" where
  "flood_round env s a k =
     (case fl_stop env k of
        (True, k') \<Rightarrow> Break k'
      | (False, k') \<Rightarrow> Continue (snd (fl_send env s (replicate PAYLOAD_LEN 0) a k')))"

definition flooder :: "'k flood_env \<Rightarrow> socket_addr \<Rightarrow> 'k \<Rightarrow> 'k option" where
  "flooder env a k =
     (case fl_bind env k of
        (Err e, k1) \<Rightarrow> None
      | (Ok s, k1) \<Rightarrow> run_loop (flood_round env s a) k1)"

text \<open>The thread can be joined once the flag is set in finitely many rounds, whatever its sends do.\<close>

lemma flooder_joins:
  fixes m :: "'k \<Rightarrow> nat"
  assumes "fl_bind env k = (Ok s, k1)"
    and "\<And>k k' r k''. fl_stop env k = (False, k') \<Longrightarrow> fl_send env s (replicate PAYLOAD_LEN 0) a k' = (r, k'') \<Longrightarrow> m k'' < m k"
  shows "\<exists>k'. flooder env a k = Some k'"
proof -
  have "\<exists>k'. run_loop (flood_round env s a) k1 = Some k'"
    by (rule run_loop_terminates [where I = "\<lambda>_. True" and m = m])
       (auto simp: flood_round_def split: prod.splits bool.splits intro: assms(2) [OF _ surjective_pairing])
  then show ?thesis by (simp add: flooder_def assms(1))
qed

section \<open>The programs\<close>

datatype example_error = ObsFailed string | Transport transport_error

text \<open>
  \<open>ex_join\<close> sets the stop flag and joins the flooder: \<open>None\<close> when the join never returns, or
  panics because the flooder did.
\<close>

record 'k example_env =
  ex_observe :: "('k, unit, string) eff"
  ex_gate :: "'k \<Rightarrow> 'k"
  ex_flood :: "socket_addr \<Rightarrow> 'k \<Rightarrow> 'k"
  ex_join :: "'k \<Rightarrow> 'k option"
  ex_report :: "u64 \<Rightarrow> 'k \<Rightarrow> 'k"

definition example_bind :: bind_config where
  "example_bind = bind_config_default\<lparr>bc_addr := SocketAddrV4 2130706433 0\<rparr>"

definition example_finish ::
  "'k example_env \<Rightarrow> ((u64, transport_error) result \<times> ('t \<times> 'k) \<times> udp_frame frame_batch) option
     \<Rightarrow> ((unit, example_error) result \<times> 'k) option"
where
  "example_finish env res =
     (case res of
        None \<Rightarrow> None
      | Some (Err e, (t, k), b) \<Rightarrow> Some (Err (Transport e), k)
      | Some (Ok reaped, (t, k), b) \<Rightarrow>
          (case ex_join env k of
             None \<Rightarrow> None
           | Some k' \<Rightarrow> Some (Ok (), ex_report env reaped k')))"

definition mio_metrics_main :: "'k os \<Rightarrow> 'k example_env \<Rightarrow> 'k \<Rightarrow> ((unit, example_error) result \<times> 'k) option" where
  "mio_metrics_main sys env k =
     (case ex_observe env k of
        (Err e, k1) \<Rightarrow> Some (Err (ObsFailed e), k1)
      | (Ok _, k1) \<Rightarrow>
          (case mio_udp_bind sys example_bind recv_buf_config_default send_buf_config_default ring_config_default
                  batch_config_default affinity_config_default (ex_gate env k1) of
             None \<Rightarrow> None
           | Some (Err e, k2) \<Rightarrow> Some (Err (Transport e), k2)
           | Some (Ok udp, k2) \<Rightarrow>
               (case mio_local_addr udp of
                  Err e \<Rightarrow> Some (Err (Transport e), k2)
                | Ok a \<Rightarrow> example_finish env (mio_metrics_reap sys (MioUdp udp) (ex_flood env a k2)))))"

definition tokio_metrics_main :: "'k os \<Rightarrow> 'k example_env \<Rightarrow> 'k \<Rightarrow> ((unit, example_error) result \<times> 'k) option" where
  "tokio_metrics_main sys env k =
     (case ex_observe env k of
        (Err e, k1) \<Rightarrow> Some (Err (ObsFailed e), k1)
      | (Ok _, k1) \<Rightarrow>
          (case tokio_udp_bind sys example_bind recv_buf_config_default send_buf_config_default ring_config_default
                  batch_config_default affinity_config_default (ex_gate env k1) of
             None \<Rightarrow> None
           | Some (Err e, k2) \<Rightarrow> Some (Err (Transport e), k2)
           | Some (Ok udp, k2) \<Rightarrow>
               (case tokio_local_addr sys udp k2 of
                  (Err e, k3) \<Rightarrow> Some (Err (Transport e), k3)
                | (Ok a, k3) \<Rightarrow> example_finish env (tokio_metrics_reap sys (TokioUdp udp) (ex_flood env a k3)))))"

section \<open>One round\<close>

text \<open>Touching all frames of a pool gives back its slabs, and changes nothing but the pool.\<close>

lemma touch_ok:
  assumes "\<And>p s. cl_pool ops (cl_set_pool ops p s) = p" and "\<And>p q s. cl_set_pool ops q (cl_set_pool ops p s) = cl_set_pool ops q s"
    and "\<And>s. cl_set_pool ops (cl_pool ops s) s = s"
    and "pool_ok (cl_pool ops s) (mset (map frame_slot fs))" and "\<forall>f \<in> set fs. readable_frame (cl_pool ops s) f"
  shows "\<exists>q. touch_frames ops fs s = Some (cl_set_pool ops q s) \<and> pool_ok q {#} \<and> same_dims q (cl_pool ops s)"
  using assms(4,5)
proof (induction fs arbitrary: s)
  case Nil
  then show ?case using assms(3) by (intro exI [of _ "cl_pool ops s"]) simp
next
  case (Cons f fs)
  let ?p = "drop_frame f (cl_pool ops s)"
  have pool: "slab_size ?p = slab_size (cl_pool ops s)" "same_dims ?p (cl_pool ops s)"
    "\<And>g. frame_payload ?p g = frame_payload (cl_pool ops s) g"
    by (simp_all add: drop_frame_def drop_slab_def same_dims_def pool_capacity_def frame_payload_def)
  have "pool_ok ?p (mset (map frame_slot (f # fs)) - {#frame_slot f#})"
    unfolding drop_frame_def by (rule drop_slab_ok [OF Cons.prems(1)]) simp
  then have ok: "pool_ok (cl_pool ops (cl_set_pool ops ?p s)) (mset (map frame_slot fs))" by (simp add: assms(1))
  have "\<forall>g \<in> set fs. readable_frame (cl_pool ops (cl_set_pool ops ?p s)) g"
    using Cons.prems(2) readable_frame_cong [OF pool(3,1)] by (simp add: assms(1))
  from Cons.IH [OF ok this] obtain q where q: "touch_frames ops fs (cl_set_pool ops ?p s) = Some (cl_set_pool ops q s)"
    "pool_ok q {#}" "same_dims q ?p" by (auto simp: assms(1,2))
  with Cons.prems(2) pool(2) show ?case
    by (intro exI [of _ q]) (auto simp: readable_frame_def same_dims_def)
qed

definition mio_reap_ok :: "mio_udp \<Rightarrow> (mio_transport \<times> 'k) reap_state \<Rightarrow> bool" where
  "mio_reap_ok u0 st \<longleftrightarrow>
     (case st of ((t, k), b, reaped) \<Rightarrow>
        (\<exists>u. t = MioUdp u \<and> mu_sock u = mu_sock u0 \<and> pool_ok (mu_pool u) {#} \<and> same_dims (mu_pool u) (mu_pool u0))
        \<and> frames b = [] \<and> batch_cap b = BATCH_DEPTH \<and> unat reaped < 50064)"

definition tokio_reap_ok :: "tokio_udp \<Rightarrow> (tokio_transport \<times> 'k) reap_state \<Rightarrow> bool" where
  "tokio_reap_ok u0 st \<longleftrightarrow>
     (case st of ((t, k), b, reaped) \<Rightarrow>
        (\<exists>u. t = TokioUdp u \<and> tu_sock u = tu_sock u0 \<and> pool_ok (tu_pool u) {#} \<and> same_dims (tu_pool u) (tu_pool u0))
        \<and> frames b = [] \<and> batch_cap b = BATCH_DEPTH \<and> unat reaped < 50064)"

text \<open>A count below the target plus a burst does not wrap.\<close>

lemma unat_reaped:
  assumes "reaped < REAP_TARGET" and "n \<le> unat BATCH_DEPTH"
  shows "unat (reaped + word_of_nat n :: u64) = unat reaped + n" and "unat reaped + n < 50064"
proof -
  have r: "unat reaped < 50000" using assms(1) by (simp add: REAP_TARGET_def word_less_nat_alt)
  have n: "n \<le> 64" using assms(2) by (simp add: BATCH_DEPTH_def)
  then have "unat (word_of_nat n :: u64) = n" by (intro unat_word_of_nat_id) simp
  with r n show "unat (reaped + word_of_nat n :: u64) = unat reaped + n" by (simp add: unat_word_ariths)
  show "unat reaped + n < 50064" using r n by simp
qed

lemma mio_set_pool_laws:
  "cl_pool (mio_client sys) (cl_set_pool (mio_client sys) p s) = p"
  "cl_set_pool (mio_client sys) q (cl_set_pool (mio_client sys) p s) = cl_set_pool (mio_client sys) q s"
  "cl_set_pool (mio_client sys) (cl_pool (mio_client sys) s) s = s"
  by (cases s; cases "fst s"; simp)+

lemma tokio_set_pool_laws:
  "cl_pool (tokio_client sys) (cl_set_pool (tokio_client sys) p s) = p"
  "cl_set_pool (tokio_client sys) q (cl_set_pool (tokio_client sys) p s) = cl_set_pool (tokio_client sys) q s"
  "cl_set_pool (tokio_client sys) (cl_pool (tokio_client sys) s) s = s"
  by (cases s; cases "fst s"; simp)+

text \<open>
  One burst of the loop: what the socket gave, whether the loop goes on, and, when it does, with
  how many datagrams more and in what world.
\<close>

lemma mio_reap_batch:
  assumes "mio_reap_ok u0 ((MioUdp u, k), b, reaped)" and "fits_buffer (mio_recv_from sys (mu_sock u0))" and "reaped < REAP_TARGET"
  obtains c ds e k1 where "reap (mio_recv_from sys (mu_sock u0)) (unat (slab_size (mu_pool u))) (Suc c) k = (ds, e, k1)"
    "stop_ok e \<Longrightarrow> \<exists>u' b'. reap_batch (mio_client sys) ((MioUdp u, k), b, reaped) =
       Continue ((MioUdp u', record_recv_burst sys MIO_UDP_BACKEND (word_of_nat (length ds)) (total_bytes ds) k1), b', reaped + word_of_nat (length ds))
       \<and> mio_reap_ok u0 ((MioUdp u', record_recv_burst sys MIO_UDP_BACKEND (word_of_nat (length ds)) (total_bytes ds) k1), b', reaped + word_of_nat (length ds))
       \<and> unat (reaped + word_of_nat (length ds)) = unat reaped + length ds"
    "\<not> stop_ok e \<Longrightarrow> \<exists>u' b'. reap_batch (mio_client sys) ((MioUdp u, k), b, reaped) = Break (Some (Err (Io (the e)), (MioUdp u', k1), b'))"
proof -
  from assms(1) have I: "mu_sock u = mu_sock u0" "pool_ok (mu_pool u) {#}" "same_dims (mu_pool u) (mu_pool u0)"
    "frames b = []" "batch_cap b = BATCH_DEPTH" by (simp_all add: mio_reap_ok_def)
  have fit: "fits_buffer (mio_rf sys u)" using assms(2) I(1) by (simp add: mio_rf_def)
  have pos: "0 < BATCH_DEPTH" "0 < batch_cap b" by (simp_all add: I(5) BATCH_DEPTH_def)
  from mio.fresh_burst_granted [OF I(2,4) pos fit, of k] obtain c ds e k1 p fs where r:
    "reap (mio_rf sys u) (unat (slab_size (mu_pool u))) (Suc c) k = (ds, e, k1)"
    "mio_recv_burst sys u b BATCH_DEPTH k = Some (if stop_ok e then Ok (word_of_nat (length ds)) else Err (Io (the e)),
       mio_update p (bump_peer (mu_last_peer u) ds) u, b\<lparr>frames := fs\<rparr>,
       if stop_ok e then record_recv_burst sys MIO_UDP_BACKEND (word_of_nat (length ds)) (total_bytes ds) k1 else k1)"
    "length fs = length ds" "length ds \<le> unat BATCH_DEPTH" "same_dims p (mu_pool u)" "pool_ok p (mset (map frame_slot fs))"
    "\<forall>f \<in> set fs. readable_frame p f" .
  let ?u = "mio_update p (bump_peer (mu_last_peer u) ds) u"
  let ?k = "record_recv_burst sys MIO_UDP_BACKEND (word_of_nat (length ds)) (total_bytes ds) k1"
  have "\<exists>q. touch_frames (mio_client sys) fs (MioUdp ?u, ?k) = Some (cl_set_pool (mio_client sys) q (MioUdp ?u, ?k))
      \<and> pool_ok q {#} \<and> same_dims q (cl_pool (mio_client sys) (MioUdp ?u, ?k))"
    by (rule touch_ok) (use r(6,7) in \<open>auto simp: mio_set_pool_laws simp del: mset_map\<close>)
  then obtain q where q: "touch_frames (mio_client sys) fs (MioUdp ?u, ?k) = Some (MioUdp (?u\<lparr>mu_pool := q\<rparr>), ?k)"
    "pool_ok q {#}" "same_dims q p" by auto
  note cnt = unat_reaped [OF assms(3) r(4)]
  show thesis
  proof (rule that)
    show "reap (mio_recv_from sys (mu_sock u0)) (unat (slab_size (mu_pool u))) (Suc c) k = (ds, e, k1)"
      using r(1) I(1) by (simp add: mio_rf_def)
    assume "stop_ok e"
    with r(2) q(1) have step: "reap_batch (mio_client sys) ((MioUdp u, k), b, reaped) =
        Continue ((MioUdp (?u\<lparr>mu_pool := q\<rparr>), ?k), snd (batch_drain (b\<lparr>frames := fs\<rparr>)), reaped + word_of_nat (length ds))"
      by (simp add: reap_batch_def)
    have "mio_reap_ok u0 ((MioUdp (?u\<lparr>mu_pool := q\<rparr>), ?k), snd (batch_drain (b\<lparr>frames := fs\<rparr>)), reaped + word_of_nat (length ds))"
      using I q(2,3) r(5) cnt by (simp add: mio_reap_ok_def same_dims_def)
    with step cnt(1) show "\<exists>u' b'. reap_batch (mio_client sys) ((MioUdp u, k), b, reaped) = Continue ((MioUdp u', ?k), b', reaped + word_of_nat (length ds))
       \<and> mio_reap_ok u0 ((MioUdp u', ?k), b', reaped + word_of_nat (length ds))
       \<and> unat (reaped + word_of_nat (length ds)) = unat reaped + length ds" by blast
  next
    assume "\<not> stop_ok e"
    with r(2) show "\<exists>u' b'. reap_batch (mio_client sys) ((MioUdp u, k), b, reaped) = Break (Some (Err (Io (the e)), (MioUdp u', k1), b'))"
      by (simp add: reap_batch_def)
  qed
qed

lemma tokio_reap_batch:
  assumes "tokio_reap_ok u0 ((TokioUdp u, k), b, reaped)" and "fits_buffer (tokio_rf sys u0)" and "reaped < REAP_TARGET"
  obtains c ds e k1 where "reap (tokio_rf sys u0) (unat (slab_size (tu_pool u))) (Suc c) k = (ds, e, k1)"
    "stop_ok e \<Longrightarrow> \<exists>u' b'. reap_batch (tokio_client sys) ((TokioUdp u, k), b, reaped) =
       Continue ((TokioUdp u', record_recv_burst sys TOKIO_UDP_BACKEND (word_of_nat (length ds)) (total_bytes ds) k1), b', reaped + word_of_nat (length ds))
       \<and> tokio_reap_ok u0 ((TokioUdp u', record_recv_burst sys TOKIO_UDP_BACKEND (word_of_nat (length ds)) (total_bytes ds) k1), b', reaped + word_of_nat (length ds))
       \<and> unat (reaped + word_of_nat (length ds)) = unat reaped + length ds"
    "\<not> stop_ok e \<Longrightarrow> \<exists>u' b'. reap_batch (tokio_client sys) ((TokioUdp u, k), b, reaped) = Break (Some (Err (Io (the e)), (TokioUdp u', k1), b'))"
proof -
  from assms(1) have I: "tu_sock u = tu_sock u0" "pool_ok (tu_pool u) {#}" "same_dims (tu_pool u) (tu_pool u0)"
    "frames b = []" "batch_cap b = BATCH_DEPTH" by (simp_all add: tokio_reap_ok_def)
  have rf: "tokio_rf sys u = tokio_rf sys u0" using I(1) by (simp add: tokio_rf_def fun_eq_iff)
  have fit: "fits_buffer (tokio_rf sys u)" using assms(2) rf by simp
  have pos: "0 < BATCH_DEPTH" "0 < batch_cap b" by (simp_all add: I(5) BATCH_DEPTH_def)
  from tokio.fresh_burst_granted [OF I(2,4) pos fit, of k] obtain c ds e k1 p fs where r:
    "reap (tokio_rf sys u) (unat (slab_size (tu_pool u))) (Suc c) k = (ds, e, k1)"
    "tokio_recv_burst sys u b BATCH_DEPTH k = Some (if stop_ok e then Ok (word_of_nat (length ds)) else Err (Io (the e)),
       tokio_update p (bump_peer (tu_last_peer u) ds) u, b\<lparr>frames := fs\<rparr>,
       if stop_ok e then record_recv_burst sys TOKIO_UDP_BACKEND (word_of_nat (length ds)) (total_bytes ds) k1 else k1)"
    "length fs = length ds" "length ds \<le> unat BATCH_DEPTH" "same_dims p (tu_pool u)" "pool_ok p (mset (map frame_slot fs))"
    "\<forall>f \<in> set fs. readable_frame p f" .
  let ?u = "tokio_update p (bump_peer (tu_last_peer u) ds) u"
  let ?k = "record_recv_burst sys TOKIO_UDP_BACKEND (word_of_nat (length ds)) (total_bytes ds) k1"
  have "\<exists>q. touch_frames (tokio_client sys) fs (TokioUdp ?u, ?k) = Some (cl_set_pool (tokio_client sys) q (TokioUdp ?u, ?k))
      \<and> pool_ok q {#} \<and> same_dims q (cl_pool (tokio_client sys) (TokioUdp ?u, ?k))"
    by (rule touch_ok) (use r(6,7) in \<open>auto simp: tokio_set_pool_laws simp del: mset_map\<close>)
  then obtain q where q: "touch_frames (tokio_client sys) fs (TokioUdp ?u, ?k) = Some (TokioUdp (?u\<lparr>tu_pool := q\<rparr>), ?k)"
    "pool_ok q {#}" "same_dims q p" by auto
  note cnt = unat_reaped [OF assms(3) r(4)]
  show thesis
  proof (rule that)
    show "reap (tokio_rf sys u0) (unat (slab_size (tu_pool u))) (Suc c) k = (ds, e, k1)"
      using r(1) rf by simp
    assume "stop_ok e"
    with r(2) q(1) have step: "reap_batch (tokio_client sys) ((TokioUdp u, k), b, reaped) =
        Continue ((TokioUdp (?u\<lparr>tu_pool := q\<rparr>), ?k), snd (batch_drain (b\<lparr>frames := fs\<rparr>)), reaped + word_of_nat (length ds))"
      by (simp add: reap_batch_def)
    have "tokio_reap_ok u0 ((TokioUdp (?u\<lparr>tu_pool := q\<rparr>), ?k), snd (batch_drain (b\<lparr>frames := fs\<rparr>)), reaped + word_of_nat (length ds))"
      using I q(2,3) r(5) cnt by (simp add: tokio_reap_ok_def same_dims_def)
    with step cnt(1) show "\<exists>u' b'. reap_batch (tokio_client sys) ((TokioUdp u, k), b, reaped) = Continue ((TokioUdp u', ?k), b', reaped + word_of_nat (length ds))
       \<and> tokio_reap_ok u0 ((TokioUdp u', ?k), b', reaped + word_of_nat (length ds))
       \<and> unat (reaped + word_of_nat (length ds)) = unat reaped + length ds" by blast
  next
    assume "\<not> stop_ok e"
    with r(2) show "\<exists>u' b'. reap_batch (tokio_client sys) ((TokioUdp u, k), b, reaped) = Break (Some (Err (Io (the e)), (TokioUdp u', k1), b'))"
      by (simp add: reap_batch_def)
  qed
qed

end
