(* ===== verification/Recv_Metrics_Props.thy ===== *)
theory Recv_Metrics_Props imports Recv_Metrics begin

text \<open>
  When the reap loops of the metrics examples end: the \<open>mio\<close> one when the flood does not dry up, the
  \<open>tokio\<close> one always, by its deadline.
\<close>

section \<open>The whole program\<close>

text \<open>Every return of the programs is one of their reap loops', or comes before it.\<close>

lemma mio_metrics_main_runs:
  assumes "ex_observe env k = (Ok (), k1)" and "mio_udp_bind sys example_bind recv_buf_config_default send_buf_config_default
      ring_config_default batch_config_default affinity_config_default (ex_gate env k1) = Some (Ok u, k2)"
  shows "mio_metrics_main sys env k = example_finish env (mio_metrics_reap sys (MioUdp u) (ex_flood env (mu_local u) k2))"
    and "pool_ok (mu_pool u) {#}"
  using assms build_pool_ok [OF mio_bind_pool [OF assms(2)]] by (simp_all add: mio_metrics_main_def mio_local_addr_def)

lemma tokio_metrics_main_runs:
  assumes "ex_observe env k = (Ok (), k1)" and "tokio_udp_bind sys example_bind recv_buf_config_default send_buf_config_default
      ring_config_default batch_config_default affinity_config_default (ex_gate env k1) = Some (Ok u, k2)"
    and "local_addr_of sys (tu_sock u) k2 = (Ok a, k3)"
  shows "tokio_metrics_main sys env k = example_finish env (tokio_metrics_reap sys (TokioUdp u) (ex_flood env a k3))"
    and "pool_ok (tu_pool u) {#}"
  using assms build_pool_ok [OF tokio_bind_pool [OF assms(2)]]
  by (simp_all add: tokio_metrics_main_def tokio_local_addr_def eff_simps)

section \<open>How a burst ends\<close>

lemma reap_nothing: "reap rf w (Suc c) k = ([], e, k1) \<Longrightarrow> \<exists>e'. rf w k = (Err e', k1) \<and> e = Some e'"
  by (auto split: prod.splits result.splits)

lemma reap_error: "reap rf w c k = (ds, Some e, k1) \<Longrightarrow> \<exists>k0. rf w k0 = (Err e, k1)"
  by (induction rf w c k arbitrary: ds rule: reap.induct) (auto split: prod.splits result.splits)

text \<open>
  A flood that never dries up: no more than \<open>B\<close> receives in a row find nothing, \<open>m\<close> counting how
  many still may, and the only error of a receive is that it would block.
\<close>

definition steady_feed :: "'k os \<Rightarrow> fd \<Rightarrow> ('k \<Rightarrow> nat) \<Rightarrow> nat \<Rightarrow> bool" where
  "steady_feed sys s m B \<longleftrightarrow>
     (\<forall>k. m k \<le> B) \<and> (\<forall>nm l v k. m (counter_increment sys nm l v k) = m k)
   \<and> (\<forall>w k e k'. mio_recv_from sys s w k = (Err e, k') \<longrightarrow> err_kind e = WouldBlock \<and> m k' < m k)"

lemma steady_feed_record: "steady_feed sys s m B \<Longrightarrow> m (record_recv_burst sys backend n t k) = m k"
  by (simp add: steady_feed_def record_recv_burst_def)

lemma steady_feed_reap:
  assumes "steady_feed sys s m B" and "reap (mio_recv_from sys s) w (Suc c) k = (ds, e, k1)"
  shows "stop_ok e" and "ds = [] \<Longrightarrow> m k1 < m k"
proof -
  show "stop_ok e"
  proof (cases e)
    case (Some e')
    with reap_error [of "mio_recv_from sys s" w "Suc c" k ds e' k1] assms show ?thesis
      unfolding steady_feed_def by (auto simp: stop_ok_def simp del: reap.simps)
  qed (simp add: stop_ok_def)
  assume "ds = []"
  with reap_nothing [of "mio_recv_from sys s" w c k e k1] assms show "m k1 < m k"
    unfolding steady_feed_def by blast
qed

text \<open>
  A clock that runs: reading it changes nothing, and every receive takes time, \<open>m\<close> counting how
  many may still end before the clock's next tick.
\<close>

definition clock_runs :: "'k os \<Rightarrow> fd \<Rightarrow> ('k \<Rightarrow> nat) \<Rightarrow> ('k \<Rightarrow> nat) \<Rightarrow> nat \<Rightarrow> bool" where
  "clock_runs sys s now m B \<longleftrightarrow>
     (\<forall>k. instant_now sys k = (now k, k)) \<and> (\<forall>k. m k \<le> B)
   \<and> (\<forall>w k r k'. s2_recv_from sys s w k = (r, k') \<longrightarrow> later now m k k')
   \<and> (\<forall>fs msg k. now (warn sys fs msg k) = now k \<and> m (warn sys fs msg k) = m k)
   \<and> (\<forall>nm l v k. now (counter_increment sys nm l v k) = now k \<and> m (counter_increment sys nm l v k) = m k)"

lemma later_record:
  "clock_runs sys s now m B \<Longrightarrow> later now m k (record_recv_burst sys backend n t k1) = later now m k k1"
  by (simp add: clock_runs_def later_def record_recv_burst_def)

lemma later_rf:
  assumes "clock_runs sys (tu_sock u) now m B" and "tokio_rf sys u w k = (r, k')"
  shows "later now m k k'"
proof -
  obtain x k1 where x: "s2_recv_from sys (tu_sock u) w k = (x, k1)" by force
  with assms(1) have l: "later now m k k1" unfolding clock_runs_def by blast
  have "now k' = now k1 \<and> m k' = m k1"
    using assms x by (auto simp: tokio_rf_def clock_runs_def split: result.splits prod.splits option.splits)
  with l show ?thesis by (simp add: later_def)
qed

lemma later_reap:
  assumes "clock_runs sys (tu_sock u) now m B" and "reap (tokio_rf sys u) w (Suc c) k = (ds, e, k1)"
  shows "later now m k k1"
  using assms(2)
proof (induction c arbitrary: k ds)
  case 0
  then show ?case using later_rf [OF assms(1)] by (auto split: prod.splits result.splits)
next
  case (Suc c)
  obtain r k2 where r: "tokio_rf sys u w k = (r, k2)" by force
  note l = later_rf [OF assms(1) r]
  show ?case
  proof (cases r)
    case (Err e')
    with Suc.prems r l show ?thesis by simp
  next
    case (Ok x)
    obtain ds' where "reap (tokio_rf sys u) w (Suc c) k2 = (ds', e, k1)"
      using Suc.prems r Ok by (subst (asm) reap.simps(2)) (auto simp del: reap.simps split: prod.splits)
    from Suc.IH [OF this] l show ?thesis by (rule later_trans [rotated])
  qed
qed

section \<open>Properties\<close>

lemma mio_round_feed:
  assumes "mio_reap_ok u0 ((MioUdp u, k), b, reaped)" and "fits_buffer (mio_recv_from sys (mu_sock u0))"
    and "steady_feed sys (mu_sock u0) m B" and "reaped < REAP_TARGET"
  shows "\<exists>u' k' b' reaped'. mio_metrics_round sys ((MioUdp u, k), b, reaped) = Continue ((MioUdp u', k'), b', reaped')
    \<and> mio_reap_ok u0 ((MioUdp u', k'), b', reaped')
    \<and> (50064 - unat reaped') * Suc B + m k' < (50064 - unat reaped) * Suc B + m k"
proof (rule mio_reap_batch [OF assms(1,2,4)])
  fix c ds e k1
  let ?k = "record_recv_burst sys MIO_UDP_BACKEND (word_of_nat (length ds)) (total_bytes ds) k1"
  assume r: "reap (mio_recv_from sys (mu_sock u0)) (unat (slab_size (mu_pool u))) (Suc c) k = (ds, e, k1)"
    and cont: "stop_ok e \<Longrightarrow> \<exists>u' b'. reap_batch (mio_client sys) ((MioUdp u, k), b, reaped) =
       Continue ((MioUdp u', ?k), b', reaped + word_of_nat (length ds))
       \<and> mio_reap_ok u0 ((MioUdp u', ?k), b', reaped + word_of_nat (length ds))
       \<and> unat (reaped + word_of_nat (length ds)) = unat reaped + length ds"
  note f = steady_feed_reap [OF assms(3) r]
  from cont [OF f(1)] obtain u' b' where s: "reap_batch (mio_client sys) ((MioUdp u, k), b, reaped) =
      Continue ((MioUdp u', ?k), b', reaped + word_of_nat (length ds))"
    "mio_reap_ok u0 ((MioUdp u', ?k), b', reaped + word_of_nat (length ds))"
    "unat (reaped + word_of_nat (length ds)) = unat reaped + length ds" by blast
  have m: "m ?k = m k1" "m k1 \<le> B" using steady_feed_record [OF assms(3)] assms(3) by (simp_all add: steady_feed_def)
  have lt: "unat reaped < 50000" using assms(4) by (simp add: REAP_TARGET_def word_less_nat_alt)
  have "(50064 - (unat reaped + length ds)) * Suc B + m k1 < (50064 - unat reaped) * Suc B + m k"
  proof (cases ds)
    case Nil
    with f(2) show ?thesis by simp
  next
    case (Cons d ds')
    then have "Suc (50064 - (unat reaped + length ds)) \<le> 50064 - unat reaped" using lt by simp
    then have "Suc (50064 - (unat reaped + length ds)) * Suc B \<le> (50064 - unat reaped) * Suc B" by (rule mult_le_mono1)
    with m(2) show ?thesis by simp
  qed
  then have "(50064 - unat (reaped + word_of_nat (length ds))) * Suc B + m ?k < (50064 - unat reaped) * Suc B + m k"
    by (simp only: s(3) m(1))
  moreover have "mio_metrics_round sys ((MioUdp u, k), b, reaped) = Continue ((MioUdp u', ?k), b', reaped + word_of_nat (length ds))"
    using s(1) assms(4) by (simp add: mio_metrics_round_def)
  ultimately show ?thesis using s(2) by blast
qed

text \<open>
  C36: The reap loop of the \<open>mio\<close> example meets its target whenever the flood does not dry up for
  ever: it returns without an error, has counted at least 50000 and fewer than 50064 datagrams,
  and has given every slab back.
\<close>

theorem mio_example_meets_target:
  assumes "pool_ok (mu_pool u) {#}" and "fits_buffer (mio_recv_from sys (mu_sock u))" and "steady_feed sys (mu_sock u) m B"
  shows "\<exists>reaped u' k' b'. mio_metrics_reap sys (MioUdp u) k = Some (Ok reaped, (MioUdp u', k'), b')
    \<and> 50000 \<le> unat reaped \<and> unat reaped < 50064 \<and> pool_in_use (mu_pool u') = 0 \<and> frames b' = []"
proof -
  let ?s0 = "((MioUdp u, k), batch_with_capacity BATCH_DEPTH, 0) :: (mio_transport \<times> 'a) reap_state"
  let ?m = "\<lambda>((t, k), b, reaped). (50064 - unat reaped) * Suc B + m k"
  have I0: "mio_reap_ok u ?s0" using assms(1) by (simp add: mio_reap_ok_def)
  have round: "(\<exists>s'. mio_metrics_round sys s = Continue s' \<and> mio_reap_ok u s' \<and> ?m s' < ?m s)
      \<or> (\<exists>u' k' b' reaped. s = ((MioUdp u', k'), b', reaped) \<and> \<not> reaped < REAP_TARGET
           \<and> mio_metrics_round sys s = Break (Some (Ok reaped, (MioUdp u', k'), b')))" if "mio_reap_ok u s" for s
  proof -
    from that obtain u' k' b' reaped where s: "s = ((MioUdp u', k'), b', reaped)"
      by (auto simp: mio_reap_ok_def)
    show ?thesis
    proof (cases "reaped < REAP_TARGET")
      case True
      from mio_round_feed [OF that [unfolded s] assms(2,3) True] show ?thesis unfolding s by (intro disjI1) auto
    next
      case False
      then show ?thesis by (intro disjI2) (simp add: s mio_metrics_round_def)
    qed
  qed
  have "\<exists>r. run_blocking (mio_metrics_round sys) ?s0 = Some r"
    by (rule run_blocking_terminates [where I = "mio_reap_ok u" and m = ?m, OF I0]) (use round in fastforce)+
  then obtain r where r: "run_blocking (mio_metrics_round sys) ?s0 = Some r" by blast
  then have "\<exists>reaped u' k' b'. r = (Ok reaped, (MioUdp u', k'), b') \<and> \<not> reaped < REAP_TARGET \<and> mio_reap_ok u ((MioUdp u', k'), b', reaped)"
    by (rule run_blocking_invariant [where I = "mio_reap_ok u", OF _ I0]) (use round in fastforce)+
  then obtain reaped u' k' b' where e: "r = (Ok reaped, (MioUdp u', k'), b')" "\<not> reaped < REAP_TARGET"
    "mio_reap_ok u ((MioUdp u', k'), b', reaped)" by blast
  from e(3) have fin: "pool_ok (mu_pool u') {#}" "frames b' = []" "unat reaped < 50064" by (simp_all add: mio_reap_ok_def)
  from pool_ok_in_use [OF fin(1)] have "pool_in_use (mu_pool u') = 0" by (simp add: unat_eq_0)
  with r e fin show ?thesis
    by (simp add: mio_metrics_reap_def REAP_TARGET_def word_less_nat_alt)
qed

text \<open>A flood of two bytes at a time.\<close>

definition flood_os :: "nat os" where
  "flood_os = quiet_os\<lparr>mio_recv_from := (\<lambda>_ w k. (Ok (take w [1, 2], peer1), Suc k))\<rparr>"

theorem mio_example_meets_target_witness:
  "\<exists>reaped u' k' b'. mio_metrics_reap flood_os (MioUdp sample_mio) 0 = Some (Ok reaped, (MioUdp u', k'), b')
     \<and> 50000 \<le> unat reaped \<and> pool_in_use (mu_pool u') = 0"
proof -
  have "fits_buffer (mio_recv_from flood_os (mu_sock sample_mio))" by (auto simp: fits_buffer_def flood_os_def)
  moreover have "steady_feed flood_os (mu_sock sample_mio) (\<lambda>_. 0) 0"
    by (simp add: steady_feed_def flood_os_def quiet_os_def)
  ultimately show ?thesis
    using mio_example_meets_target [of sample_mio flood_os "\<lambda>_. 0" 0 0] sample_pool_ok by auto
qed

text \<open>
  The \<open>mio\<close> example has no deadline: when nothing ever arrives, as when the flooder could not bind or
  its sends fail, which it ignores, the loop spins for ever.
\<close>

lemma mio_example_spins:
  assumes "pool_ok (mu_pool u) {#}" and "\<And>w k. \<exists>e k'. mio_recv_from sys (mu_sock u) w k = (Err e, k') \<and> err_kind e = WouldBlock"
  shows "mio_metrics_reap sys (MioUdp u) k = None"
  unfolding mio_metrics_reap_def
proof (rule run_blocking_diverges [where I = "\<lambda>s. mio_reap_ok u s \<and> snd (snd s) = 0"])
  show "mio_reap_ok u ((MioUdp u, k), batch_with_capacity BATCH_DEPTH, 0)
      \<and> snd (snd ((MioUdp u, k), batch_with_capacity BATCH_DEPTH :: udp_frame frame_batch, 0 :: u64)) = 0"
    using assms(1) by (simp add: mio_reap_ok_def)
  have fit: "fits_buffer (mio_recv_from sys (mu_sock u))"
    using assms(2) unfolding fits_buffer_def by (metis Pair_inject result.distinct(1))
  fix s :: "(mio_transport \<times> 'a) reap_state" assume "mio_reap_ok u s \<and> snd (snd s) = 0"
  then obtain u' k' b' where s: "s = ((MioUdp u', k'), b', 0)" "mio_reap_ok u ((MioUdp u', k'), b', 0)"
    by (cases s) (auto simp: mio_reap_ok_def)
  have lt: "(0 :: u64) < REAP_TARGET" by (simp add: REAP_TARGET_def)
  show "mio_metrics_round sys s = Break None \<or> (\<exists>s'. mio_metrics_round sys s = Continue s' \<and> mio_reap_ok u s' \<and> snd (snd s') = 0)"
  proof (rule mio_reap_batch [OF s(2) fit lt])
    fix c ds e k1
    assume "reap (mio_recv_from sys (mu_sock u)) (unat (slab_size (mu_pool u'))) (Suc c) k' = (ds, e, k1)"
    moreover obtain e' k2 where "mio_recv_from sys (mu_sock u) (unat (slab_size (mu_pool u'))) k' = (Err e', k2)" "err_kind e' = WouldBlock"
      using assms(2) by blast
    ultimately have d: "ds = []" "stop_ok e" by (auto simp: stop_ok_def)
    assume cont: "stop_ok e \<Longrightarrow> \<exists>u'' b''. reap_batch (mio_client sys) ((MioUdp u', k'), b', 0) =
        Continue ((MioUdp u'', record_recv_burst sys MIO_UDP_BACKEND (word_of_nat (length ds)) (total_bytes ds) k1), b'', 0 + word_of_nat (length ds))
        \<and> mio_reap_ok u ((MioUdp u'', record_recv_burst sys MIO_UDP_BACKEND (word_of_nat (length ds)) (total_bytes ds) k1), b'', 0 + word_of_nat (length ds))
        \<and> unat (0 + word_of_nat (length ds) :: u64) = unat (0 :: u64) + length ds"
    from cont [OF d(2)] d(1) lt show ?thesis
      by (auto simp: s(1) mio_metrics_round_def)
  qed
qed

lemma tokio_round:
  assumes "tokio_reap_ok u0 ((TokioUdp u, k), b, reaped)" and "s2_fits sys (tu_sock u0)" and "clock_runs sys (tu_sock u0) now m B"
  obtains (goes_on) u' k' b' reaped' where
      "tokio_metrics_round sys start ((TokioUdp u, k), b, reaped) = Continue ((TokioUdp u', k'), b', reaped')"
      "tokio_reap_ok u0 ((TokioUdp u', k'), b', reaped')" "later now m k k'" "now k - start < 5000"
  | (ends) "tokio_metrics_round sys start ((TokioUdp u, k), b, reaped) = Break (Some (Ok reaped, (TokioUdp u, k), b))"
      "50000 \<le> unat reaped \<or> 5000 \<le> now k - start"
  | (fails) io u' k' b' where
      "tokio_metrics_round sys start ((TokioUdp u, k), b, reaped) = Break (Some (Err (Io io), (TokioUdp u', k'), b'))"
      "err_kind io \<noteq> WouldBlock"
proof -
  have clock: "instant_now sys k = (now k, k)" using assms(3) by (simp add: clock_runs_def)
  show thesis
  proof (cases "reaped < REAP_TARGET \<and> now k - start < MAX_RUN")
    case False
    then have "tokio_metrics_round sys start ((TokioUdp u, k), b, reaped) = Break (Some (Ok reaped, (TokioUdp u, k), b))"
      by (auto simp: tokio_metrics_round_def clock)
    with False show thesis by (intro ends) (auto simp: REAP_TARGET_def MAX_RUN_def word_less_nat_alt)
  next
    case True
    then have round: "tokio_metrics_round sys start ((TokioUdp u, k), b, reaped) = reap_batch (tokio_client sys) ((TokioUdp u, k), b, reaped)"
      by (simp add: tokio_metrics_round_def clock)
    show thesis
    proof (rule tokio_reap_batch [OF assms(1) s2_fits_rf [OF assms(2)] conjunct1 [OF True]])
      fix c ds e k1
      let ?k = "record_recv_burst sys TOKIO_UDP_BACKEND (word_of_nat (length ds)) (total_bytes ds) k1"
      assume r: "reap (tokio_rf sys u0) (unat (slab_size (tu_pool u))) (Suc c) k = (ds, e, k1)"
        and cont: "stop_ok e \<Longrightarrow> \<exists>u' b'. reap_batch (tokio_client sys) ((TokioUdp u, k), b, reaped) =
           Continue ((TokioUdp u', ?k), b', reaped + word_of_nat (length ds))
           \<and> tokio_reap_ok u0 ((TokioUdp u', ?k), b', reaped + word_of_nat (length ds))
           \<and> unat (reaped + word_of_nat (length ds)) = unat reaped + length ds"
        and stop: "\<not> stop_ok e \<Longrightarrow> \<exists>u' b'. reap_batch (tokio_client sys) ((TokioUdp u, k), b, reaped) = Break (Some (Err (Io (the e)), (TokioUdp u', k1), b'))"
      have l: "later now m k ?k" using later_reap [OF assms(3) r] later_record [OF assms(3)] by blast
      show thesis
      proof (cases "stop_ok e")
        case ok: True
        from cont [OF ok] obtain u' b' where "reap_batch (tokio_client sys) ((TokioUdp u, k), b, reaped) =
            Continue ((TokioUdp u', ?k), b', reaped + word_of_nat (length ds))"
          "tokio_reap_ok u0 ((TokioUdp u', ?k), b', reaped + word_of_nat (length ds))" by blast
        with l round True show thesis by (intro goes_on) (auto simp: MAX_RUN_def)
      next
        case bad: False
        from stop [OF bad] obtain u' b' where "reap_batch (tokio_client sys) ((TokioUdp u, k), b, reaped) =
          Break (Some (Err (Io (the e)), (TokioUdp u', k1), b'))" by blast
        moreover have "err_kind (the e) \<noteq> WouldBlock" using bad by (auto simp: stop_ok_def split: option.splits)
        ultimately show thesis using round by (intro fails) auto
      qed
    qed
  qed
qed

text \<open>
  C35: The reap loop of the \<open>tokio\<close> example always ends while the clock runs, whatever the socket
  does: with at least 50000 datagrams counted, with fewer after five seconds, or with a socket
  error; counted or not, no slab stays out when it ends without an error.
\<close>

theorem tokio_example_bounded:
  assumes "pool_ok (tu_pool u) {#}" and "s2_fits sys (tu_sock u)" and "clock_runs sys (tu_sock u) now m B"
  shows "\<exists>r t' k' b'. tokio_metrics_reap sys (TokioUdp u) k = Some (r, (t', k'), b')
    \<and> (case r of
         Ok reaped \<Rightarrow> (50000 \<le> unat reaped \<or> now k + 5000 \<le> now k') \<and> unat reaped < 50064
           \<and> pool_in_use (tokio_pool t') = 0 \<and> frames b' = []
       | Err e \<Rightarrow> \<exists>io. e = Io io \<and> err_kind io \<noteq> WouldBlock)"
proof -
  let ?s0 = "((TokioUdp u, k), batch_with_capacity 64, 0) :: (tokio_transport \<times> 'a) reap_state"
  let ?start = "now k"
  let ?m = "\<lambda>((t, k'), b, reaped). (?start + 5000 - now k') * Suc B + m k'"
  let ?I = "\<lambda>s. tokio_reap_ok u s \<and> ?start \<le> now (snd (fst s))"
  let ?P = "\<lambda>(r, (t', k'), b'). case r of
         Ok reaped \<Rightarrow> (50000 \<le> unat reaped \<or> ?start + 5000 \<le> now k') \<and> unat reaped < 50064
           \<and> pool_in_use (tokio_pool t') = 0 \<and> frames b' = []
       | Err e \<Rightarrow> \<exists>io. e = Io io \<and> err_kind io \<noteq> WouldBlock"
  have I0: "?I ?s0" using assms(1) by (simp add: tokio_reap_ok_def BATCH_DEPTH_def)
  have bound: "m k \<le> B" for k using assms(3) by (simp add: clock_runs_def)
  have round: "(\<exists>s'. tokio_metrics_round sys ?start s = Continue s' \<and> ?I s' \<and> ?m s' < ?m s)
      \<or> (\<exists>r. tokio_metrics_round sys ?start s = Break (Some r) \<and> ?P r)" if I: "?I s" for s
  proof -
    from I obtain u' k' b' reaped where s: "s = ((TokioUdp u', k'), b', reaped)" and ok: "tokio_reap_ok u ((TokioUdp u', k'), b', reaped)"
      and le: "?start \<le> now k'" by (cases s) (auto simp: tokio_reap_ok_def)
    from ok assms(2,3) show ?thesis
    proof (cases rule: tokio_round [where start = ?start])
      case (goes_on u2 k2 b2 reaped2)
      from later_decreases [OF goes_on(3) bound le goes_on(4)] goes_on(1,2) show ?thesis unfolding s by auto
    next
      case ends
      from ok have fin: "pool_ok (tu_pool u') {#}" "frames b' = []" "unat reaped < 50064" by (simp_all add: tokio_reap_ok_def)
      from pool_ok_in_use [OF fin(1)] have "pool_in_use (tu_pool u') = 0" by (simp add: unat_eq_0)
      with ends fin show ?thesis unfolding s by auto
    next
      case (fails io u2 k2 b2)
      then show ?thesis unfolding s by auto
    qed
  qed
  have "\<exists>r. run_blocking (tokio_metrics_round sys ?start) ?s0 = Some r"
    by (rule run_blocking_terminates [where I = ?I and m = ?m, OF I0]) (use round in fastforce)+
  then obtain r where r: "run_blocking (tokio_metrics_round sys ?start) ?s0 = Some r" by blast
  then have "?P r"
    by (rule run_blocking_invariant [where I = ?I, OF _ I0]) (use round in fastforce)+
  moreover have "instant_now sys k = (now k, k)" using assms(3) by (simp add: clock_runs_def)
  ultimately show ?thesis using r
    by (cases r) (auto simp: tokio_metrics_reap_def)
qed

text \<open>A socket on which nothing ever arrives; every receive takes a millisecond.\<close>

definition idle_clock_os :: "nat os" where
  "idle_clock_os = quiet_os\<lparr>s2_recv_from := (\<lambda>_ w k. (Err would_block, Suc k)), instant_now := (\<lambda>k. (k, k))\<rparr>"

theorem tokio_example_bounded_witness:
  "\<exists>r t' k' b'. tokio_metrics_reap idle_clock_os (TokioUdp sample_tokio) 0 = Some (r, (t', k'), b')"
proof -
  have "s2_fits idle_clock_os (tu_sock sample_tokio)" by (simp add: s2_fits_def idle_clock_os_def)
  moreover have "clock_runs idle_clock_os (tu_sock sample_tokio) (\<lambda>k. k) (\<lambda>_. 0) 0"
    by (auto simp: clock_runs_def later_def idle_clock_os_def quiet_os_def)
  ultimately show ?thesis
    using tokio_example_bounded [of sample_tokio idle_clock_os "\<lambda>k. k" "\<lambda>_. 0" 0 0] sample_pool_ok by auto
qed

end
