(* ===== verification/End_To_End.thy ===== *)
theory End_To_End imports Mock_Peer Mio_Udp_Props Tokio_Udp Mio_Tcp Tokio_Tcp begin

text \<open>
  The program end to end: the scripted peer (\<open>core/src/testing/mock_peer.rs\<close>) plays its script
  over a socket, a transport of either backend receives, and a reader of the framing takes the
  messages of the script out of what it got. Peer and transport share one world \<open>'k\<close>; the
  network between them is what the hypotheses say of it.
\<close>

section \<open>Datagrams\<close>

text \<open>The messages of a MoldUDP script, as \<open>decode_mold\<close> reads them: a heartbeat is an empty packet.\<close>

definition mold_contents :: "mock_action list \<Rightarrow> (nat \<times> bytes list) list" where
  "mold_contents script = concat (map (\<lambda>a. case a of
     SendMoldPacket seq payload \<Rightarrow> [(unat seq, [payload])]
   | SendMoldHeartbeat \<Rightarrow> [(0, [])]
   | _ \<Rightarrow> []) script)"

text \<open>An action of a MoldUDP script whose packet fits a slab of \<open>w\<close> bytes and its own length field.\<close>

definition mold_action :: "nat \<Rightarrow> mock_action \<Rightarrow> bool" where
  "mold_action w a \<longleftrightarrow> (case a of
     SendMoldPacket seq payload \<Rightarrow> length payload < 65536
   | SendSoupPacket ty payload \<Rightarrow> False
   | _ \<Rightarrow> True) \<and> list_all (\<lambda>d. length d \<le> w) (action_packets a)"

lemma mold_packets_decode:
  "list_all (mold_action w) script \<Longrightarrow>
     map decode_mold (script_packets script) = map Some (mold_contents script)
     \<and> list_all (\<lambda>d. length d \<le> w) (script_packets script)"
  by (induction script)
     (auto simp: mold_contents_def mold_action_def action_packets_def decode_mold_data decode_mold_heartbeat
       split: mock_action.splits)

text \<open>What part of the packets arrives, reads as the corresponding part of the messages.\<close>

lemma subseq_reads:
  assumes "subseq ds es" and "map f es = map g ms"
  obtains xs where "subseq xs ms" "map f ds = map g xs" "ds = es \<longrightarrow> xs = ms"
proof -
  have "subseq (map f ds) (map g ms)" using subseq_map [OF assms(1), of f] assms(2) by simp
  then obtain N where n: "map f ds = map g (nths ms N)"
    by (auto simp: subseq_conv_nths nths_map)
  show ?thesis
  proof (cases "ds = es")
    case True
    with assms(2) that [of ms] show ?thesis by simp
  next
    case False
    with n that [of "nths ms N"] show ?thesis by (auto simp: subseq_conv_nths)
  qed
qed

section \<open>Streams\<close>

text \<open>
  A reader of a SoupBinTCP stream: the complete packets in front, and what is left over, an
  incomplete packet (or a packet without a type byte, which no encoder writes).
\<close>

function soup_packets :: "bytes \<Rightarrow> (u8 \<times> bytes) list \<times> bytes" where
  "soup_packets bs =
     (let len = be_value (take 2 bs) in
      if length bs < 2 \<or> len = 0 \<or> length bs < 2 + len then ([], bs)
      else case soup_packets (drop (2 + len) bs) of
             (ms, rest) \<Rightarrow> ((bs ! 2, take (len - 1) (drop 3 bs)) # ms, rest))"
  by pat_completeness auto
termination by (relation "measure length") auto

declare soup_packets.simps [simp del]

definition soup_contents :: "mock_action list \<Rightarrow> (u8 \<times> bytes) list" where
  "soup_contents script = concat (map (\<lambda>a. case a of SendSoupPacket ty payload \<Rightarrow> [(ty, payload)] | _ \<Rightarrow> []) script)"

definition soup_action :: "mock_action \<Rightarrow> bool" where
  "soup_action a \<longleftrightarrow> (case a of
     SendMoldPacket seq payload \<Rightarrow> False
   | SendMoldHeartbeat \<Rightarrow> False
   | SendSoupPacket ty payload \<Rightarrow> length payload < 65535
   | _ \<Rightarrow> True)"

text \<open>The length field is the length at 16 bits; a packet is read as far as it says.\<close>

lemma soup_length_mod:
  "be_value (take 2 (encode_soup ty p @ rest)) = Suc (length p) mod 65536"
  using be_value_u16 [of "Suc (length p)"] by (simp add: encode_soup_def Let_def del: be_bytes.simps of_nat_Suc)

lemma soup_packets_read:
  "soup_packets (encode_soup ty p @ bs) =
     (let n = Suc (length p) mod 65536 in
      if n = 0 then ([], encode_soup ty p @ bs)
      else ((ty, take (n - 1) p) # fst (soup_packets (drop (n - 1) p @ bs)), snd (soup_packets (drop (n - 1) p @ bs))))"
proof -
  let ?n = "Suc (length p) mod 65536"
  have n: "?n \<le> Suc (length p)" by simp
  have e: "length (encode_soup ty p) = 3 + length p" "encode_soup ty p ! 2 = ty"
    by (simp_all add: encode_soup_def Let_def nth_append del: be_bytes.simps)
  show ?thesis
  proof (cases "?n = 0")
    case True
    then show ?thesis using soup_length_mod [of ty p bs] by (subst soup_packets.simps) simp
  next
    case False
    then obtain m where m: "?n = Suc m" by (auto simp: gr0_conv_Suc)
    with n have le: "m \<le> length p" by simp
    have cut: "drop (2 + Suc m) (encode_soup ty p @ bs) = drop m p @ bs" "take m (drop 3 (encode_soup ty p @ bs)) = take m p"
      using le by (simp_all add: encode_soup_def Let_def del: be_bytes.simps)
    show ?thesis
      using soup_length_mod [of ty p bs] m le e cut
      by (subst soup_packets.simps) (simp add: nth_append split: prod.split)
  qed
qed

lemma soup_length_field:
  "length p < 65535 \<Longrightarrow> be_value (take 2 (encode_soup ty p @ rest)) = 1 + length p"
  using soup_length_mod [of ty p rest] by simp

lemma soup_packets_complete:
  "length p < 65535 \<Longrightarrow> soup_packets (encode_soup ty p @ bs) = ((ty, p) # fst (soup_packets bs), snd (soup_packets bs))"
  by (simp add: soup_packets_read)

lemma soup_packets_incomplete:
  assumes "length p < 65535" and "n < length (encode_soup ty p)"
  shows "soup_packets (take n (encode_soup ty p)) = ([], take n (encode_soup ty p))"
proof (cases "n < 2")
  case True
  then show ?thesis by (subst soup_packets.simps) (simp add: Let_def min_less_iff_disj)
next
  case False
  then have "take 2 (take n (encode_soup ty p)) = take 2 (encode_soup ty p @ [])" by (simp add: min_def)
  with soup_length_field [OF assms(1), of ty "[]"]
  have "be_value (take 2 (take n (encode_soup ty p))) = 1 + length p" by simp
  moreover have "length (encode_soup ty p) = 3 + length p" by (simp add: encode_soup_def Let_def)
  ultimately show ?thesis using assms(2) by (subst soup_packets.simps) (simp add: Let_def)
qed

text \<open>However the stream is cut, what has arrived reads as the first messages and an incomplete one.\<close>

lemma soup_packets_cut:
  assumes "list_all (\<lambda>(ty, p). length p < 65535) ms"
  shows "\<exists>j rest. soup_packets (take n (concat (map (\<lambda>(ty, p). encode_soup ty p) ms))) = (take j ms, rest)
    \<and> (length (concat (map (\<lambda>(ty, p). encode_soup ty p) ms)) \<le> n \<longrightarrow> take j ms = ms \<and> rest = [])"
  using assms
proof (induction ms arbitrary: n)
  case Nil
  then show ?case by (simp add: soup_packets.simps)
next
  case (Cons m ms)
  obtain ty p where m: "m = (ty, p)" by force
  with Cons.prems have p: "length p < 65535" "list_all (\<lambda>(ty, p). length p < 65535) ms" by simp_all
  let ?e = "encode_soup ty p" and ?s = "concat (map (\<lambda>(ty, p). encode_soup ty p) ms)"
  show ?case
  proof (cases "n < length ?e")
    case True
    with soup_packets_incomplete [OF p(1) True] show ?thesis
      by (intro exI [of _ 0] exI [of _ "take n ?e"]) (simp add: m)
  next
    case False
    from Cons.IH [OF p(2), of "n - length ?e"] obtain j rest where
      r: "soup_packets (take (n - length ?e) ?s) = (take j ms, rest)"
      "length ?s \<le> n - length ?e \<longrightarrow> take j ms = ms \<and> rest = []" by blast
    from False r soup_packets_complete [OF p(1), of ty "take (n - length ?e) ?s"] show ?thesis
      by (intro exI [of _ "Suc j"] exI [of _ rest]) (auto simp: m)
  qed
qed

text \<open>The packets of a SoupBinTCP script are its messages, encoded.\<close>

lemma soup_script_packets:
  "list_all soup_action script \<Longrightarrow>
     script_packets script = map (\<lambda>(ty, p). encode_soup ty p) (soup_contents script)"
  by (induction script) (auto simp: soup_contents_def soup_action_def action_packets_def split: mock_action.splits)

lemma soup_contents_short:
  "list_all soup_action script \<Longrightarrow> list_all (\<lambda>(ty, p). length p < 65535) (soup_contents script)"
  by (induction script) (auto simp: soup_contents_def soup_action_def split: mock_action.splits)

text \<open>
  C40: The mock peer's packets say what they carry, as long as the length field can: a reader of one
  packet gets sequence number and payload (type and payload) back when the payload is shorter than
  65536 (65535) bytes and refuses the packet otherwise, and a heartbeat is an empty packet. A reader
  of a stream believes the length field, which is the length at 16 bits: behind a longer payload's
  packet it gets the payload cut to that length and takes the rest of it for further packets, or it
  does not get past the packet at all, when the field is zero.
\<close>

theorem mock_framing_round_trip:
  "decode_mold (encode_mold_data seq payload) = (if length payload < 65536 then Some (unat seq, [payload]) else None)
   \<and> decode_mold encode_mold_heartbeat = Some (0, [])
   \<and> decode_soup (encode_soup ty payload) = (if length payload < 65535 then Some (ty, payload) else None)
   \<and> soup_packets (encode_soup ty payload @ bs) =
       (let n = Suc (length payload) mod 65536 in
        if n = 0 then ([], encode_soup ty payload @ bs)
        else ((ty, take (n - 1) payload) # fst (soup_packets (drop (n - 1) payload @ bs)),
              snd (soup_packets (drop (n - 1) payload @ bs))))"
  by (intro conjI decode_mold_data decode_mold_heartbeat decode_soup_packet soup_packets_read)

section \<open>From the script to the reader\<close>

lemma script_packets_length: "length (script_packets script) \<le> length script"
  by (induction script) (auto simp: action_packets_def split: mock_action.splits)

text \<open>
  C7: A MoldUDP script reaches its reader. When the peer's run succeeds, the network may have lost
  datagrams but not altered, repeated or reordered them, and the slabs are wide enough, then the
  bursts of either UDP transport deliver every datagram that arrived, uncut, and a reader of the
  framing gets messages of the script, sequence numbers and payloads, in script order and each
  at most once; all of them when neither the peer nor the network dropped any.
\<close>

theorem mold_script_reaches_reader:
  assumes "datagram_net net sent" and "mp_kind peer = UdpPeer bind"
    and "mock_peer_run net peer k0 = Some (Ok report, k)" and "sent k0 = []"
    and "list_all (mold_action (unat w)) (mp_script peer)" and "subseq (map fst (pend k)) (sent k)"
    and "build_pool n w = Some (mu_pool m)" and "tu_pool t = mu_pool m"
    and "udp_queue sys (mio_recv_from sys (mu_sock m)) pend" and "udp_queue sys (tokio_rf sys t) pend"
    and "length (mp_script peer) \<le> sum_list (map (\<lambda>mx. min (min (unat mx) (unat c)) (unat n)) mxs)"
  shows "\<exists>xs ms. xs = map fst (pend k) \<and> map decode_mold xs = map Some ms
    \<and> subseq ms (mold_contents (mp_script peer))
    \<and> (\<not> np_positive net (mp_drop_rate peer) \<and> xs = sent k \<longrightarrow> ms = mold_contents (mp_script peer))
    \<and> (\<exists>s. pump mio_ops (backend_payload mu_pool) mxs (sys, m, k) (batch_with_capacity c) = Some (map Some xs, s))
    \<and> (\<exists>s. pump tokio_ops (backend_payload tu_pool) mxs (sys, t, k) (batch_with_capacity c) = Some (map Some xs, s))"
proof -
  let ?xs = "map fst (pend k)" and ?ps = "script_packets (mp_script peer)"
  obtain ds where ds: "subseq ds ?ps" "\<not> np_positive net (mp_drop_rate peer) \<longrightarrow> ds = ?ps" "sent k = ds"
    by (rule mock_udp_delivers_script [OF assms(1-3)]) (use assms(4) in simp)
  have sub: "subseq ?xs ?ps" using assms(6) ds(1,3) by (blast intro: subseq_order.order_trans)
  note dec = mold_packets_decode [OF assms(5)]
  obtain ms where ms: "subseq ms (mold_contents (mp_script peer))" "map decode_mold ?xs = map Some ms"
    "?xs = ?ps \<longrightarrow> ms = mold_contents (mp_script peer)"
    by (rule subseq_reads [OF sub conjunct1 [OF dec]])
  have fit: "list_all (\<lambda>d. length d \<le> unat w) ?xs"
    using conjunct2 [OF dec] list_emb_set [OF sub] by (fastforce simp: list_all_iff)
  have len: "length (pend k) \<le> sum_list (map (\<lambda>mx. min (min (unat mx) (unat c)) (unat n)) mxs)"
    using list_emb_length [OF sub] script_packets_length [of "mp_script peer"] assms(11) by simp
  from build_pool_ok [OF assms(7)] have p: "pool_ok (mu_pool m) {#}" "pool_capacity (mu_pool m) = n" "slab_size (mu_pool m) = w"
    by simp_all
  have "udp_queue sys (mio_rf sys m) pend" using assms(9) by (simp add: mio_rf_def)
  from mio.delivers_all [OF p(1) this, of k c mxs] fit len p
  have "\<exists>s. pump mio_ops (backend_payload mu_pool) mxs (sys, m, k) (batch_with_capacity c) = Some (map Some ?xs, s)" by simp
  moreover from tokio.delivers_all [OF _ assms(10), of k c mxs] fit len p assms(8)
  have "\<exists>s. pump tokio_ops (backend_payload tu_pool) mxs (sys, t, k) (batch_with_capacity c) = Some (map Some ?xs, s)" by simp
  ultimately show ?thesis using ms ds(2,3)
    by (intro exI [of _ ?xs] exI [of _ ms] conjI impI) simp_all
qed

text \<open>A network whose datagrams are queued for the receiver, and slabs that hold a heartbeat.\<close>

definition queue_net :: "(bool, queue_world) peer_net" where
  "queue_net = \<lparr>np_udp_bind = (\<lambda>_ k. Some (Ok 3, k)), np_recv_from = (\<lambda>_ _ k. None),
     np_send_to = (\<lambda>_ d _ k. Some (Ok (word_of_nat (length d)), k @ [(d, peer1)])),
     np_listen = (\<lambda>_ k. None), np_accept = (\<lambda>_ k. None), np_read_exact = (\<lambda>_ _ k. None), np_write_all = (\<lambda>_ _ k. None),
     np_sleep = (\<lambda>_ k. k), np_random_u64 = (\<lambda>a _ k. (a, k)), np_positive = (\<lambda>p. p), np_random_below = (\<lambda>_ k. (True, k))\<rparr>"

definition mold_peer :: "bool mock_peer" where
  "mold_peer = \<lparr>mp_kind = UdpPeer (SocketAddrV4 0 0), mp_script = [SendMoldPacket 7 [1, 2], SleepFor 5, SendMoldHeartbeat],
     mp_drop_rate = False, mp_jitter = (0, 0), mp_target = Some peer2\<rparr>"

definition wide_pool :: vec_pool where
  "wide_pool = \<lparr>slabs = map (\<lambda>_. replicate 32 0) [0..<2], free_list = [1, 0], slab_size = 32\<rparr>"

lemma build_wide: "build_pool 2 32 = Some wide_pool"
  by (simp add: build_pool_def wide_pool_def upt_rec)

theorem mold_script_reaches_reader_witness:
  "\<exists>xs s k. mock_peer_run queue_net mold_peer [] = Some (Ok \<lparr>actions_completed = 3, bytes_sent = 44, bytes_dropped_synthetic = 0\<rparr>, k)
    \<and> pump mio_ops (backend_payload mu_pool) [2, 2] (queue_os, sample_mio\<lparr>mu_pool := wide_pool\<rparr>, k) (batch_with_capacity 4) = Some (map Some xs, s)
    \<and> map decode_mold xs = map Some [(7, [[1, 2]]), (0, [])]"
proof -
  let ?k = "[(encode_mold_data 7 [1, 2], peer1), (encode_mold_heartbeat, peer1)]"
  have len: "length (encode_mold_data 7 [1, 2]) = 24" "length encode_mold_heartbeat = 20"
    by (simp_all add: encode_mold_data_def encode_mold_heartbeat_def del: be_bytes.simps)
  have run: "mock_peer_run queue_net mold_peer [] =
      Some (Ok \<lparr>actions_completed = 3, bytes_sent = 44, bytes_dropped_synthetic = 0\<rparr>, ?k)"
    by (simp add: mock_peer_run_def mold_peer_def run_udp_def queue_net_def send_udp_def jitter_and_draw_def
        maybe_jitter_def should_drop_def perform_def mock_run_report_default_def len)
  have net: "datagram_net queue_net (map fst)"
    by (simp add: datagram_net_def only_sends_log_def queue_net_def)
  have fits: "list_all (mold_action (unat (32 :: usize))) (mp_script mold_peer)"
    by (simp add: mold_peer_def mold_action_def action_packets_def len)
  have sends: "mp_kind mold_peer = UdpPeer (SocketAddrV4 0 0)" "\<not> np_positive queue_net (mp_drop_rate mold_peer)"
    "mold_contents (mp_script mold_peer) = [(7, [[1, 2]]), (0, [])]" "length (mp_script mold_peer) = 3"
    by (simp_all add: mold_peer_def queue_net_def mold_contents_def)
  have q: "udp_queue queue_os (mio_recv_from queue_os (mu_sock (sample_mio\<lparr>mu_pool := wide_pool\<rparr>))) (\<lambda>k. k)"
    "udp_queue queue_os (tokio_rf queue_os (sample_tokio\<lparr>tu_pool := wide_pool\<rparr>)) (\<lambda>k. k)"
    using queue_recv_is_queue by simp_all
  have "\<exists>xs ms. xs = map fst ?k \<and> map decode_mold xs = map Some ms \<and> subseq ms (mold_contents (mp_script mold_peer))
    \<and> (\<not> np_positive queue_net (mp_drop_rate mold_peer) \<and> xs = map fst ?k \<longrightarrow> ms = mold_contents (mp_script mold_peer))
    \<and> (\<exists>s. pump mio_ops (backend_payload mu_pool) [2, 2] (queue_os, sample_mio\<lparr>mu_pool := wide_pool\<rparr>, ?k) (batch_with_capacity 4)
          = Some (map Some xs, s))
    \<and> (\<exists>s. pump tokio_ops (backend_payload tu_pool) [2, 2] (queue_os, sample_tokio\<lparr>tu_pool := wide_pool\<rparr>, ?k) (batch_with_capacity 4)
          = Some (map Some xs, s))"
    by (rule mold_script_reaches_reader [OF net sends(1) run _ fits _ _ _ q, where n = 2]) (simp_all add: build_wide sends(4))
  then obtain xs ms s where w: "xs = map fst ?k" "map decode_mold xs = map Some ms"
    "\<not> np_positive queue_net (mp_drop_rate mold_peer) \<and> xs = map fst ?k \<longrightarrow> ms = mold_contents (mp_script mold_peer)"
    "pump mio_ops (backend_payload mu_pool) [2, 2] (queue_os, sample_mio\<lparr>mu_pool := wide_pool\<rparr>, ?k) (batch_with_capacity 4)
          = Some (map Some xs, s)" by (elim exE conjE) (rule that)
  from w(1,3) sends(2,3) have ms: "ms = [(7, [[1, 2]]), (0, [])]" by simp
  show ?thesis
    by (intro exI [of _ xs] exI [of _ s] exI [of _ ?k] conjI) (rule run, rule w(4), rule w(2) [unfolded ms])
qed

text \<open>
  C12: A SoupBinTCP script reaches its reader. When the peer's run succeeds and the stream carries
  what it wrote, then reads of either TCP transport into buffers with room, cut wherever they
  are, give a reader of the framing the first messages of those sent, types and payloads, and at
  most an incomplete one after them; as many reads as there are bytes give all, and
  \<open>UnexpectedEof\<close> comes only after the last. What was sent is the script's packets in order,
  all of them when the peer dropped none.
\<close>

theorem soup_script_reaches_reader:
  assumes "stream_net net wrote" and "mp_kind peer = TcpPeer bind"
    and "mock_peer_run net peer k0 = Some (Ok report, k)" and "wrote k0 = []" and "list_all soup_action (mp_script peer)"
    and "stream_holds sys (mt_stream m) k (wrote k) c" and "tt_stream t = mt_stream m" and "list_all has_room dsts"
  shows "\<exists>ms. subseq ms (soup_contents (mp_script peer))
    \<and> (\<not> np_positive net (mp_drop_rate peer) \<longrightarrow> ms = soup_contents (mp_script peer))
    \<and> (\<exists>bs e s j rest. read_buffers mio_stream_recv dsts (sys, m, k) = (bs, e, s) \<and> soup_packets bs = (take j ms, rest)
        \<and> (length (wrote k) \<le> length dsts \<or> e \<noteq> None \<longrightarrow> take j ms = ms \<and> rest = []))
    \<and> (\<exists>bs e s j rest. read_buffers tokio_stream_recv dsts (sys, t, k) = (bs, e, s) \<and> soup_packets bs = (take j ms, rest)
        \<and> (length (wrote k) \<le> length dsts \<or> e \<noteq> None \<longrightarrow> take j ms = ms \<and> rest = []))"
proof -
  let ?enc = "\<lambda>(ty, p). encode_soup ty p"
  obtain ds where ds: "subseq ds (script_packets (mp_script peer))"
    "\<not> np_positive net (mp_drop_rate peer) \<longrightarrow> ds = script_packets (mp_script peer)" "wrote k = concat ds"
    by (rule mock_tcp_delivers_script [OF assms(1-3)]) (use assms(4) in simp)
  have "map (\<lambda>d. d) (script_packets (mp_script peer)) = map ?enc (soup_contents (mp_script peer))"
    using soup_script_packets [OF assms(5)] by simp
  from subseq_reads [OF ds(1) this] obtain ms where ms: "subseq ms (soup_contents (mp_script peer))" "ds = map ?enc ms"
    "ds = script_packets (mp_script peer) \<longrightarrow> ms = soup_contents (mp_script peer)" by auto
  have short: "list_all (\<lambda>(ty, p). length p < 65535) ms"
    using soup_contents_short [OF assms(5)] list_emb_set [OF ms(1)] by (fastforce simp: list_all_iff)
  have reader: "\<exists>bs e s j rest. read_buffers recv dsts src = (bs, e, s) \<and> soup_packets bs = (take j ms, rest)
        \<and> (length (wrote k) \<le> length dsts \<or> e \<noteq> None \<longrightarrow> take j ms = ms \<and> rest = [])"
    if "\<exists>n e s'. read_buffers recv dsts src = (take n (wrote k), e, s') \<and> (e = None \<or> n = length (wrote k))
      \<and> (length (wrote k) \<le> length dsts \<longrightarrow> n = length (wrote k))" for recv :: "'s \<Rightarrow> _" and src
  proof -
    from that obtain n e s' where r: "read_buffers recv dsts src = (take n (wrote k), e, s')"
      "e = None \<or> n = length (wrote k)" "length (wrote k) \<le> length dsts \<longrightarrow> n = length (wrote k)" by blast
    from soup_packets_cut [OF short, of n] obtain j rest where
      "soup_packets (take n (wrote k)) = (take j ms, rest)" "length (wrote k) \<le> n \<longrightarrow> take j ms = ms \<and> rest = []"
      unfolding ds(3) ms(2) by blast
    with r show ?thesis
      by (intro exI [of _ "take n (wrote k)"] exI [of _ e] exI [of _ s'] exI [of _ j] exI [of _ rest]) auto
  qed
  have "(\<lambda>(sys, self, k). stream_holds sys (mt_stream self) k) (sys, m, k) (wrote k) c" using assms(6) by simp
  from mio_stream.reads_in_order [OF this assms(8)] have mio_reads:
    "\<exists>bs e s j rest. read_buffers mio_stream_recv dsts (sys, m, k) = (bs, e, s) \<and> soup_packets bs = (take j ms, rest)
        \<and> (length (wrote k) \<le> length dsts \<or> e \<noteq> None \<longrightarrow> take j ms = ms \<and> rest = [])"
    by (intro reader) blast
  have "(\<lambda>(sys, self, k). stream_holds sys (tt_stream self) k) (sys, t, k) (wrote k) c" using assms(6,7) by simp
  from tokio_stream.reads_in_order [OF this assms(8)] have tokio_reads:
    "\<exists>bs e s j rest. read_buffers tokio_stream_recv dsts (sys, t, k) = (bs, e, s) \<and> soup_packets bs = (take j ms, rest)
        \<and> (length (wrote k) \<le> length dsts \<or> e \<noteq> None \<longrightarrow> take j ms = ms \<and> rest = [])"
    by (intro reader) blast
  show ?thesis
  proof (intro exI [of _ ms] conjI impI)
    show "subseq ms (soup_contents (mp_script peer))" by (rule ms(1))
    show "ms = soup_contents (mp_script peer)" if "\<not> np_positive net (mp_drop_rate peer)" using ms(3) ds(2) that by simp
  qed (rule mio_reads, rule tokio_reads)
qed

theorem soup_script_reaches_reader_witness:
  "\<exists>k bs e s. mock_peer_run sample_net (sample_peer (TcpPeer (SocketAddrV4 0 0)) False) []
      = Some (Ok \<lparr>actions_completed = 4, bytes_sent = 8, bytes_dropped_synthetic = 0\<rparr>, k)
    \<and> read_buffers mio_stream_recv (replicate 8 [0, 0]) (stream_os, sample_tcp, k) = (bs, e, s)
    \<and> soup_packets bs = ([(83, [1, 2]), (83, [])], [])"
proof -
  let ?peer = "sample_peer (TcpPeer (SocketAddrV4 0 0)) False" and ?k = "[0, 3, 83, 1, 2, 0, 1, 83] :: bytes"
  have run: "mock_peer_run sample_net ?peer [] =
     Some (Ok \<lparr>actions_completed = 4, bytes_sent = 8, bytes_dropped_synthetic = 0\<rparr>, ?k)"
    by (simp add: mock_peer_run_def sample_peer_def run_tcp_def sample_net_def send_tcp_def expect_tcp_def
        jitter_and_draw_def maybe_jitter_def should_drop_def perform_def mock_run_report_default_def encode_soup_def be_bytes_2 Let_def)
  have peer: "mp_kind ?peer = TcpPeer (SocketAddrV4 0 0)" "list_all soup_action (mp_script ?peer)"
    "\<not> np_positive sample_net (mp_drop_rate ?peer)" "soup_contents (mp_script ?peer) = [(83, [1, 2]), (83, [])]"
    by (simp_all add: sample_peer_def soup_action_def soup_contents_def sample_net_def)
  have "stream_socket stream_os (mt_stream sample_tcp) (\<lambda>k. k) (\<lambda>k. False)" "reliable_stream stream_os (mt_stream sample_tcp)"
    by (auto simp: stream_socket_def reliable_stream_def stream_read_def would_block_def split: if_splits)
  then have holds: "stream_holds stream_os (mt_stream sample_tcp) ?k ?k False" unfolding stream_holds_def by blast
  have "tt_stream sample_tokio_tcp = mt_stream sample_tcp" "list_all has_room (replicate 8 [0, 0])"
    by (simp_all add: sample_tokio_tcp_def sample_tcp_def has_room_def list_all_iff)
  from soup_script_reaches_reader [OF sample_net_stream peer(1) run refl peer(2) holds this] obtain ms bs e s j rest where
    w: "\<not> np_positive sample_net (mp_drop_rate ?peer) \<longrightarrow> ms = soup_contents (mp_script ?peer)"
    "read_buffers mio_stream_recv (replicate 8 [0, 0]) (stream_os, sample_tcp, ?k) = (bs, e, s)" "soup_packets bs = (take j ms, rest)"
    "length ?k \<le> length (replicate 8 [0, 0 :: u8]) \<or> e \<noteq> None \<longrightarrow> take j ms = ms \<and> rest = []" by (elim exE conjE) (rule that)
  from w(1,4) peer(3,4) have "take j ms = [(83, [1, 2]), (83, [])]" "rest = []" by simp_all
  with w(2,3) show ?thesis by (intro exI [of _ ?k] exI [of _ bs] exI [of _ e] exI [of _ s] conjI run) simp_all
qed

end
