(* ===== verification/Spec2Isabelle.thy ===== *)
theory Spec2Isabelle imports Transport_Error Config Shared_Pool Mio_Udp_Props Mio_Transport Tokio_Transport Bind_Plan Mock_Source Mock_Peer Concurrent_Recv Bind_Suite Session_Props Mio_Async Tokio_Async Recv_Metrics_Props End_To_End begin

text \<open>
  Verification library of the \<open>transports\<close> workspace: market-data transports with a batch-first,
  pool-backed receive path, one contract (\<open>crates/core\<close>) and two backends (\<open>crates/mio\<close>,
  \<open>crates/tokio\<close>). This root theory holds the properties that span both backends.

  \<^bold>\<open>The program.\<close> A backend owns a socket and a pool of equally wide slabs. \<open>recv_burst\<close> acquires
  a slab, lets the kernel write one datagram into it, and pushes a frame that owns the slab into
  the caller's \<open>FrameBatch\<close>, until \<open>min(max, spare)\<close> frames are in, the socket would block, or
  the pool is empty. Dropping a frame, on any thread, returns the slab. A stream transport reads
  into the caller's buffer with \<open>recv_into\<close>. \<open>ready\<close> waits until a receive can make progress.
  The conformance suite of \<open>core\<close> drives any source through the contract.

  \<^bold>\<open>Theories and sources.\<close>
  \<^item> \<open>Prelude\<close>: widths, \<open>Result\<close>, effects \<open>('k, 'a, 'e) eff\<close>, \<open>Vec\<close> as a stack, the unbounded
    \<open>loop\<close> statement (\<open>run_loop\<close>, \<open>run_blocking\<close>: \<open>None\<close> when the loop runs for ever), decimals.
  \<^item> \<open>Net_Types\<close>: \<open>std::net\<close> addresses and \<open>std::io\<close> errors. \<open>Transport_Error\<close>, \<open>Config\<close>:
    \<open>core/src/error.rs\<close>, \<open>config.rs\<close>.
  \<^item> \<open>Buffer_Pool\<close> (locale \<open>buffer_pool\<close>): the trait of \<open>core/src/pool.rs\<close>. \<open>Vec_Pool\<close>: \<open>VecPool\<close>
    and \<open>VecSlab\<close> of \<open>mio/src/pool.rs\<close>, of which \<open>tokio/src/pool.rs\<close> is a copy, and the
    interpretation \<open>vp\<close>. \<open>Shared_Pool\<close>: any number of threads using one pool, as a step relation.
    \<open>Concurrent_Recv\<close>: the loop of \<open>recv_burst\<close> as a machine that interleaves with them.
  \<^item> \<open>Frame_Batch\<close>: \<open>FrameBatch\<close> (\<open>core/src/transport.rs\<close>) and \<open>UdpFrame\<close>. \<open>Sys\<close>: the calls the
    backends make outside the repository, and \<open>core/src/telemetry.rs\<close>.
  \<^item> \<open>Conformance\<close>: \<open>run_datagram_source\<close> with its five cases
    (\<open>core/src/testing/conformance.rs\<close>). \<open>Datagram_Source\<close> (locale \<open>datagram_source\<close>, an
    extension of \<open>buffer_pool\<close>): the contract of \<open>DatagramSource\<close> and \<open>PoolAccess\<close>; every source
    that keeps it passes the suite. \<open>Mock_Source\<close>: the suite's own reference pool and source,
    and the compiled example in the documentation of \<open>DatagramSource\<close>.
  \<^item> \<open>Recv_Reference\<close>: what a burst is meant to do, as the list of datagrams that repeated
    receives yield (\<open>reap\<close>), and the loop over a pool that both backends refine. \<open>Slab_Backend\<close>
    (locale \<open>slab_backend\<close>, which gives \<open>datagram_source\<close>): backends whose burst is that loop.
  \<^item> \<open>Mio_Poll\<close>, \<open>Mio_Udp\<close>, \<open>Mio_Udp_Props\<close>, \<open>Stream_Io\<close>, \<open>Mio_Tcp\<close>, \<open>Mio_Transport\<close>: \<open>mio/src/udp.rs\<close>,
    \<open>tcp.rs\<close>, \<open>lib.rs\<close>. \<open>Tokio_Wait\<close>, \<open>Tokio_Udp\<close>, \<open>Tokio_Tcp\<close>, \<open>Tokio_Transport\<close>: the same files
    of \<open>tokio/src\<close>. \<open>Stream_Source\<close> (locale \<open>stream_source\<close>): the contract of \<open>StreamSource\<close> and
    its reader, with both TCP transports as instances. An operation keeps the name of its method with the backend in front
    (\<open>mio_recv_burst\<close>, \<open>tokio_recv_burst\<close>); a loop of a method is a definition of its own.
  \<^item> \<open>Bind_Plan\<close>: the system calls of binding and connecting, in order, under every pattern of
    failures. \<open>Bind_Suite\<close> (locale \<open>transport_bind\<close>): the trait \<open>TransportBind\<close> of \<open>core/src/ext.rs\<close>
    and the bind and connect suite over it. \<open>Transport_Session\<close> (locale \<open>transport_client\<close>),
    \<open>Mio_Session\<close>, \<open>Tokio_Session\<close>, \<open>Session_Props\<close>: a client that calls the operations of \<open>MioTransport\<close> or
    \<open>TokioTransport\<close> in any order and keeps or drops its frames. \<open>Async_Ready\<close> (locales
    \<open>ready_source\<close> and \<open>async_ready\<close>, its extension), \<open>Mio_Async\<close>, \<open>Tokio_Async\<close>: the contract of
    \<open>AsyncReady\<close>, a receiver that awaits \<open>ready\<close> before each receive, and the transports as instances,
    the \<open>mio\<close> ones of the first and the \<open>tokio\<close> ones of both. \<open>Recv_Metrics\<close>,
    \<open>Recv_Metrics_Props\<close>: the programs under \<open>examples\<close> of both crates. \<open>Mock_Peer\<close>: \<open>core/src/testing/mock_peer.rs\<close>;
    \<open>End_To_End\<close>: peer, transport and reader together. \<open>Sample_World\<close>: small concrete worlds
    the witnesses run in.

  \<^bold>\<open>What is shown.\<close>
  \<^item> Pool: construction is checked for its bounds, acquire and drop refine a counter, the free list
    and the live slabs partition the slots under every interleaving of threads, so that no two
    live slabs share a slot (what \<open>unsafe impl Sync\<close> rests on), and slab contents are isolated.
  \<^item> Receive: each backend's burst is the reference burst (frames, order, contents, senders, pool,
    telemetry, errors); \<open>PoolExhausted\<close> is characterised; no panic; nothing is lost or reordered
    over any schedule of bursts; all sources pass the suite and the backends agree with each other. While
    other threads acquire, write and drop slabs, a burst still delivers what the socket gave,
    shares no slot and returns in a bounded number of its steps; undisturbed, it takes all it can.
  \<^item> Sessions: whatever a client does, a transport keeps its variant, socket and pool dimensions,
    the slabs out are those of the client's frames, and a kept frame reads the same bytes.
  \<^item> Streams: a reader gets what the peer sent, in order and whole, and then the end of the stream.
  \<^item> Waiting and sending: when \<open>ready\<close>, \<open>send\<close> and \<open>wait_connect\<close> return, and what holds then
    (\<open>awaits\<close> in \<open>Mio_Poll\<close> says, by the answers of peek and poll, what a \<open>ready\<close> of \<open>mio\<close> is meant to
    do); the stream send writes the whole buffer or fails, with exactly a prefix written.
  \<^item> Readiness: a receiver that awaits \<open>ready\<close> before each receive never waits while there is something
    to receive and gets all of it in order, on all four transports. On the \<open>tokio\<close> ones it never
    completes a round without receiving; on the \<open>mio\<close> ones, where an event may be spurious, it does
    not before it has received all that was there.
  \<^item> Examples: the \<open>mio\<close> reap loop meets its target unless the flood dries up, and then spins; the
    \<open>tokio\<close> one ends by its deadline.
  \<^item> Set-up, dispatch, errors: the call plans with their arguments, the handshake of a \<open>mio\<close> connect
    call by call, the report of the bind and connect suite and when it
    waits for ever, the refused shapes, error texts that identify the variant; the mock peer's
    framing and accounting.
  \<^item> End to end: what the mock peer's script sends, a reader of the framing gets from the transport:
    messages of the script in order, each at most once, and all of them when nothing was dropped.

  \<^bold>\<open>Outside the repository.\<close> The kernel, \<open>socket2\<close>, \<open>mio\<close>, \<open>tokio\<close>, \<open>libc\<close>, the clock, \<open>tracing\<close>
  and the metrics recorder are fields of the record \<open>'k os\<close> over an opaque world \<open>'k\<close>; nothing of
  them is defined. A property that relies on their documented behaviour names it as a hypothesis:
  \<open>fits_buffer\<close> (a receive writes no more than the buffer), \<open>udp_queue\<close> (a quiet socket is a
  queue), \<open>peek_sees\<close> (a peek tells whether data is queued), \<open>try_io_contract\<close> (tokio clears the
  cached readiness when the closure would block), \<open>tcp_sink\<close> and \<open>stream_socket\<close> (writes accept
  prefixes, reads take prefixes), \<open>stream_holds\<close> (such a stream that only blocks when it is empty),
  \<open>peek_truthful\<close>, \<open>stream_peek\<close> and \<open>reactor_truthful\<close> (a peek sees the input, an await completes when
  there is some; nothing is assumed of the events of \<open>mio\<close>), \<open>timed_polls\<close> (a clock that does not go
  back and polls that respect their timeout, which may return early),
  \<open>steady_feed\<close> and \<open>clock_runs\<close> (of the examples: no endless drought, a clock that advances),
  \<open>stream_net\<close> and \<open>datagram_net\<close> (only the peer's sends put bytes on the wire); \<open>conf_net\<close> holds the listener of the bind suite and the await of its accept task. Each such property has a witness on a concrete
  world. \<open>async\<close> functions are their bodies; an await that never completes is \<open>None\<close>.

  \<^bold>\<open>Conventions and bounds.\<close> \<open>usize\<close> is 64 bits wide; arithmetic is that of the release profile, so
  it wraps. A panic is \<open>None\<close>. \<open>Vec::with_capacity\<close> gives exactly the capacity asked for, and
  growth doubles it; the receive path never grows a batch, so its properties do not depend on
  that. The loops of the receive path and of the suite are bounded by the code (by the cap, by 8
  and by 1024 rounds) and total here; the others are \<open>run_loop\<close>s, and whether they return is
  proved. A mutex is a step: acquire, drop and each read of the pool's numbers are atomic, and
  nothing else is: \<open>Concurrent_Recv\<close> lets other threads run between any two of them.

  \<^bold>\<open>Not modelled.\<close> The serde derives, the trait \<open>TimestampedPayload\<close> (implemented by nothing in the
  workspace), tests and benches, and the closing of a socket when its transport, or a set-up that
  failed half-way, is dropped. Of the examples, the exporter that is installed and the join of
  the flooding thread are parameters. Left out for want of a source to translate: the weak-memory
  view of the pool's mutex and the rounding of granted buffer sizes, which are the standard
  library's and the kernel's.
\<close>

section \<open>The two backends agree\<close>

lemma burst_call_label:
  "map_option (\<lambda>(r, p, lp, out, k). (r, p, lp, out)) (burst_call sys a rf p lp out mx k) =
     map_option (\<lambda>(r, p, lp, out, k). (r, p, lp, out)) (burst_call sys b rf p lp out mx k)"
  by (simp add: burst_call_def split: option.split prod.split result.split)

text \<open>
  C27: The two UDP backends are interchangeable on the receive path: when \<open>socket2\<close>'s \<open>recv_from\<close>
  answers what \<open>mio\<close>'s does, with every sender resolved, a burst of the tokio transport returns
  the same result, the same frames in the same slots, the same pool and the same last peer as a
  burst of the mio transport over an equal pool.
\<close>

theorem udp_backends_agree:
  assumes "tu_pool t = mu_pool m" and "tu_last_peer t = mu_last_peer m"
    and "\<And>w k. s2_recv_from sys (tu_sock t) w k =
      (case mio_recv_from sys (mu_sock m) w k of (r, k') \<Rightarrow> (map_ok (\<lambda>(d, a). (d, Some a)) r, k'))"
  shows "map_option (\<lambda>(r, t', out', k'). (r, tu_pool t', tu_last_peer t', out')) (tokio_recv_burst sys t out mx k) =
    map_option (\<lambda>(r, m', out', k'). (r, mu_pool m', mu_last_peer m', out')) (mio_recv_burst sys m out mx k)"
proof -
  have "tokio_rf sys t w k = mio_rf sys m w k" for w k
    by (simp add: tokio_rf_def mio_rf_def assms(3) split: prod.split result.split)
      (auto split: prod.split result.split)
  then have "tokio_rf sys t = mio_rf sys m" by (intro ext)
  with burst_call_label [of sys TOKIO_UDP_BACKEND "mio_rf sys m" "mu_pool m" "mu_last_peer m" out mx k MIO_UDP_BACKEND]
  show ?thesis
    by (simp add: tokio_recv_burst_call mio_recv_burst_call assms(1,2) option.map_comp comp_def case_prod_unfold)
qed

theorem udp_backends_agree_witness:
  "map_option fst (tokio_recv_burst queue_os sample_tokio (batch_with_capacity 4) 8 sample_queue) =
     map_option fst (mio_recv_burst queue_os sample_mio (batch_with_capacity 4) 8 sample_queue)"
proof -
  have "map_option fst (map_option (\<lambda>(r, t', out', k'). (r, tu_pool t', tu_last_peer t', out'))
        (tokio_recv_burst queue_os sample_tokio (batch_with_capacity 4) 8 sample_queue)) =
      map_option fst (map_option (\<lambda>(r, m', out', k'). (r, mu_pool m', mu_last_peer m', out'))
        (mio_recv_burst queue_os sample_mio (batch_with_capacity 4) 8 sample_queue))"
    by (subst udp_backends_agree [of sample_tokio sample_mio])
       (simp_all add: queue_os_def sample_tokio_def sample_mio_def)
  then show ?thesis by (simp add: option.map_comp comp_def case_prod_unfold)
qed

section \<open>The conformance suite and delivery in order\<close>

text \<open>
  C6: Over any sequence of bursts of any sizes whose frames are read and dropped in between, either
  UDP transport delivers the queued datagrams in order of arrival, each exactly once, cut to the
  slab width; what is not yet delivered is still queued, and no slab stays out.
\<close>

theorem bursts_deliver_in_order:
  assumes "pool_ok (mu_pool m) {#}" and "tu_pool t = mu_pool m"
    and "udp_queue sys (mio_recv_from sys (mu_sock m)) pend" and "udp_queue sys (tokio_rf sys t) pend"
    and "w = unat (slab_size (mu_pool m))"
    and "N = sum_list (map (\<lambda>mx. min (min (unat mx) (unat c)) (unat (pool_capacity (mu_pool m)))) mxs)"
  shows "(\<exists>s'. pump mio_ops (backend_payload mu_pool) mxs (sys, m, k) (batch_with_capacity c) =
        Some (map Some (take N (map (take w \<circ> fst) (pend k))), s')
      \<and> backend_src mio_rf mu_pool s' {#} (drop N (map (take w \<circ> fst) (pend k))))
    \<and> (\<exists>s'. pump tokio_ops (backend_payload tu_pool) mxs (sys, t, k) (batch_with_capacity c) =
        Some (map Some (take N (map (take w \<circ> fst) (pend k))), s')
      \<and> backend_src tokio_rf tu_pool s' {#} (drop N (map (take w \<circ> fst) (pend k))))"
proof (rule conjI)
  have "udp_queue sys (mio_rf sys m) pend" using assms(3) by (simp add: mio_rf_def)
  from mio.delivers_in_order [OF assms(1) this assms(5,6)]
  show "\<exists>s'. pump mio_ops (backend_payload mu_pool) mxs (sys, m, k) (batch_with_capacity c) =
        Some (map Some (take N (map (take w \<circ> fst) (pend k))), s')
      \<and> backend_src mio_rf mu_pool s' {#} (drop N (map (take w \<circ> fst) (pend k)))" .
  show "\<exists>s'. pump tokio_ops (backend_payload tu_pool) mxs (sys, t, k) (batch_with_capacity c) =
        Some (map Some (take N (map (take w \<circ> fst) (pend k))), s')
      \<and> backend_src tokio_rf tu_pool s' {#} (drop N (map (take w \<circ> fst) (pend k)))"
    by (rule tokio.delivers_in_order) (use assms in simp_all)
qed

theorem bursts_deliver_in_order_witness:
  "(\<exists>s'. pump mio_ops (backend_payload mu_pool) [1, 5] (queue_os, sample_mio, sample_queue) (batch_with_capacity 8) =
      Some ([Some [1, 2], Some [3], Some [4, 5, 6, 7]], s'))
   \<and> (\<exists>s'. pump tokio_ops (backend_payload tu_pool) [1, 5] (queue_os, sample_tokio, sample_queue) (batch_with_capacity 8) =
      Some ([Some [1, 2], Some [3], Some [4, 5, 6, 7]], s'))"
proof -
  have q: "udp_queue queue_os (mio_recv_from queue_os (mu_sock sample_mio)) (\<lambda>k. k)" "udp_queue queue_os (tokio_rf queue_os sample_tokio) (\<lambda>k. k)"
    using queue_recv_is_queue by simp_all
  have p: "pool_ok (mu_pool sample_mio) {#}" "tu_pool sample_tokio = mu_pool sample_mio" using sample_pool_ok by simp_all
  have n: "min (unat (1 :: usize)) 2 + min (unat (5 :: usize)) 2 = 3" "unat (pool_capacity sample_pool) = 2"
    by (simp_all add: sample_pool_def pool_capacity_def)
  have ds: "map (take 4 \<circ> fst) sample_queue = [[1, 2], [3], [4, 5, 6, 7]]" by (simp add: sample_queue_def)
  from bursts_deliver_in_order [OF p q refl refl, where c = 8 and mxs = "[1, 5]" and k = sample_queue]
  show ?thesis by (auto simp: sample_width ds n)
qed

text \<open>
  C24: The datagram conformance suite passes on both UDP transports, with a freshly built pool of
  two slabs or more, on sockets that behave like datagram queues, and on the suite's own
  reference source: all five cases are recorded as passed, in their order, and none as failed.
\<close>

theorem sources_pass_conformance:
  assumes "build_pool c w = Some (mu_pool m)" and "tu_pool t = mu_pool m" and "2 \<le> unat c"
    and "udp_queue sys (mio_recv_from sys (mu_sock m)) pend" and "udp_queue sys (tokio_rf sys t) pend"
    and "\<And>cnt. length (pend (world cnt)) = cnt"
    and "report = \<lparr>passed = [''burst_leq_max'', ''single_is_burst_of_one'', ''drains_to_ok_zero'',
      ''pool_reclaim_after_foreign_drop'', ''pool_exhausted_when_empty''], failed = []\<rparr>"
  shows "run_datagram_source mio_ops (\<lambda>cnt. (sys, m, world cnt)) = Some report
    \<and> run_datagram_source tokio_ops (\<lambda>cnt. (sys, t, world cnt)) = Some report
    \<and> run_datagram_source mock_ops mock_build = Some report"
proof (intro conjI)
  have "udp_queue sys (mio_rf sys m) pend" using assms(4) by (simp add: mio_rf_def)
  from mio.passes_conformance [OF assms(1,3) this assms(6)] show "run_datagram_source mio_ops (\<lambda>cnt. (sys, m, world cnt)) = Some report"
    by (simp only: assms(7))
  have "build_pool c w = Some (tu_pool t)" using assms(1,2) by simp
  from tokio.passes_conformance [OF this assms(3,5,6)] show "run_datagram_source tokio_ops (\<lambda>cnt. (sys, t, world cnt)) = Some report"
    by (simp only: assms(7))
  show "run_datagram_source mock_ops mock_build = Some report"
    by (simp only: assms(7) mock_passes_conformance)
qed

theorem sources_pass_conformance_witness:
  "map_option failed (run_datagram_source mio_ops (\<lambda>cnt. (queue_os, sample_mio, replicate cnt ([7], peer1)))) = Some []
   \<and> map_option failed (run_datagram_source tokio_ops (\<lambda>cnt. (queue_os, sample_tokio, replicate cnt ([7], peer1)))) = Some []"
  using sources_pass_conformance [of 2 4 sample_mio sample_tokio queue_os "\<lambda>k. k" "\<lambda>cnt. replicate cnt ([7], peer1)", OF _ _ _ _ _ _ refl]
    build_sample queue_recv_is_queue by simp

section \<open>Stream reads\<close>

text \<open>
  On both backends a \<open>recv_into\<close> means what the stream contract says, for a socket that reads
  like a stream: a positive count moved exactly that many bytes, in order, into the front of
  the caller's buffer; \<open>Ok(0)\<close> is an open stream with nothing to read; \<open>UnexpectedEof\<close> into a
  buffer with room is a stream that was read out and closed by the peer, so a reader loop ends.
\<close>

theorem tcp_recv_into_meaning:
  assumes "stream_socket sys (mt_stream m) unread closed" and "tt_stream t = mt_stream m"
    and "length dst < 2 ^ 64"
    and "\<And>w k e k'. s2_recv sys (mt_stream m) w k = (Err e, k') \<Longrightarrow> err_kind e \<noteq> UnexpectedEof"
  shows "read_meaning unread closed dst k (mio_recv_into sys m dst k)
    \<and> read_meaning unread closed dst k (tokio_recv_into sys t dst k)"
  unfolding mio_recv_into_def tokio_recv_into_def assms(2)
  using stream_recv_meaning [OF assms(1,3), where k = k] assms(4) by blast

theorem tcp_recv_into_meaning_witness:
  "mio_recv_into stream_os sample_tcp [0, 0, 9] [1, 2] = (Ok 2, [1, 2, 9], [])
    \<and> read_meaning (\<lambda>k. k) (\<lambda>k. False) [0, 0, 9] [1, 2] (mio_recv_into stream_os sample_tcp [0, 0, 9] [1, 2])"
proof -
  have law: "stream_socket stream_os (mt_stream sample_tcp) (\<lambda>k. k) (\<lambda>k. False)"
    by (auto simp: stream_socket_def stream_read_def would_block_def)
  have stream: "tt_stream sample_tokio_tcp = mt_stream sample_tcp"
    by (simp add: sample_tokio_tcp_def sample_tcp_def)
  have "read_meaning (\<lambda>k. k) (\<lambda>k. False) [0, 0, 9] [1, 2] (mio_recv_into stream_os sample_tcp [0, 0, 9] [1, 2])"
    by (rule conjunct1 [OF tcp_recv_into_meaning [OF law stream]])
       (auto simp: stream_read_def would_block_def split: if_splits)
  then show ?thesis
    by (simp add: mio_recv_into_def stream_recv_into_def stream_read_def overwrite_def)
qed

text \<open>
  C38: A read into an empty buffer on an open stream that holds data is answered with
  \<open>UnexpectedEof\<close> ("peer closed") by both backends, because a count of zero is always taken for
  the end of the stream: the contract's \<open>UnexpectedEof\<close> means a close only when \<open>dst\<close> has room.
\<close>

theorem tcp_recv_into_empty_buffer:
  assumes "stream_socket sys (mt_stream m) unread closed" and "tt_stream t = mt_stream m"
    and "fst (s2_recv sys (mt_stream m) 0 k) = Ok d"
  shows "fst (mio_recv_into sys m [] k) = Err (Io (io_error_new UnexpectedEof ''peer closed''))
    \<and> fst (tokio_recv_into sys t [] k) = Err (Io (io_error_new UnexpectedEof ''peer closed''))"
proof -
  obtain r k' where r: "s2_recv sys (mt_stream m) 0 k = (r, k')" by force
  with assms(3) stream_socketD [OF assms(1), where w = 0 and k = k] have "r = Ok []" by auto
  with r show ?thesis
    by (simp add: mio_recv_into_def tokio_recv_into_def assms(2) stream_recv_into_def peer_closed_def)
qed

theorem tcp_recv_into_empty_buffer_witness:
  "fst (mio_recv_into stream_os sample_tcp [] [1, 2]) = Err (Io (io_error_new UnexpectedEof ''peer closed''))"
proof -
  have law: "stream_socket stream_os (mt_stream sample_tcp) (\<lambda>k. k) (\<lambda>k. False)"
    by (auto simp: stream_socket_def stream_read_def would_block_def)
  have stream: "tt_stream sample_tokio_tcp = mt_stream sample_tcp"
    by (simp add: sample_tokio_tcp_def sample_tcp_def)
  have "fst (s2_recv stream_os (mt_stream sample_tcp) 0 [1, 2]) = Ok []" by (simp add: stream_read_def)
  from tcp_recv_into_empty_buffer [OF law stream this] show ?thesis by simp
qed

text \<open>
  C11: A reader of a TCP transport gets the stream: reads into buffers with room, on either backend,
  return consecutive pieces of what the peer sent, in order and without loss; as many reads as
  there are bytes return all of them; and when the peer has closed, one read more reports it as
  \<open>UnexpectedEof\<close>, after every byte was delivered and never before, so the reader ends.
\<close>

theorem tcp_reader_gets_stream:
  assumes "stream_holds sys (mt_stream m) k u c" and "tt_stream t = mt_stream m" and "list_all has_room dsts"
  shows "(\<exists>n e s'. read_buffers mio_stream_recv dsts (sys, m, k) = (take n u, e, s')
      \<and> (e = None \<or> e = Some peer_closed \<and> c \<and> n = length u)
      \<and> (length u \<le> length dsts \<longrightarrow> n = length u) \<and> (c \<and> length u < length dsts \<longrightarrow> e = Some peer_closed))
    \<and> (\<exists>n e s'. read_buffers tokio_stream_recv dsts (sys, t, k) = (take n u, e, s')
      \<and> (e = None \<or> e = Some peer_closed \<and> c \<and> n = length u)
      \<and> (length u \<le> length dsts \<longrightarrow> n = length u) \<and> (c \<and> length u < length dsts \<longrightarrow> e = Some peer_closed))"
proof (rule conjI)
  have "(\<lambda>(sys, self, k). stream_holds sys (mt_stream self) k) (sys, m, k) u c" using assms(1) by simp
  from mio_stream.reads_in_order [OF this assms(3)] show "\<exists>n e s'. read_buffers mio_stream_recv dsts (sys, m, k) = (take n u, e, s')
      \<and> (e = None \<or> e = Some peer_closed \<and> c \<and> n = length u)
      \<and> (length u \<le> length dsts \<longrightarrow> n = length u) \<and> (c \<and> length u < length dsts \<longrightarrow> e = Some peer_closed)" by blast
  have "(\<lambda>(sys, self, k). stream_holds sys (tt_stream self) k) (sys, t, k) u c" using assms(1,2) by simp
  from tokio_stream.reads_in_order [OF this assms(3)] show "\<exists>n e s'. read_buffers tokio_stream_recv dsts (sys, t, k) = (take n u, e, s')
      \<and> (e = None \<or> e = Some peer_closed \<and> c \<and> n = length u)
      \<and> (length u \<le> length dsts \<longrightarrow> n = length u) \<and> (c \<and> length u < length dsts \<longrightarrow> e = Some peer_closed)" by blast
qed

text \<open>A stream whose peer has sent what the world holds and has closed.\<close>

definition closed_os :: "bytes os" where
  "closed_os = quiet_os\<lparr>s2_recv := (\<lambda>_ w k. (Ok (take w k), drop w k))\<rparr>"

theorem tcp_reader_gets_stream_witness:
  "\<exists>s'. read_buffers mio_stream_recv [[0, 0], [0], [0, 0], [0]] (closed_os, sample_tcp, [1, 2, 3]) = ([1, 2, 3], Some peer_closed, s')"
proof -
  have sock: "stream_socket closed_os (mt_stream sample_tcp) (\<lambda>k. k) (\<lambda>k. True)"
    by (auto simp: stream_socket_def closed_os_def)
  have "reliable_stream closed_os (mt_stream sample_tcp)" by (simp add: reliable_stream_def closed_os_def)
  with sock have "stream_holds closed_os (mt_stream sample_tcp) [1, 2, 3] [1, 2, 3] True"
    unfolding stream_holds_def by blast
  moreover have "tt_stream sample_tokio_tcp = mt_stream sample_tcp" by (simp add: sample_tokio_tcp_def sample_tcp_def)
  ultimately show ?thesis
    using tcp_reader_gets_stream [of closed_os sample_tcp "[1, 2, 3]" "[1, 2, 3]" True sample_tokio_tcp "[[0, 0], [0], [0, 0], [0]]"]
    by (auto simp: has_room_def)
qed

text \<open>
  C17: An \<open>.await\<close>-driven reader of a TCP transport makes progress on both backends: on a stream
  the peer keeps open, with \<open>ready\<close> before every read into a buffer with room, all that has been
  sent is read within as many rounds as it has bytes, no wait hangs while bytes are unread, and the
  bytes come in order. On \<open>mio\<close>, whose poll may report spurious events and of which nothing is
  assumed, no round comes back empty before all of it has been read; on \<open>tokio\<close> none ever does.
\<close>

theorem tcp_receivers_progress:
  assumes "has_room dst" and "reliable_stream sys (mt_stream m)" and "stream_socket sys (mt_stream m) unread (\<lambda>_. False)"
    and "tt_stream t = mt_stream m" and "stream_peek sys (mt_stream m) unread"
    and "reactor_truthful sys (mt_stream m) cached clear unread"
  shows "keeps_up mio_tcp_ready_src (stream_reads mio_stream_recv dst) (sys, m, k) (unread k)
    \<and> keeps_receiving tokio_tcp_ready_src (stream_reads tokio_stream_recv dst) (sys, t, k) (unread k)"
proof (rule conjI)
  show "keeps_up mio_tcp_ready_src (stream_reads mio_stream_recv dst) (sys, m, k) (unread k)"
    by (rule mio_tcp_ready.serves_up [where unread = unread])
       (use assms(1-3) stream_peek_sees [OF assms(5)] in \<open>simp add: mio_tcp_carries_def\<close>)
  show "keeps_receiving tokio_tcp_ready_src (stream_reads tokio_stream_recv dst) (sys, t, k) (unread k)"
    by (rule tokio_tcp_async.serves [where unread = unread and cached = cached and clear = clear])
       (use assms in \<open>simp add: tokio_tcp_carries_def\<close>)
qed

text \<open>An open stream whose poll reports a readable event every time and whose reactor reports what has been sent.\<close>

definition waking_os :: "bytes os" where
  "waking_os = quiet_os\<lparr>s2_recv := (\<lambda>_. stream_read), s2_peek := (\<lambda>_ w k. if k = [] then (Err would_block, []) else (Ok (take w k), k)),
     poll_wait := (\<lambda>_ _ k. Some (Ok [\<lparr>ev_token = 1, ev_readable = True, ev_writable = False\<rparr>], k)),
     tk_readable := (\<lambda>_ k. if k = [] then None else Some (Ok (), k))\<rparr>"

theorem tcp_receivers_progress_witness:
  "\<exists>m xss t. m \<le> 3 \<and> serve mio_tcp_ready_src (stream_reads mio_stream_recv [0, 0]) m (waking_os, sample_tcp, [1, 2, 3]) = Some (xss, t)
    \<and> take 3 (concat xss) = [1, 2, 3]"
proof -
  have law: "has_room [0, 0]" "reliable_stream waking_os (mt_stream sample_tcp)"
    "stream_socket waking_os (mt_stream sample_tcp) (\<lambda>k. k) (\<lambda>_. False)"
    by (auto simp: has_room_def reliable_stream_def stream_socket_def waking_os_def stream_read_def would_block_def split: if_splits)
  have peek: "stream_peek waking_os (mt_stream sample_tcp) (\<lambda>k. k)"
    by (simp add: stream_peek_def waking_os_def would_block_def)
  have reactor: "reactor_truthful waking_os (mt_stream sample_tcp) (\<lambda>k. True) (\<lambda>k. k) (\<lambda>k. k)"
    by (auto simp: reactor_truthful_def try_io_contract_def waking_os_def quiet_os_def split: prod.splits result.splits if_splits)
  have "tt_stream sample_tokio_tcp = mt_stream sample_tcp" by (simp add: sample_tokio_tcp_def sample_tcp_def)
  from tcp_receivers_progress [OF law this peek reactor, of "[1, 2, 3]"]
  have "keeps_up mio_tcp_ready_src (stream_reads mio_stream_recv [0, 0]) (waking_os, sample_tcp, [1, 2, 3]) [1, 2, 3]" by simp
  from keeps_up_all [OF this] show ?thesis by (simp add: numeral_3_eq_3)
qed

section \<open>Dispatch\<close>

text \<open>
  The operations of the wrong shape are refused as unsupported under the variant's own name,
  on both backends, without touching the transport, the caller's buffers or the world: bursts,
  addressed sends and multicast on a TCP transport, stream reads on a UDP one.
\<close>

lemma wrong_shape_unsupported:
  "(\<exists>why. mio_transport_recv_burst sys (MioTcp t) out mx k = Some (Err (Unsupported (mio_name (MioTcp t)) why), MioTcp t, out, k))
 \<and> (\<exists>why. mio_transport_recv_into sys (MioUdp u) dst k = (Err (Unsupported (mio_name (MioUdp u)) why), dst, k))
 \<and> (\<exists>why. mio_transport_join_multicast sys (MioTcp t) grp iface k = (Err (Unsupported (mio_name (MioTcp t)) why), k))
 \<and> (\<exists>why. mio_send_to sys (MioTcp t) buf a k = Some (Err (Unsupported (mio_name (MioTcp t)) why), k))
 \<and> (\<exists>why. tokio_transport_recv_burst sys (TokioTcp t') out mx k = Some (Err (Unsupported (tokio_name (TokioTcp t')) why), TokioTcp t', out, k))
 \<and> (\<exists>why. tokio_transport_recv_into sys (TokioUdp u') dst k = (Err (Unsupported (tokio_name (TokioUdp u')) why), dst, k))
 \<and> (\<exists>why. tokio_transport_join_multicast sys (TokioTcp t') grp iface k = (Err (Unsupported (tokio_name (TokioTcp t')) why), k))
 \<and> (\<exists>why. tokio_send_to sys (TokioTcp t') buf a k = Some (Err (Unsupported (tokio_name (TokioTcp t')) why), k))"
  by (simp add: fail_def)

text \<open>
  Whatever the caller does with it, the receive of a transport enum never panics, and it is
  refused as unsupported exactly on the TCP variant; a UDP burst never yields that error.
\<close>

theorem mio_burst_unsupported_iff:
  assumes "pool_ok (mio_pool tr) L" and "batch_ok out"
    and "\<And>s. fits_buffer (mio_recv_from sys s)"
  shows "\<exists>r tr' out' k'. mio_transport_recv_burst sys tr out mx k = Some (r, tr', out', k')
    \<and> ((\<exists>nm why. r = Err (Unsupported nm why)) \<longleftrightarrow> (\<exists>t. tr = MioTcp t))"
proof (cases tr)
  case (MioTcp t)
  then show ?thesis by simp
next
  case (MioUdp u)
  have ok: "pool_ok (mu_pool u) L" using assms(1) MioUdp by simp
  have fit: "fits_buffer (mio_rf sys u)" using assms(3) by (simp add: mio_rf_def)
  from mio.safe [OF ok assms(2) fit, of mx k] obtain r u' out' k' where
    b: "mio_recv_burst sys u out mx k = Some (r, u', out', k')" by blast
  have "r \<noteq> Err (Unsupported nm why)" for nm why
  proof (cases "free_list (mu_pool u) \<noteq> [] \<or> min mx (batch_spare out) = 0")
    case True
    obtain ds e k1 where "reap (mio_rf sys u) (unat (slab_size (mu_pool u))) (burst_budget (mu_pool u) out mx) k = (ds, e, k1)"
      by (metis prod_cases3)
    from mio.reaps [OF ok assms(2) fit True this] b show ?thesis by (auto split: if_splits)
  next
    case False
    then have empty: "free_list (mu_pool u) = []" and "min mx (batch_spare out) \<noteq> 0" by blast+
    from this(2) have pos: "0 < min mx (batch_spare out)" by (simp only: word_gt_0)
    from mio.exhausted_call [OF empty pos, of sys k] b show ?thesis by simp
  qed
  with b MioUdp show ?thesis by simp
qed

theorem mio_burst_unsupported_iff_witness:
  "\<exists>r tr' out' k'. mio_transport_recv_burst queue_os (MioTcp sample_tcp) (batch_with_capacity 4) 8 [] = Some (r, tr', out', k')
    \<and> (\<exists>nm why. r = Err (Unsupported nm why))"
  using mio_burst_unsupported_iff [of "MioTcp sample_tcp" "{#}" "batch_with_capacity 4" queue_os 8 "[]"]
  by (simp add: sample_tcp_def sample_pool_ok queue_recv_fits)

end
